(* ===== verification/Enums.thy ===== *)
theory Enums imports Main begin

text \<open>
  The PostgreSQL enum types of \<^verbatim>\<open>qorder_api/models/enums.py\<close>. The statuses of an order item
  carry the order in which \<^verbatim>\<open>CREATE TYPE\<close> lists them, which is the order of the kitchen's
  forward flow; it is made an instance of the library's linear orders.
\<close>

section \<open>Order items\<close>

datatype OrderItemStatus = PENDING | COOKING | READY | SERVED | CANCELLED

primrec status_rank :: "OrderItemStatus \<Rightarrow> nat" where
  "status_rank PENDING = 0"
| "status_rank COOKING = 1"
| "status_rank READY = 2"
| "status_rank SERVED = 3"
| "status_rank CANCELLED = 4"

lemma status_rank_inject [simp]: "status_rank a = status_rank b \<longleftrightarrow> a = b"
  by (cases a; cases b) simp_all

instantiation OrderItemStatus :: linorder
begin

definition less_eq_OrderItemStatus :: "OrderItemStatus \<Rightarrow> OrderItemStatus \<Rightarrow> bool" where
  "a \<le> b \<longleftrightarrow> status_rank a \<le> status_rank b"

definition less_OrderItemStatus :: "OrderItemStatus \<Rightarrow> OrderItemStatus \<Rightarrow> bool" where
  "a < b \<longleftrightarrow> status_rank a < status_rank b"

instance
  by standard (auto simp: less_eq_OrderItemStatus_def less_OrderItemStatus_def
      simp flip: status_rank_inject)

end

lemmas status_order = less_eq_OrderItemStatus_def less_OrderItemStatus_def

lemma not_less_PENDING [simp]: "\<not> s < PENDING"
  by (simp add: status_order)

text \<open>The kitchen still has to do something about an active item; the other two are final.\<close>

primrec active :: "OrderItemStatus \<Rightarrow> bool" where
  "active PENDING = True"
| "active COOKING = True"
| "active READY = True"
| "active SERVED = False"
| "active CANCELLED = False"

lemma active_iff_before_served: "active s \<longleftrightarrow> s < SERVED"
  by (cases s) (simp_all add: status_order)

section \<open>Sessions, users, cancellations, staff calls\<close>

datatype SessionStatus = OPEN | CLOSED | ABANDONED

datatype UserRole = STAFF | ADMIN

datatype CancelledBy = BY_CUSTOMER | BY_STAFF | BY_SYSTEM

datatype StaffCallStatus = CALL_PENDING | CALL_ACKNOWLEDGED

primrec role_value :: "UserRole \<Rightarrow> string" where
  "role_value STAFF = ''staff''"
| "role_value ADMIN = ''admin''"

primrec item_status_value :: "OrderItemStatus \<Rightarrow> string" where
  "item_status_value PENDING = ''pending''"
| "item_status_value COOKING = ''cooking''"
| "item_status_value READY = ''ready''"
| "item_status_value SERVED = ''served''"
| "item_status_value CANCELLED = ''cancelled''"

primrec call_status_value :: "StaffCallStatus \<Rightarrow> string" where
  "call_status_value CALL_PENDING = ''pending''"
| "call_status_value CALL_ACKNOWLEDGED = ''acknowledged''"

lemma item_status_value_inject [simp]:
  "item_status_value a = item_status_value b \<longleftrightarrow> a = b"
  by (cases a; cases b) simp_all

end
