(* ===== verification/Prelude.thy ===== *)
theory Prelude imports Enums "HOL-Library.Word" begin

text \<open>
  What every component shares: identifiers, time and money, the exceptions of the program as
  values, and the list operations that the SQL statements of the services are translated to,
  with their lemmas.

  A table is the list of its rows. \<^verbatim>\<open>SELECT ... WHERE P\<close> is \<open>filter P\<close>,
  \<^verbatim>\<open>UPDATE ... SET f WHERE P\<close> is \<open>sql_update P f\<close>, the rows of its \<^verbatim>\<open>RETURNING *\<close> are
  \<open>sql_returning P f\<close>, and \<^verbatim>\<open>scalar_one_or_none()\<close> is the function of that name.
\<close>

named_theorems sql \<open>rewriting of table operations\<close>
named_theorems frame \<open>which tables an operation leaves alone\<close>

section \<open>Identifiers, time, money\<close>

type_synonym uuid = "128 word"

text \<open>Times are microseconds since 1970, the resolution of \<^verbatim>\<open>TIMESTAMPTZ\<close> and of Python's
  \<^verbatim>\<open>datetime\<close>; money is in hundredths, the scale of \<^verbatim>\<open>NUMERIC(12,2)\<close>.\<close>

type_synonym timestamp = int
type_synonym money = int

definition seconds :: "int \<Rightarrow> int" where
  "seconds n = n * 1000000"

definition hours :: "int \<Rightarrow> int" where
  "hours n = seconds (n * 3600)"

lemmas time_units = seconds_def hours_def

text \<open>A \<^verbatim>\<open>NUMERIC(12,2)\<close> column holds ten digits before the point; an \<^verbatim>\<open>INTEGER\<close> one 32 bits.\<close>

definition fits_numeric_12_2 :: "money \<Rightarrow> bool" where
  "fits_numeric_12_2 m \<longleftrightarrow> \<bar>m\<bar> < 1000000000000"

definition fits_int4 :: "int \<Rightarrow> bool" where
  "fits_int4 n \<longleftrightarrow> -2147483648 \<le> n \<and> n < 2147483648"

section \<open>Exceptions\<close>

text \<open>The texts of the error answers, one constructor per text of the source.\<close>

datatype detail =
    InvalidQR | RestaurantNotActive | SessionNotOpen | MenuItemMissing uuid
  | MenuItemSoldOut string | ItemNotInSession | ItemNotInRestaurant
  | TransitionNotAllowed OrderItemStatus | ItemStateChanged | CannotCancel
  | CallMissing | TableMissing | TableNotActive | SessionMissing | AlreadyClosed
  | OnlyAbandoned | AbandonedAtMissing | Over24Hours | RestoreRace | CheckoutRace
  | RaceRecoveryFailed uuid | ValidationFailed
  | MissingCredentials | InvalidToken | RoleNotAuthorized string | InvalidCredentials
  | StaffJwtRequired | RoleRequired | TokenOfOtherRestaurant
  | CategoryMissing | CategoryInvalid | MenuItemNotFound | RestaurantMissing
  | SettingsMissing | NoActiveStaff | ImageTypeRefused | ImageTooLarge | ImageEmpty
  | ImageInvalid | NotAnInteger string | TableNotFound
  | RestaurantNotFound

datatype exn =
    HTTPException nat detail
  | InvalidTransition detail
  | ConflictError detail
  | ValueError detail
  | RuntimeError detail
  | TokenError
  | KeyError
  | IntegrityError string
  | DBAPIError string
  | MultipleResultsFound
  | NoResultFound
  | MissingGreenlet
  | ClientError string
  | ImageValidationError
  | PillowError string

type_synonym 'a result = "exn + 'a"

text \<open>The constraints of a row, in the order they are listed: the first that fails is raised.\<close>

fun check :: "(bool \<times> exn) list \<Rightarrow> exn option" where
  "check [] = None"
| "check ((ok, x) # cs) = (if ok then check cs else Some x)"

lemma check_None_iff: "check cs = None \<longleftrightarrow> (\<forall>(ok, x) \<in> set cs. ok)"
  by (induction cs rule: check.induct) auto

section \<open>Tables as lists of rows\<close>

definition sql_update :: "('r \<Rightarrow> bool) \<Rightarrow> ('r \<Rightarrow> 'r) \<Rightarrow> 'r list \<Rightarrow> 'r list" where
  "sql_update P f rows = map (\<lambda>r. if P r then f r else r) rows"

definition sql_returning :: "('r \<Rightarrow> bool) \<Rightarrow> ('r \<Rightarrow> 'r) \<Rightarrow> 'r list \<Rightarrow> 'r list" where
  "sql_returning P f rows = map f (filter P rows)"

fun scalar_one_or_none :: "'r list \<Rightarrow> 'r option result" where
  "scalar_one_or_none [] = Inr None"
| "scalar_one_or_none [r] = Inr (Some r)"
| "scalar_one_or_none (r # r' # rs) = Inl MultipleResultsFound"

fun scalar_one :: "'r list \<Rightarrow> 'r result" where
  "scalar_one [] = Inl NoResultFound"
| "scalar_one [r] = Inr r"
| "scalar_one (r # r' # rs) = Inl MultipleResultsFound"

fun first_row :: "'r list \<Rightarrow> 'r option" where
  "first_row [] = None"
| "first_row (r # rs) = Some r"

fun_cases scalar_SomeE: "scalar_one_or_none rs = Inr (Some r)"
fun_cases scalar_NoneE: "scalar_one_or_none rs = Inr None"
fun_cases scalar_oneE: "scalar_one rs = Inr r"
fun_cases first_row_SomeE: "first_row rs = Some r"

lemma scalar_one_or_none_Some_iff [sql]:
  "scalar_one_or_none rs = Inr (Some r) \<longleftrightarrow> rs = [r]"
  by (cases rs rule: scalar_one_or_none.cases) auto

lemma scalar_one_or_none_None_iff [sql]:
  "scalar_one_or_none rs = Inr None \<longleftrightarrow> rs = []"
  by (cases rs rule: scalar_one_or_none.cases) auto

lemma scalar_one_Inr_iff [sql]: "scalar_one rs = Inr r \<longleftrightarrow> rs = [r]"
  by (cases rs rule: scalar_one.cases) auto

lemma first_row_None_iff [simp]: "first_row rs = None \<longleftrightarrow> rs = []"
  by (cases rs) auto

lemma first_row_ex_iff [simp]: "(\<exists>r. first_row rs = Some r) \<longleftrightarrow> rs \<noteq> []"
  by (cases rs) auto

lemma first_row_Some_iff [sql]: "first_row rs = Some r \<longleftrightarrow> (\<exists>rs'. rs = r # rs')"
  by (cases rs) auto

lemma set_sql_update: "set (sql_update P f rows) = (\<lambda>r. if P r then f r else r) ` set rows"
  by (simp add: sql_update_def)

lemma sql_update_memE [elim?]:
  assumes "x \<in> set (sql_update P f rows)"
  obtains r where "r \<in> set rows" and "x = (if P r then f r else r)"
  using assms by (auto simp: set_sql_update)

lemma map_sql_update [sql]:
  assumes "\<And>r. k (f r) = k r"
  shows "map k (sql_update P f rows) = map k rows"
  using assms by (simp add: sql_update_def)

lemma key_image_sql_update:
  assumes "\<And>r. k (f r) = k r"
  shows "k ` set (sql_update P f rows) = k ` set rows"
  using map_sql_update [of k f P rows] assms by (metis list.set_map)

lemma ball_sql_update:
  "(\<forall>x \<in> set (sql_update P f rows). Q x) \<longleftrightarrow> (\<forall>r \<in> set rows. Q (if P r then f r else r))"
  by (auto simp: set_sql_update)

lemma bex_sql_update:
  "(\<exists>x \<in> set (sql_update P f rows). Q x) \<longleftrightarrow> (\<exists>r \<in> set rows. Q (if P r then f r else r))"
  by (auto simp: set_sql_update)

lemma sql_update_id: "(\<And>r. r \<in> set rows \<Longrightarrow> \<not> P r) \<Longrightarrow> sql_update P f rows = rows"
  by (induction rows) (auto simp: sql_update_def)

lemma filter_sql_update_same:
  assumes "\<And>r. P r \<Longrightarrow> Q (f r) = Q r"
  shows "filter Q (sql_update P f rows) = sql_update P f (filter Q rows)"
  using assms by (induction rows) (auto simp: sql_update_def)

section \<open>Primary keys\<close>

definition unique_by :: "('r \<Rightarrow> 'k) \<Rightarrow> 'r list \<Rightarrow> bool" where
  "unique_by k rows \<longleftrightarrow> distinct (map k rows)"

lemma unique_by_Nil [simp]: "unique_by k []"
  by (simp add: unique_by_def)

lemma unique_by_Cons [simp]:
  "unique_by k (r # rows) \<longleftrightarrow> k r \<notin> k ` set rows \<and> unique_by k rows"
  by (simp add: unique_by_def)

lemma unique_by_append [simp]:
  "unique_by k (xs @ ys) \<longleftrightarrow> unique_by k xs \<and> unique_by k ys \<and> k ` set xs \<inter> k ` set ys = {}"
  by (simp add: unique_by_def)

lemma unique_by_sql_update [sql]:
  assumes "\<And>r. k (f r) = k r"
  shows "unique_by k (sql_update P f rows) = unique_by k rows"
  using assms by (simp add: unique_by_def map_sql_update)

lemma unique_byD:
  assumes "unique_by k rows" and "r \<in> set rows" and "r' \<in> set rows" and "k r = k r'"
  shows "r = r'"
  using assms by (auto simp: unique_by_def distinct_map dest: inj_onD)

text \<open>Selecting by a unique key gives the row or nothing.\<close>

lemma filter_unique:
  assumes "unique_by k rows" and "r \<in> set rows"
  shows "filter (\<lambda>x. k x = k r \<and> Q x) rows = (if Q r then [r] else [])"
  using assms
proof (induction rows)
  case Nil
  then show ?case by simp
next
  case (Cons x rows)
  show ?case
  proof (cases "x = r")
    case True
    with Cons.prems have "filter (\<lambda>y. k y = k r \<and> Q y) rows = []"
      by (auto simp: filter_empty_conv image_iff)
    with True show ?thesis by simp
  next
    case False
    with Cons.prems have "r \<in> set rows" and "k x \<noteq> k r" by auto
    with Cons show ?thesis by simp
  qed
qed

lemma filter_key_cases:
  assumes "unique_by k rows"
  obtains (none) "filter (\<lambda>r. k r = x \<and> Q r) rows = []" "\<And>r. r \<in> set rows \<Longrightarrow> k r = x \<Longrightarrow> \<not> Q r"
  | (one) r where "filter (\<lambda>r. k r = x \<and> Q r) rows = [r]" "r \<in> set rows" "k r = x" "Q r"
proof (cases "\<exists>r \<in> set rows. k r = x \<and> Q r")
  case True
  then obtain r where "r \<in> set rows" "k r = x" "Q r" by blast
  with filter_unique [OF assms, of r Q] that(2) show ?thesis by auto
next
  case False
  then show ?thesis by (intro that(1)) (auto simp: filter_empty_conv)
qed

text \<open>Updating by a unique key changes the one row.\<close>

lemma sql_update_unique:
  assumes "unique_by k rows" and "r \<in> set rows"
  shows "sql_update (\<lambda>x. k x = k r) f rows = map (\<lambda>x. if x = r then f r else x) rows"
  using unique_byD [OF assms(1) _ assms(2)] by (auto simp: sql_update_def)

lemma select_updated:
  assumes "unique_by k rows" and "r \<in> set rows" and "\<And>x. k (f x) = k x"
  shows "filter (\<lambda>x. k x = k r) (sql_update (\<lambda>x. k x = k r) f rows) = [f r]"
proof -
  have "filter (\<lambda>x. k x = k r) rows = [r]"
    using filter_unique [OF assms(1,2), of "\<lambda>_. True"] by simp
  then show ?thesis
    by (subst filter_sql_update_same) (simp_all add: assms(3) sql_update_def)
qed

lemma filter_eq_SingletonD:
  assumes "filter P rows = [r]"
  shows "r \<in> set rows" and "P r"
proof -
  from assms have "r \<in> set (filter P rows)" by simp
  then show "r \<in> set rows" and "P r" by auto
qed

lemma filter_eq_ConsD2:
  assumes "filter P rows = r # rs"
  shows "r \<in> set rows" and "P r"
proof -
  from assms have "r \<in> set (filter P rows)" by simp
  then show "r \<in> set rows" and "P r" by auto
qed

end
