(* ===== verification/PyFloat.thy ===== *)
theory PyFloat imports Prelude "HOL-Library.Log_Nat" begin

text \<open>
  Python's \<^verbatim>\<open>float\<close>: IEEE 754 double precision as rational numbers, rounded to 53 significant bits,
  ties to even. Overflow and subnormal numbers are left out: the program's floats are ratios of
  times, between about \<open>10\<^sup>-\<^sup>1\<^sup>9\<close> and \<open>10\<^sup>1\<^sup>2\<close> in size.
\<close>

section \<open>Rounding\<close>

definition round_half_even :: "rat \<Rightarrow> int" where
  "round_half_even y =
     (let f = \<lfloor>y\<rfloor>; r = y - of_int f
      in if r < 1/2 then f else if 1/2 < r then f + 1 else if even f then f else f + 1)"

definition expo :: "rat \<Rightarrow> int" where
  "expo x =
     (case quotient_of x of (n, d) \<Rightarrow>
        let k = bitlen \<bar>n\<bar> - bitlen d in if 2 powi k \<le> \<bar>x\<bar> then k else k - 1)"

definition fl :: "rat \<Rightarrow> rat" where
  "fl x =
     (if x = 0 then 0
      else of_int (round_half_even (x / 2 powi (expo x - 52))) * 2 powi (expo x - 52))"

lemma round_half_even_error: "\<bar>of_int (round_half_even y) - y\<bar> \<le> 1/2"
proof -
  have "of_int \<lfloor>y\<rfloor> \<le> y" "y < of_int \<lfloor>y\<rfloor> + 1" by linarith+
  then show ?thesis by (auto simp: round_half_even_def Let_def)
qed

lemma round_half_even_ge: "of_int z \<le> y \<Longrightarrow> z \<le> round_half_even y"
proof -
  assume "of_int z \<le> y"
  then have "z \<le> \<lfloor>y\<rfloor>" by linarith
  then show ?thesis by (auto simp: round_half_even_def Let_def)
qed

lemma bitlen_bounds_rat:
  assumes "0 < n"
  shows "(2::rat) powi (bitlen n - 1) \<le> of_int n" and "of_int n < (2::rat) powi (bitlen n)"
proof -
  from bitlen_bounds [OF assms] have b: "2 ^ nat (bitlen n - 1) \<le> n" "n < 2 ^ nat (bitlen n)" by auto
  have pos: "0 < bitlen n"
  proof (rule ccontr)
    assume "\<not> 0 < bitlen n"
    with b(2) assms show False by simp
  qed
  from b have "of_int (2 ^ nat (bitlen n - 1)) \<le> (of_int n :: rat)"
    "of_int n < (of_int (2 ^ nat (bitlen n)) :: rat)" by (simp_all only: of_int_le_iff of_int_less_iff)
  with pos show "(2::rat) powi (bitlen n - 1) \<le> of_int n" "of_int n < (2::rat) powi (bitlen n)"
    by (simp_all add: power_int_def)
qed

lemma expo_bounds:
  assumes "x \<noteq> 0"
  shows "2 powi (expo x) \<le> \<bar>x\<bar>" and "\<bar>x\<bar> < 2 powi (expo x + 1)"
proof -
  obtain n d where q: "quotient_of x = (n, d)" by fastforce
  then have d: "0 < d" and x: "x = of_int n / of_int d"
    by (auto dest: quotient_of_denom_pos quotient_of_div)
  with assms have n: "0 < \<bar>n\<bar>" by auto
  let ?k = "bitlen \<bar>n\<bar> - bitlen d"
  note bn = bitlen_bounds_rat [OF n] and bd = bitlen_bounds_rat [OF d]
  have ax: "\<bar>x\<bar> = of_int \<bar>n\<bar> / of_int d" using d by (simp add: x)
  have two: "(2::rat) powi a * 2 powi b = 2 powi (a + b)" for a b
    by (simp add: power_int_add)
  have d0: "(0::rat) < of_int d" using d by simp
  have "of_int \<bar>n\<bar> < (2::rat) powi (?k + 1) * 2 powi (bitlen d - 1)"
    using bn(2) by (simp add: two)
  also have "\<dots> \<le> 2 powi (?k + 1) * of_int d"
    using bd(1) by (intro mult_left_mono) simp_all
  finally have up: "\<bar>x\<bar> < 2 powi (?k + 1)" using d0 by (simp add: ax divide_less_eq)
  have "(2::rat) powi (?k - 1) * of_int d \<le> 2 powi (?k - 1) * 2 powi (bitlen d)"
    using bd(2) by (intro mult_left_mono) simp_all
  also have "\<dots> = 2 powi (bitlen \<bar>n\<bar> - 1)" by (simp add: two)
  also have "\<dots> \<le> of_int \<bar>n\<bar>" using bn(1) .
  finally have lo: "2 powi (?k - 1) \<le> \<bar>x\<bar>" using d0 by (simp add: ax le_divide_eq)
  show "2 powi (expo x) \<le> \<bar>x\<bar>" "\<bar>x\<bar> < 2 powi (expo x + 1)"
    using up lo by (auto simp: expo_def q Let_def)
qed

text \<open>The relative error of one rounding is at most \<open>2\<^sup>-\<^sup>5\<^sup>3\<close>.\<close>

definition unit_roundoff :: rat where
  "unit_roundoff = 1 / 2 ^ 53"

lemma fl_error: "\<bar>fl x - x\<bar> \<le> unit_roundoff * \<bar>x\<bar>"
proof (cases "x = 0")
  case False
  let ?g = "(2::rat) powi (expo x - 52)"
  have g: "0 < ?g" by simp
  have "fl x - x = (of_int (round_half_even (x / ?g)) - x / ?g) * ?g"
    using False g by (simp add: fl_def field_simps)
  then have "\<bar>fl x - x\<bar> = \<bar>of_int (round_half_even (x / ?g)) - x / ?g\<bar> * ?g"
    using g by (simp add: abs_mult)
  also have "\<dots> \<le> 1/2 * ?g"
    using round_half_even_error g by (intro mult_right_mono) simp_all
  also have "1/2 * ?g = unit_roundoff * 2 powi (expo x)"
    by (simp add: unit_roundoff_def power_int_diff)
  also have "\<dots> \<le> unit_roundoff * \<bar>x\<bar>"
    using expo_bounds(1) [OF False] by (intro mult_left_mono) (simp_all add: unit_roundoff_def)
  finally show ?thesis .
qed (simp add: fl_def)

lemma fl_le: "0 \<le> x \<Longrightarrow> fl x \<le> x * (1 + unit_roundoff)"
  using fl_error [of x] by (simp add: algebra_simps)

lemma fl_nonpos: "x \<le> 0 \<Longrightarrow> fl x \<le> 0"
proof -
  assume x: "x \<le> 0"
  have "unit_roundoff * \<bar>x\<bar> \<le> 1 * \<bar>x\<bar>" by (intro mult_right_mono) (simp_all add: unit_roundoff_def)
  then show "fl x \<le> 0" using fl_error [of x] x by linarith
qed

text \<open>Halves of integers below \<open>2\<^sup>5\<^sup>2\<close> are floats: rounding does not move a number across them.\<close>

lemma fl_ge:
  assumes "0 < h" and "h < 2 ^ 53" and "of_int h / 2 \<le> x"
  shows "of_int h / 2 \<le> fl x"
proof -
  have "0 < (of_int h :: rat)" using assms(1) by simp
  with assms(3) have x0: "0 < x" by linarith
  then have xn: "x \<noteq> 0" and ax: "\<bar>x\<bar> = x" by auto
  let ?g = "(2::rat) powi (expo x - 52)"
  have g: "0 < ?g" by simp
  have fx: "fl x = of_int (round_half_even (x / ?g)) * ?g" using xn by (simp add: fl_def)
  note b = expo_bounds [OF xn, unfolded ax]
  have ge: "of_int z * ?g \<le> fl x" if "of_int z * ?g \<le> x" for z
  proof -
    have "of_int z \<le> x / ?g" using that g by (simp add: le_divide_eq)
    then have "z \<le> round_half_even (x / ?g)" by (rule round_half_even_ge)
    then show ?thesis using g by (simp add: fx)
  qed
  show ?thesis
  proof (cases "expo x \<le> 51")
    case True
    have "of_int (h * 2 ^ nat (51 - expo x)) * ?g = of_int h * ((2::rat) powi (51 - expo x) * ?g)"
      using True by (simp add: power_int_def)
    also have "(2::rat) powi (51 - expo x) * ?g = 2 powi (-1)"
      by (simp flip: power_int_add)
    finally have eq: "of_int (h * 2 ^ nat (51 - expo x)) * ?g = of_int h / 2" by simp
    show ?thesis using ge [of "h * 2 ^ nat (51 - expo x)"] assms(3) unfolding eq .
  next
    case False
    have "of_int (2 ^ 52) * ?g = (2::rat) powi (expo x)" by (simp add: power_int_diff)
    with ge [of "2 ^ 52"] b(1) have "2 powi (expo x) \<le> fl x" by simp
    moreover have "(2::rat) powi 52 \<le> 2 powi (expo x)"
      using False by (intro power_int_increasing) simp_all
    moreover have "of_int h / 2 < (2::rat) powi 52"
    proof -
      have "of_int h < (of_int (2 ^ 53) :: rat)" using assms(2) by (simp only: of_int_less_iff)
      then show ?thesis by simp
    qed
    ultimately show ?thesis by linarith
  qed
qed

lemma fl_int:
  assumes "0 < p" and "p < 2 ^ 52"
  shows "fl (of_int p) = of_int p"
proof -
  let ?x = "of_int p :: rat"
  let ?g = "(2::rat) powi (expo ?x - 52)"
  have x: "?x \<noteq> 0" using assms(1) by simp
  have "?x < of_int (2 ^ 52)" using assms(2) by (simp only: of_int_less_iff)
  then have "(2::rat) powi (expo ?x) < 2 powi 52"
    using expo_bounds(1) [OF x] assms(1) by simp
  then have e: "expo ?x < 52"
    using power_int_increasing [of 52 "expo ?x" "2::rat"] by linarith
  have "of_int (p * 2 ^ nat (52 - expo ?x)) * ?g = ?x * ((2::rat) powi (52 - expo ?x) * ?g)"
    using e by (simp add: power_int_def)
  also have "(2::rat) powi (52 - expo ?x) * ?g = 1"
    by (simp flip: power_int_add)
  finally have eq: "of_int (p * 2 ^ nat (52 - expo ?x)) * ?g = ?x" by simp
  then have "?x / ?g = of_int (p * 2 ^ nat (52 - expo ?x))" by (simp add: divide_eq_eq)
  then have "round_half_even (?x / ?g) = p * 2 ^ nat (52 - expo ?x)"
    unfolding round_half_even_def by (simp only: floor_of_int Let_def) simp
  then show ?thesis using x eq by (simp add: fl_def)
qed

end
