(* ===== verification/Overdue.thy ===== *)
theory Overdue imports PyFloat begin

text \<open>
  \<^verbatim>\<open>compute_overdue_level\<close> of \<^verbatim>\<open>item_state_service.py\<close>: how late an item is, computed with Python
  floats. The theorem shows that its rounding never changes the level for preparation times up to
  twenty million minutes.
\<close>

definition total_seconds :: "int \<Rightarrow> rat" where
  "total_seconds delta = fl (of_int delta / 1000000)"

definition compute_overdue_level :: "int \<Rightarrow> timestamp \<Rightarrow> timestamp \<Rightarrow> nat option" where
  "compute_overdue_level prep_time_snapshot requested_at now =
     (if prep_time_snapshot = 0 then None
      else
        (let elapsed_seconds = total_seconds (now - requested_at);
             elapsed_minutes = fl (elapsed_seconds / 60);
             ratio = fl (elapsed_minutes / fl (of_int prep_time_snapshot))
         in if ratio < 1 then Some 0
            else if ratio < 3/2 then Some 1
            else if ratio < 2 then Some 2
            else Some 3))"

text \<open>The specification: the level by exact comparison of times.\<close>

definition overdue_spec :: "int \<Rightarrow> int \<Rightarrow> nat option" where
  "overdue_spec prep elapsed =
     (if prep = 0 then None
      else if elapsed < prep * 60000000 then Some 0
      else if elapsed < prep * 90000000 then Some 1
      else if elapsed < prep * 120000000 then Some 2
      else Some 3)"

section \<open>One threshold\<close>

definition ratio_of :: "int \<Rightarrow> int \<Rightarrow> rat" where
  "ratio_of prep elapsed = fl (fl (fl (of_int elapsed / 1000000) / 60) / fl (of_int prep))"

lemma ratio_reaches:
  assumes p: "0 < p" "p < 20000000" and h: "0 < h" "h \<le> 4" and e: "h * p * 30000000 \<le> e"
  shows "of_int h / 2 \<le> ratio_of p e"
proof -
  have hp: "0 < h * p" using p h by simp
  have big: "h * p \<le> 80000000"
    using mult_mono [of h 4 p 20000000] p h by simp
  have "(of_int (h * p * 30000000) :: rat) \<le> of_int e" using e by (simp only: of_int_le_iff)
  then have "of_int (60 * (h * p)) / 2 \<le> (of_int e / 1000000 :: rat)" by simp
  then have a: "of_int (60 * (h * p)) / 2 \<le> fl (of_int e / 1000000)"
    using hp big by (intro fl_ge) simp_all
  then have "of_int (h * p) / 2 \<le> fl (of_int e / 1000000) / 60" by simp
  then have b: "of_int (h * p) / 2 \<le> fl (fl (of_int e / 1000000) / 60)"
    using hp big by (intro fl_ge) simp_all
  have "fl (of_int p) = of_int p" using p by (intro fl_int) simp_all
  moreover have "of_int h / 2 \<le> fl (fl (of_int e / 1000000) / 60) / of_int p"
    using b p(1) by (simp add: le_divide_eq)
  ultimately have "of_int h / 2 \<le> fl (fl (of_int e / 1000000) / 60) / fl (of_int p)" by simp
  then show ?thesis using h unfolding ratio_of_def by (intro fl_ge) simp_all
qed

text \<open>The three roundings enlarge the ratio by at most three units.\<close>

lemma ratio_of_le:
  assumes p: "0 < p" "p < 20000000" and e: "0 \<le> e"
  shows "ratio_of p e \<le> of_int e / (60000000 * of_int p) * (1 + unit_roundoff) ^ 3"
proof -
  let ?u = "unit_roundoff" and ?x = "of_int e / 1000000 :: rat"
  let ?c = "1 + ?u"
  have fp: "fl (of_int p) = of_int p" using p by (intro fl_int) simp_all
  have p0: "(0::rat) < of_int p" using p(1) by simp
  have x0: "0 \<le> ?x" using e by simp
  have c0: "0 \<le> ?c" by (simp add: unit_roundoff_def)
  have nn: "0 \<le> fl y" if "0 \<le> y" for y
  proof -
    have "?u * \<bar>y\<bar> \<le> 1 * \<bar>y\<bar>" by (intro mult_right_mono) (simp_all add: unit_roundoff_def)
    with fl_error [of y] that show ?thesis by linarith
  qed
  have 1: "fl ?x \<le> ?x * ?c" by (rule fl_le [OF x0])
  have "fl (fl ?x / 60) \<le> fl ?x / 60 * ?c" using nn [OF x0] by (intro fl_le) simp
  also have "\<dots> \<le> ?x * ?c / 60 * ?c" using 1 c0 by (intro mult_right_mono) simp_all
  finally have 2: "fl (fl ?x / 60) \<le> ?x * ?c / 60 * ?c" .
  have "ratio_of p e \<le> fl (fl ?x / 60) / of_int p * ?c"
    unfolding ratio_of_def fp using p0 nn [of "fl ?x / 60"] nn [OF x0] by (intro fl_le) simp
  also have "\<dots> \<le> ?x * ?c / 60 * ?c / of_int p * ?c"
    using 2 p0 c0 by (intro mult_right_mono divide_right_mono) simp_all
  finally show ?thesis by (simp add: power3_eq_cube field_simps)
qed

text \<open>A microsecond below the threshold is more than what three units make of the elapsed time.\<close>

lemma roundings_below_threshold:
  assumes p: "0 < p" "p < 20000000" and h: "0 < h" "h \<le> 4" and e: "0 < e" "e < h * p * 30000000"
  shows "(of_int e :: rat) * (1 + unit_roundoff) ^ 3 < of_int h * of_int p * 30000000"
proof -
  let ?u = "unit_roundoff"
  have c3: "(1 + ?u) ^ 3 < 1 + 7/2 * ?u" by (simp add: unit_roundoff_def power3_eq_cube)
  have "(of_int e :: rat) \<le> of_int (h * p * 30000000 - 1)" using e by (simp only: of_int_le_iff)
  then have e': "(of_int e :: rat) \<le> of_int h * of_int p * 30000000 - 1" by simp
  have "of_int e * (1 + ?u) ^ 3 < of_int e * (1 + 7/2 * ?u)" using e(1) c3 by (intro mult_strict_left_mono) simp_all
  also have "\<dots> = of_int e + of_int e * (7/2 * ?u)" by (simp add: algebra_simps)
  also have "of_int e * (7/2 * ?u) \<le> 1"
  proof -
    have "h * p * 30000000 \<le> 4 * 20000000 * 30000000"
      using mult_mono [of h 4 p 20000000] p h by simp
    with e have "e \<le> 2400000000000000" by linarith
    then have "(of_int e :: rat) \<le> of_int 2400000000000000" by (simp only: of_int_le_iff)
    then show ?thesis by (simp add: unit_roundoff_def)
  qed
  finally show ?thesis using e' by linarith
qed

lemma ratio_stays_below:
  assumes p: "0 < p" "p < 20000000" and h: "0 < h" "h \<le> 4" and e: "e < h * p * 30000000"
  shows "ratio_of p e < of_int h / 2"
proof (cases "e \<le> 0")
  case True
  have fp: "fl (of_int p) = of_int p" using p by (intro fl_int) simp_all
  have "fl (of_int e / 1000000) \<le> 0" using True by (intro fl_nonpos) simp
  then have "fl (fl (of_int e / 1000000) / 60) \<le> 0" by (intro fl_nonpos) simp
  then have "ratio_of p e \<le> 0" using p(1) by (simp add: ratio_of_def fp fl_nonpos divide_le_0_iff)
  moreover have "(0::rat) < of_int h" using h(1) by simp
  ultimately show ?thesis by linarith
next
  case False
  then have "of_int e / (60000000 * of_int p) * (1 + unit_roundoff) ^ 3 < (of_int h :: rat) / 2"
    using roundings_below_threshold [OF p h _ e] p(1) by (simp add: field_simps)
  with ratio_of_le [OF p, of e] False show ?thesis by linarith
qed

lemma ratio_iff:
  assumes "0 < p" "p < 20000000" and "0 < h" "h \<le> 4"
  shows "ratio_of p e < of_int h / 2 \<longleftrightarrow> e < h * p * 30000000"
  using ratio_reaches [OF assms, of e] ratio_stays_below [OF assms, of e]
  by (cases "e < h * p * 30000000") (simp_all add: not_less)

lemma compute_overdue_level_eq:
  assumes "0 \<le> prep" and "prep < 20000000"
  shows "compute_overdue_level prep requested_at now = overdue_spec prep (now - requested_at)"
proof (cases "prep = 0")
  case False
  with assms have p: "0 < prep" by simp
  note r = ratio_iff [OF p assms(2), of _ "now - requested_at"]
  from r [of 2] r [of 3] r [of 4] False show ?thesis
    by (simp add: compute_overdue_level_def overdue_spec_def total_seconds_def Let_def ratio_of_def
        mult.commute)
qed (simp add: compute_overdue_level_def overdue_spec_def)

section \<open>Properties\<close>

text \<open>
  C13 (the overdue level). For every preparation time up to twenty million minutes and any two
  times, the three roundings of the float computation do not matter: the level is 0 until the
  preparation time has fully elapsed, 1 until one and a half times it, 2 until twice it and 3 from
  then on, to the microsecond; there is none for items served at once.
\<close>

theorem overdue_level_is_exact:
  assumes "0 \<le> prep" and "prep < 20000000"
  shows "compute_overdue_level prep requested_at now = overdue_spec prep (now - requested_at)"
  using assms by (rule compute_overdue_level_eq)

lemma overdue_level_is_exact_witness:
  "compute_overdue_level 20 0 (seconds 1800) = Some 2
   \<and> compute_overdue_level 20 0 (seconds 1800 - 1) = Some 1"
  using overdue_level_is_exact [of 20 0 "seconds 1800"] overdue_level_is_exact [of 20 0 "seconds 1800 - 1"]
  by (simp add: overdue_spec_def time_units numeral_2_eq_2)

end
