(* ===== verification/Models.thy ===== *)
theory Models imports Prelude begin

text \<open>
  The ten tables of \<^verbatim>\<open>qorder_api/models/\<close>, one record per ORM class with a prefix per table,
  the database as their ten row lists, the constraints of the \<^verbatim>\<open>__table_args__\<close> and column
  definitions that an \<^verbatim>\<open>INSERT\<close> checks, and the invariants the components keep.
  \<^verbatim>\<open>gen_random_uuid()\<close> and \<^verbatim>\<open>now()\<close> are arguments of the operations that use them.
\<close>

section \<open>Rows\<close>

record Restaurant =
  r_id :: uuid
  r_slug :: string
  r_name :: string
  r_phone :: "string option"
  r_address :: "string option"
  r_is_active :: bool
  r_created_at :: timestamp
  r_updated_at :: timestamp

record RestaurantSettings =
  rs_restaurant_id :: uuid
  rs_currency :: string
  rs_logo_url :: "string option"
  rs_timezone :: string
  rs_default_savory_minutes :: int
  rs_default_light_minutes :: int
  rs_session_timeout_hours :: int
  rs_kitchen_screen_requires_pin :: bool
  rs_staff_call_cooldown_seconds :: int
  rs_report_sheet_id :: "string option"
  rs_report_sync_cron :: string
  rs_bill_footer_note :: "string option"
  rs_updated_at :: timestamp

record User =
  u_id :: uuid
  u_restaurant_id :: uuid
  u_role :: UserRole
  u_email :: "string option"
  u_password_hash :: "string option"
  u_pin_hash :: "string option"
  u_display_name :: "string option"
  u_is_active :: bool
  u_created_at :: timestamp

record Table =
  t_id :: uuid
  t_restaurant_id :: uuid
  t_table_number :: string
  t_qr_token :: string
  t_qr_image_url :: "string option"
  t_is_active :: bool
  t_created_at :: timestamp

record MenuCategory =
  mc_id :: uuid
  mc_restaurant_id :: uuid
  mc_name :: string
  mc_sort_order :: int
  mc_is_active :: bool
  mc_created_at :: timestamp

record MenuItem =
  mi_id :: uuid
  mi_restaurant_id :: uuid
  mi_category_id :: "uuid option"
  mi_name :: string
  mi_description :: "string option"
  mi_price :: money
  mi_prep_time_minutes :: int
  mi_is_available :: bool
  mi_is_active :: bool
  mi_image_url :: "string option"
  mi_image_large_url :: "string option"
  mi_is_featured :: bool
  mi_sort_order :: int
  mi_created_at :: timestamp
  mi_updated_at :: timestamp

record TableSession =
  ts_id :: uuid
  ts_restaurant_id :: uuid
  ts_table_id :: uuid
  ts_status :: SessionStatus
  ts_opened_by :: "uuid option"
  ts_opened_at :: timestamp
  ts_last_activity_at :: timestamp
  ts_closed_at :: "timestamp option"
  ts_abandoned_at :: "timestamp option"
  ts_total_amount :: "money option"

record Order =
  o_id :: uuid
  o_restaurant_id :: uuid
  o_table_session_id :: uuid
  o_note :: "string option"
  o_created_at :: timestamp

record OrderItem =
  oi_id :: uuid
  oi_restaurant_id :: uuid
  oi_order_id :: uuid
  oi_menu_item_id :: uuid
  oi_name_snapshot :: string
  oi_price_snapshot :: money
  oi_prep_time_snapshot :: int
  oi_quantity :: int
  oi_note :: "string option"
  oi_status :: OrderItemStatus
  oi_requested_at :: timestamp
  oi_served_by :: "uuid option"
  oi_served_at :: "timestamp option"
  oi_cancelled_by :: "CancelledBy option"
  oi_cancelled_at :: "timestamp option"
  oi_cancel_reason :: "string option"

record StaffCall =
  sc_id :: uuid
  sc_restaurant_id :: uuid
  sc_table_id :: uuid
  sc_table_session_id :: uuid
  sc_status :: StaffCallStatus
  sc_created_at :: timestamp
  sc_acknowledged_at :: "timestamp option"
  sc_acknowledged_by :: "uuid option"

record database =
  restaurants :: "Restaurant list"
  restaurant_settings :: "RestaurantSettings list"
  users :: "User list"
  tables :: "Table list"
  menu_categories :: "MenuCategory list"
  menu_items :: "MenuItem list"
  table_sessions :: "TableSession list"
  orders :: "Order list"
  order_items :: "OrderItem list"
  staff_calls :: "StaffCall list"

definition empty_db :: database where
  "empty_db = \<lparr>restaurants = [], restaurant_settings = [], users = [], tables = [],
     menu_categories = [], menu_items = [], table_sessions = [], orders = [],
     order_items = [], staff_calls = []\<rparr>"

section \<open>Foreign keys\<close>

definition fk_restaurant :: "uuid \<Rightarrow> database \<Rightarrow> bool" where
  "fk_restaurant i d \<longleftrightarrow> i \<in> r_id ` set (restaurants d)"

definition fk_user :: "uuid option \<Rightarrow> database \<Rightarrow> bool" where
  "fk_user u d \<longleftrightarrow> (case u of None \<Rightarrow> True | Some i \<Rightarrow> i \<in> u_id ` set (users d))"

definition fk_table :: "uuid \<Rightarrow> database \<Rightarrow> bool" where
  "fk_table i d \<longleftrightarrow> i \<in> t_id ` set (tables d)"

definition fk_menu_item :: "uuid \<Rightarrow> database \<Rightarrow> bool" where
  "fk_menu_item i d \<longleftrightarrow> i \<in> mi_id ` set (menu_items d)"

definition fk_session :: "uuid \<Rightarrow> database \<Rightarrow> bool" where
  "fk_session i d \<longleftrightarrow> i \<in> ts_id ` set (table_sessions d)"

definition fk_order :: "uuid \<Rightarrow> database \<Rightarrow> bool" where
  "fk_order i d \<longleftrightarrow> i \<in> o_id ` set (orders d)"

lemmas fk_defs = fk_restaurant_def fk_user_def fk_table_def fk_menu_item_def fk_session_def
  fk_order_def

section \<open>INSERT with the constraints of the table\<close>

definition open_tables :: "database \<Rightarrow> uuid list" where
  "open_tables d = map ts_table_id (filter (\<lambda>s. ts_status s = OPEN) (table_sessions d))"

definition insert_session :: "TableSession \<Rightarrow> database \<Rightarrow> database result" where
  "insert_session s d =
     (case check
        [(ts_id s \<notin> ts_id ` set (table_sessions d), IntegrityError ''table_sessions_pkey''),
         (\<not> (ts_status s = OPEN \<and> ts_table_id s \<in> set (open_tables d)),
            IntegrityError ''uq_one_open_session_per_table''),
         (fk_restaurant (ts_restaurant_id s) d, IntegrityError ''restaurant_id_fkey''),
         (fk_table (ts_table_id s) d, IntegrityError ''table_id_fkey''),
         (fk_user (ts_opened_by s) d, IntegrityError ''opened_by_fkey'')] of
        Some x \<Rightarrow> Inl x
      | None \<Rightarrow> Inr (d\<lparr>table_sessions := table_sessions d @ [s]\<rparr>))"

definition insert_order :: "Order \<Rightarrow> database \<Rightarrow> database result" where
  "insert_order r d =
     (case check
        [(o_id r \<notin> o_id ` set (orders d), IntegrityError ''orders_pkey''),
         (fk_restaurant (o_restaurant_id r) d, IntegrityError ''restaurant_id_fkey''),
         (fk_session (o_table_session_id r) d, IntegrityError ''table_session_id_fkey'')] of
        Some x \<Rightarrow> Inl x
      | None \<Rightarrow> Inr (d\<lparr>orders := orders d @ [r]\<rparr>))"

definition insert_order_item :: "OrderItem \<Rightarrow> database \<Rightarrow> database result" where
  "insert_order_item r d =
     (case check
        [(fits_int4 (oi_quantity r), DBAPIError ''value out of int32 range''),
         (0 \<le> oi_prep_time_snapshot r, IntegrityError ''ck_order_items_prep_time_nonneg''),
         (0 < oi_quantity r, IntegrityError ''ck_order_items_quantity_positive''),
         (oi_id r \<notin> oi_id ` set (order_items d), IntegrityError ''order_items_pkey''),
         (fk_restaurant (oi_restaurant_id r) d, IntegrityError ''restaurant_id_fkey''),
         (fk_order (oi_order_id r) d, IntegrityError ''order_id_fkey''),
         (fk_menu_item (oi_menu_item_id r) d, IntegrityError ''menu_item_id_fkey'')] of
        Some x \<Rightarrow> Inl x
      | None \<Rightarrow> Inr (d\<lparr>order_items := order_items d @ [r]\<rparr>))"

fun insert_order_items :: "OrderItem list \<Rightarrow> database \<Rightarrow> database result" where
  "insert_order_items [] d = Inr d"
| "insert_order_items (r # rs) d =
     (case insert_order_item r d of Inl x \<Rightarrow> Inl x | Inr d' \<Rightarrow> insert_order_items rs d')"

definition insert_staff_call :: "StaffCall \<Rightarrow> database \<Rightarrow> database result" where
  "insert_staff_call r d =
     (case check
        [(sc_id r \<notin> sc_id ` set (staff_calls d), IntegrityError ''staff_calls_pkey''),
         (fk_restaurant (sc_restaurant_id r) d, IntegrityError ''restaurant_id_fkey''),
         (fk_table (sc_table_id r) d, IntegrityError ''table_id_fkey''),
         (fk_session (sc_table_session_id r) d, IntegrityError ''table_session_id_fkey'')] of
        Some x \<Rightarrow> Inl x
      | None \<Rightarrow> Inr (d\<lparr>staff_calls := staff_calls d @ [r]\<rparr>))"

section \<open>Invariants\<close>

text \<open>Primary keys and unique constraints: what PostgreSQL enforces.\<close>

definition keys_ok :: "database \<Rightarrow> bool" where
  "keys_ok d \<longleftrightarrow> unique_by r_id (restaurants d) \<and> unique_by rs_restaurant_id (restaurant_settings d)
     \<and> unique_by u_id (users d) \<and> unique_by t_id (tables d) \<and> unique_by t_qr_token (tables d)
     \<and> unique_by mc_id (menu_categories d) \<and> unique_by mi_id (menu_items d)
     \<and> unique_by ts_id (table_sessions d) \<and> unique_by o_id (orders d)
     \<and> unique_by oi_id (order_items d) \<and> unique_by sc_id (staff_calls d)
     \<and> unique_by r_slug (restaurants d)
     \<and> unique_by (\<lambda>t. (t_restaurant_id t, t_table_number t)) (tables d)"

definition one_open_session_per_table :: "database \<Rightarrow> bool" where
  "one_open_session_per_table d \<longleftrightarrow> distinct (open_tables d)"

text \<open>A row belongs to its parent row and to the same restaurant as its parent row.\<close>

definition table_of :: "uuid \<Rightarrow> uuid \<Rightarrow> database \<Rightarrow> bool" where
  "table_of rid tid d \<longleftrightarrow> (\<exists>t \<in> set (tables d). t_id t = tid \<and> t_restaurant_id t = rid)"

definition session_of :: "uuid \<Rightarrow> uuid \<Rightarrow> database \<Rightarrow> bool" where
  "session_of rid sid d \<longleftrightarrow> (\<exists>s \<in> set (table_sessions d). ts_id s = sid \<and> ts_restaurant_id s = rid)"

definition order_of :: "uuid \<Rightarrow> uuid \<Rightarrow> database \<Rightarrow> bool" where
  "order_of rid oid d \<longleftrightarrow> (\<exists>r \<in> set (orders d). o_id r = oid \<and> o_restaurant_id r = rid)"

definition menu_item_of :: "uuid \<Rightarrow> uuid \<Rightarrow> database \<Rightarrow> bool" where
  "menu_item_of rid mid d \<longleftrightarrow> (\<exists>m \<in> set (menu_items d). mi_id m = mid \<and> mi_restaurant_id m = rid)"

definition call_of :: "uuid \<Rightarrow> uuid \<Rightarrow> database \<Rightarrow> bool" where
  "call_of rid cid d \<longleftrightarrow> (\<exists>c \<in> set (staff_calls d). sc_id c = cid \<and> sc_restaurant_id c = rid)"

definition category_of :: "uuid \<Rightarrow> uuid \<Rightarrow> database \<Rightarrow> bool" where
  "category_of rid cid d \<longleftrightarrow> (\<exists>c \<in> set (menu_categories d). mc_id c = cid \<and> mc_restaurant_id c = rid)"

definition user_of :: "uuid \<Rightarrow> uuid \<Rightarrow> database \<Rightarrow> bool" where
  "user_of rid uid d \<longleftrightarrow> (\<exists>u \<in> set (users d). u_id u = uid \<and> u_restaurant_id u = rid)"

lemmas also_of_defs = call_of_def category_of_def user_of_def

definition tenants_ok :: "database \<Rightarrow> bool" where
  "tenants_ok d \<longleftrightarrow>
     (\<forall>s \<in> set (table_sessions d). table_of (ts_restaurant_id s) (ts_table_id s) d)
     \<and> (\<forall>r \<in> set (orders d). session_of (o_restaurant_id r) (o_table_session_id r) d)
     \<and> (\<forall>i \<in> set (order_items d). order_of (oi_restaurant_id i) (oi_order_id i) d
          \<and> menu_item_of (oi_restaurant_id i) (oi_menu_item_id i) d)
     \<and> (\<forall>c \<in> set (staff_calls d). session_of (sc_restaurant_id c) (sc_table_session_id c) d
          \<and> table_of (sc_restaurant_id c) (sc_table_id c) d)"

text \<open>Which columns of a session are set, by its status; likewise for an order item.\<close>

definition session_shape :: "TableSession \<Rightarrow> bool" where
  "session_shape s \<longleftrightarrow> (case ts_status s of
       OPEN \<Rightarrow> ts_closed_at s = None \<and> ts_abandoned_at s = None \<and> ts_total_amount s = None
     | CLOSED \<Rightarrow> ts_closed_at s \<noteq> None \<and> ts_total_amount s \<noteq> None
     | ABANDONED \<Rightarrow> ts_closed_at s = None \<and> ts_abandoned_at s \<noteq> None \<and> ts_total_amount s = None)"

definition item_shape :: "OrderItem \<Rightarrow> bool" where
  "item_shape i \<longleftrightarrow> 0 < oi_quantity i \<and> 0 \<le> oi_prep_time_snapshot i
     \<and> (oi_served_at i \<noteq> None \<longleftrightarrow> oi_status i = SERVED)
     \<and> (oi_served_by i \<noteq> None \<longrightarrow> oi_status i = SERVED)
     \<and> (oi_cancelled_at i \<noteq> None \<longleftrightarrow> oi_status i = CANCELLED)
     \<and> (oi_cancelled_by i \<noteq> None \<longleftrightarrow> oi_status i = CANCELLED)
     \<and> (oi_cancel_reason i \<noteq> None \<longrightarrow> oi_status i = CANCELLED)"

definition call_shape :: "StaffCall \<Rightarrow> bool" where
  "call_shape c \<longleftrightarrow> (sc_acknowledged_at c \<noteq> None \<longleftrightarrow> sc_status c = CALL_ACKNOWLEDGED)
     \<and> (sc_acknowledged_by c \<noteq> None \<longrightarrow> sc_status c = CALL_ACKNOWLEDGED)"

definition shapes_ok :: "database \<Rightarrow> bool" where
  "shapes_ok d \<longleftrightarrow> (\<forall>s \<in> set (table_sessions d). session_shape s)
     \<and> (\<forall>i \<in> set (order_items d). item_shape i) \<and> (\<forall>c \<in> set (staff_calls d). call_shape c)"

text \<open>The invariant of the database: every transaction of the application keeps it.\<close>

definition db_inv :: "database \<Rightarrow> bool" where
  "db_inv d \<longleftrightarrow> keys_ok d \<and> one_open_session_per_table d \<and> tenants_ok d \<and> shapes_ok d"

lemmas inv_defs = db_inv_def keys_ok_def one_open_session_per_table_def tenants_ok_def
  shapes_ok_def
lemmas of_defs = table_of_def session_of_def order_of_def menu_item_of_def

lemma db_invD:
  assumes "db_inv d"
  shows "keys_ok d" and "one_open_session_per_table d" and "tenants_ok d" and "shapes_ok d"
  using assms by (simp_all add: db_inv_def)

lemma keys_okD:
  assumes "keys_ok d"
  shows "unique_by r_id (restaurants d)" and "unique_by rs_restaurant_id (restaurant_settings d)"
    and "unique_by u_id (users d)" and "unique_by t_id (tables d)"
    and "unique_by t_qr_token (tables d)" and "unique_by mc_id (menu_categories d)"
    and "unique_by mi_id (menu_items d)" and "unique_by ts_id (table_sessions d)"
    and "unique_by o_id (orders d)" and "unique_by oi_id (order_items d)"
    and "unique_by sc_id (staff_calls d)" and "unique_by r_slug (restaurants d)"
    and "unique_by (\<lambda>t. (t_restaurant_id t, t_table_number t)) (tables d)"
  using assms by (simp_all add: keys_ok_def)

lemma db_inv_rowD:
  assumes "db_inv d"
  shows "s \<in> set (table_sessions d) \<Longrightarrow> session_shape s"
    and "i \<in> set (order_items d) \<Longrightarrow> item_shape i"
    and "c \<in> set (staff_calls d) \<Longrightarrow> call_shape c"
    and "s \<in> set (table_sessions d) \<Longrightarrow> table_of (ts_restaurant_id s) (ts_table_id s) d"
  using assms by (auto simp: db_inv_def shapes_ok_def tenants_ok_def)

lemma db_inv_empty: "db_inv empty_db"
  by (simp add: inv_defs empty_db_def open_tables_def)

lemma of_mono [intro]:
  "set (tables d) \<subseteq> set (tables d') \<Longrightarrow> table_of r i d \<Longrightarrow> table_of r i d'"
  "set (table_sessions d) \<subseteq> set (table_sessions d') \<Longrightarrow> session_of r i d \<Longrightarrow> session_of r i d'"
  "set (orders d) \<subseteq> set (orders d') \<Longrightarrow> order_of r i d \<Longrightarrow> order_of r i d'"
  "set (menu_items d) \<subseteq> set (menu_items d') \<Longrightarrow> menu_item_of r i d \<Longrightarrow> menu_item_of r i d'"
  by (auto simp: of_defs)

section \<open>How the invariant survives a write\<close>

text \<open>An update of sessions, items or calls that leaves their keys and parents alone.\<close>

definition keeps_session :: "(TableSession \<Rightarrow> TableSession) \<Rightarrow> bool" where
  "keeps_session f \<longleftrightarrow> (\<forall>s. ts_id (f s) = ts_id s \<and> ts_restaurant_id (f s) = ts_restaurant_id s
     \<and> ts_table_id (f s) = ts_table_id s)"

definition keeps_item :: "(OrderItem \<Rightarrow> OrderItem) \<Rightarrow> bool" where
  "keeps_item f \<longleftrightarrow> (\<forall>i. oi_id (f i) = oi_id i \<and> oi_restaurant_id (f i) = oi_restaurant_id i
     \<and> oi_order_id (f i) = oi_order_id i \<and> oi_menu_item_id (f i) = oi_menu_item_id i
     \<and> oi_name_snapshot (f i) = oi_name_snapshot i \<and> oi_price_snapshot (f i) = oi_price_snapshot i
     \<and> oi_prep_time_snapshot (f i) = oi_prep_time_snapshot i
     \<and> oi_quantity (f i) = oi_quantity i \<and> oi_requested_at (f i) = oi_requested_at i)"

definition keeps_call :: "(StaffCall \<Rightarrow> StaffCall) \<Rightarrow> bool" where
  "keeps_call f \<longleftrightarrow> (\<forall>c. sc_id (f c) = sc_id c \<and> sc_restaurant_id (f c) = sc_restaurant_id c
     \<and> sc_table_id (f c) = sc_table_id c \<and> sc_table_session_id (f c) = sc_table_session_id c)"

lemmas keeps_defs = keeps_session_def keeps_item_def keeps_call_def

lemma session_of_update [simp]:
  assumes "keeps_session f"
  shows "session_of r i (d\<lparr>table_sessions := sql_update P f (table_sessions d)\<rparr>) = session_of r i d"
  using assms by (auto simp: session_of_def set_sql_update keeps_defs)

lemma tenants_ok_update_sessions:
  assumes "keeps_session f" and "tenants_ok d"
  shows "tenants_ok (d\<lparr>table_sessions := sql_update P f (table_sessions d)\<rparr>)"
  using assms by (simp add: tenants_ok_def of_defs ball_sql_update bex_sql_update keeps_defs)

lemma open_tables_update_sessions:
  assumes "keeps_session f" and "\<And>s. P s \<Longrightarrow> ts_status (f s) = OPEN \<longleftrightarrow> ts_status s = OPEN"
  shows "open_tables (d\<lparr>table_sessions := sql_update P f (table_sessions d)\<rparr>) = open_tables d"
proof -
  have "map ts_table_id (filter (\<lambda>s. ts_status s = OPEN) (sql_update P f rows))
      = map ts_table_id (filter (\<lambda>s. ts_status s = OPEN) rows)" for rows
    using assms by (induction rows) (simp_all add: sql_update_def keeps_defs)
  then show ?thesis by (simp add: open_tables_def)
qed

text \<open>Closing sessions removes tables from the list of tables with an open session.\<close>

lemma distinct_open_tables_close:
  assumes "keeps_session f" and "\<And>s. P s \<Longrightarrow> ts_status (f s) \<noteq> OPEN"
    and "distinct (open_tables d)"
  shows "distinct (open_tables (d\<lparr>table_sessions := sql_update P f (table_sessions d)\<rparr>))"
proof -
  have "set (map ts_table_id (filter (\<lambda>s. ts_status s = OPEN) (sql_update P f rows)))
        \<subseteq> set (map ts_table_id (filter (\<lambda>s. ts_status s = OPEN) rows))" for rows
    using assms(1,2) by (auto simp: set_sql_update keeps_defs)
  moreover have "distinct (map ts_table_id (filter (\<lambda>s. ts_status s = OPEN) rows)) \<Longrightarrow>
      distinct (map ts_table_id (filter (\<lambda>s. ts_status s = OPEN) (sql_update P f rows)))" for rows
  proof (induction rows)
    case (Cons s rows)
    with calculation [of rows] assms(1,2) show ?case
      by (fastforce simp: sql_update_def keeps_defs split: if_splits)
  qed (simp add: sql_update_def)
  ultimately show ?thesis using assms(3) by (simp add: open_tables_def)
qed

lemma db_inv_update_sessions:
  assumes "db_inv d" and "keeps_session f"
    and "\<And>s. s \<in> set (table_sessions d) \<Longrightarrow> session_shape s \<Longrightarrow> P s \<Longrightarrow> session_shape (f s)"
    and "distinct (open_tables (d\<lparr>table_sessions := sql_update P f (table_sessions d)\<rparr>))"
  shows "db_inv (d\<lparr>table_sessions := sql_update P f (table_sessions d)\<rparr>)"
  using assms tenants_ok_update_sessions [OF assms(2), of d P]
  by (auto simp: db_inv_def keys_ok_def one_open_session_per_table_def shapes_ok_def
      ball_sql_update unique_by_sql_update keeps_defs)

lemma open_tables_frame [simp]:
  "open_tables (d\<lparr>order_items := x\<rparr>) = open_tables d"
  "open_tables (d\<lparr>staff_calls := y\<rparr>) = open_tables d"
  "open_tables (d\<lparr>orders := z\<rparr>) = open_tables d"
  by (simp_all add: open_tables_def)

lemma db_inv_update_items:
  assumes "db_inv d" and "keeps_item f"
    and "\<And>i. i \<in> set (order_items d) \<Longrightarrow> item_shape i \<Longrightarrow> P i \<Longrightarrow> item_shape (f i)"
  shows "db_inv (d\<lparr>order_items := sql_update P f (order_items d)\<rparr>)"
  using assms
  by (auto simp: db_inv_def keys_ok_def one_open_session_per_table_def shapes_ok_def tenants_ok_def
      of_defs ball_sql_update unique_by_sql_update keeps_defs)

lemma db_inv_update_calls:
  assumes "db_inv d" and "keeps_call f"
    and "\<And>c. c \<in> set (staff_calls d) \<Longrightarrow> call_shape c \<Longrightarrow> P c \<Longrightarrow> call_shape (f c)"
  shows "db_inv (d\<lparr>staff_calls := sql_update P f (staff_calls d)\<rparr>)"
  using assms
  by (auto simp: db_inv_def keys_ok_def one_open_session_per_table_def shapes_ok_def tenants_ok_def
      of_defs ball_sql_update unique_by_sql_update keeps_defs)

text \<open>Inserting a row whose parents are of its restaurant.\<close>

lemma insert_session_Inr:
  "insert_session s d = Inr d' \<longleftrightarrow> d' = d\<lparr>table_sessions := table_sessions d @ [s]\<rparr>
     \<and> ts_id s \<notin> ts_id ` set (table_sessions d)
     \<and> \<not> (ts_status s = OPEN \<and> ts_table_id s \<in> set (open_tables d))
     \<and> fk_restaurant (ts_restaurant_id s) d \<and> fk_table (ts_table_id s) d
     \<and> fk_user (ts_opened_by s) d"
  by (auto simp: insert_session_def split: if_splits)

lemma insert_order_Inr:
  "insert_order r d = Inr d' \<longleftrightarrow> d' = d\<lparr>orders := orders d @ [r]\<rparr>
     \<and> o_id r \<notin> o_id ` set (orders d) \<and> fk_restaurant (o_restaurant_id r) d
     \<and> fk_session (o_table_session_id r) d"
  by (auto simp: insert_order_def split: if_splits)

lemma insert_order_item_Inr:
  "insert_order_item r d = Inr d' \<longleftrightarrow> d' = d\<lparr>order_items := order_items d @ [r]\<rparr>
     \<and> fits_int4 (oi_quantity r) \<and> 0 \<le> oi_prep_time_snapshot r \<and> 0 < oi_quantity r
     \<and> oi_id r \<notin> oi_id ` set (order_items d) \<and> fk_restaurant (oi_restaurant_id r) d
     \<and> fk_order (oi_order_id r) d \<and> fk_menu_item (oi_menu_item_id r) d"
  by (auto simp: insert_order_item_def split: if_splits)

lemma insert_staff_call_Inr:
  "insert_staff_call r d = Inr d' \<longleftrightarrow> d' = d\<lparr>staff_calls := staff_calls d @ [r]\<rparr>
     \<and> sc_id r \<notin> sc_id ` set (staff_calls d) \<and> fk_restaurant (sc_restaurant_id r) d
     \<and> fk_table (sc_table_id r) d \<and> fk_session (sc_table_session_id r) d"
  by (auto simp: insert_staff_call_def split: if_splits)

lemmas insert_Inr = insert_session_Inr insert_order_Inr insert_order_item_Inr insert_staff_call_Inr

lemma db_inv_insert_session:
  assumes "db_inv d" and "insert_session s d = Inr d'"
    and "table_of (ts_restaurant_id s) (ts_table_id s) d" and "session_shape s"
  shows "db_inv d'"
  using assms by (auto simp: insert_Inr inv_defs of_defs open_tables_def)

lemma db_inv_insert_order:
  assumes "db_inv d" and "insert_order r d = Inr d'"
    and "session_of (o_restaurant_id r) (o_table_session_id r) d"
  shows "db_inv d'"
  using assms by (auto simp: insert_Inr inv_defs of_defs)

lemma db_inv_insert_order_item:
  assumes "db_inv d" and "insert_order_item r d = Inr d'"
    and "order_of (oi_restaurant_id r) (oi_order_id r) d"
    and "menu_item_of (oi_restaurant_id r) (oi_menu_item_id r) d" and "item_shape r"
  shows "db_inv d'"
  using assms by (auto simp: insert_Inr inv_defs of_defs)

lemma db_inv_insert_staff_call:
  assumes "db_inv d" and "insert_staff_call r d = Inr d'"
    and "session_of (sc_restaurant_id r) (sc_table_session_id r) d"
    and "table_of (sc_restaurant_id r) (sc_table_id r) d" and "call_shape r"
  shows "db_inv d'"
  using assms by (auto simp: insert_Inr inv_defs of_defs)

end
