(* ===== verification/Realtime.thy ===== *)
theory Realtime imports Models begin

text \<open>
  \<^verbatim>\<open>qorder_api/realtime/__init__.py\<close>: the channel names, the event types and the fire-and-forget
  publisher, with the run-time environment of a request. Redis is not under the sources: whether
  the \<open>k\<close>-th \<^verbatim>\<open>PUBLISH\<close> of a request goes through is the argument \<open>redis_ok e k\<close>. The text that
  \<^verbatim>\<open>json.dumps\<close> makes is kept as the value it is made from.
\<close>

section \<open>The text of a UUID\<close>

text \<open>\<^verbatim>\<open>str(uuid)\<close>: 32 hexadecimal digits in groups of 8, 4, 4, 4 and 12.\<close>

definition hex_digit :: "nat \<Rightarrow> char" where
  "hex_digit n = ''0123456789abcdef'' ! n"

fun hex_digits :: "nat \<Rightarrow> nat \<Rightarrow> string" where
  "hex_digits 0 v = []"
| "hex_digits (Suc n) v = hex_digits n (v div 16) @ [hex_digit (v mod 16)]"

definition dashed :: "string \<Rightarrow> string" where
  "dashed h = take 8 h @ ''-'' @ take 4 (drop 8 h) @ ''-'' @ take 4 (drop 12 h) @ ''-''
     @ take 4 (drop 16 h) @ ''-'' @ drop 20 h"

definition uuid_str :: "uuid \<Rightarrow> string" where
  "uuid_str u = dashed (hex_digits 32 (unat u))"

lemma length_hex_digits [simp]: "length (hex_digits n v) = n"
  by (induction n arbitrary: v) auto

lemma length_dashed: "length h = 32 \<Longrightarrow> length (dashed h) = 36"
  by (simp add: dashed_def)

lemma length_uuid_str [simp]: "length (uuid_str u) = 36"
  by (simp add: uuid_str_def length_dashed)

lemma hex_digit_inject:
  assumes "a < 16" and "b < 16" and "hex_digit a = hex_digit b"
  shows "a = b"
proof -
  have "distinct ''0123456789abcdef''" by simp
  with assms show ?thesis by (simp add: hex_digit_def nth_eq_iff_index_eq)
qed

lemma hex_digits_inject:
  "hex_digits n v = hex_digits n w \<Longrightarrow> v < 16 ^ n \<Longrightarrow> w < 16 ^ n \<Longrightarrow> v = w"
proof (induction n arbitrary: v w)
  case 0
  then show ?case by simp
next
  case (Suc n)
  from Suc.prems(1) have high: "hex_digits n (v div 16) = hex_digits n (w div 16)"
    and low: "hex_digit (v mod 16) = hex_digit (w mod 16)" by auto
  from low have "v mod 16 = w mod 16" by (intro hex_digit_inject) auto
  moreover from Suc.prems(2,3) have "v div 16 = w div 16"
    by (intro Suc.IH [OF high]) (auto simp: less_mult_imp_div_less)
  ultimately show ?case by (metis mult_div_mod_eq)
qed

lemma drop_eq_step:
  assumes "take n (drop m xs) = take n (drop m ys)" and "drop (n + m) xs = drop (n + m) ys"
  shows "drop m xs = drop m ys"
  using assms by (metis append_take_drop_id drop_drop)

lemma dashed_inject:
  assumes "length h = 32" and "length h' = 32" and "dashed h = dashed h'"
  shows "h = h'"
proof -
  from assms have eqs: "take 8 h = take 8 h'" "take 4 (drop 8 h) = take 4 (drop 8 h')"
    "take 4 (drop 12 h) = take 4 (drop 12 h')" "take 4 (drop 16 h) = take 4 (drop 16 h')"
    "drop 20 h = drop 20 h'"
    by (simp_all add: dashed_def)
  then have "drop 16 h = drop 16 h'" using drop_eq_step [of 4 16 h h'] by simp
  with eqs have "drop 12 h = drop 12 h'" using drop_eq_step [of 4 12 h h'] by simp
  with eqs have "drop 8 h = drop 8 h'" using drop_eq_step [of 4 8 h h'] by simp
  with eqs(1) show ?thesis by (metis append_take_drop_id)
qed

lemma uuid_str_inject [simp]: "uuid_str u = uuid_str v \<longleftrightarrow> u = v"
proof
  assume "uuid_str u = uuid_str v"
  then have "hex_digits 32 (unat u) = hex_digits 32 (unat v)"
    by (auto simp: uuid_str_def intro!: dashed_inject)
  moreover have "unat u < 16 ^ 32" "unat v < 16 ^ 32"
    using unsigned_less [of u] unsigned_less [of v] by simp_all
  ultimately have "unat u = unat v" by (rule hex_digits_inject)
  then show "u = v" by (simp add: word_unat_eq_iff)
qed simp

section \<open>Channels and events\<close>

definition kitchen_channel :: "uuid \<Rightarrow> string" where
  "kitchen_channel restaurant_id = ''rt:'' @ uuid_str restaurant_id @ '':kitchen''"

definition session_channel :: "uuid \<Rightarrow> uuid \<Rightarrow> string" where
  "session_channel restaurant_id session_id =
     ''rt:'' @ uuid_str restaurant_id @ '':session:'' @ uuid_str session_id"

definition ORDER_CREATED :: string where "ORDER_CREATED = ''order.created''"
definition ITEM_UPDATED :: string where "ITEM_UPDATED = ''item.updated''"
definition ITEM_CANCELLED :: string where "ITEM_CANCELLED = ''item.cancelled''"
definition STAFF_CALL_NEW :: string where "STAFF_CALL_NEW = ''staff_call.new''"
definition STAFF_CALL_ACK :: string where "STAFF_CALL_ACK = ''staff_call.ack''"
definition SESSION_CLOSED :: string where "SESSION_CLOSED = ''session.closed''"
definition SESSION_ABANDONED :: string where "SESSION_ABANDONED = ''session.abandoned''"
definition SESSION_RESTORED :: string where "SESSION_RESTORED = ''session.restored''"

section \<open>The publisher\<close>

text \<open>The values in a payload. \<open>PAmount m\<close> and \<open>PTime t\<close> are the texts of an amount and of an
  ISO time, kept as the amount and the time.\<close>

datatype payload =
    PStr string | PInt int | PAmount money | PTime timestamp | PNull
  | PList "payload list" | PDict "(string \<times> payload) list"

definition PId :: "uuid \<Rightarrow> payload" where
  "PId u = PStr (uuid_str u)"

fun POpt :: "('a \<Rightarrow> payload) \<Rightarrow> 'a option \<Rightarrow> payload" where
  "POpt f None = PNull"
| "POpt f (Some x) = f x"

record message =
  msg_channel :: string
  msg_body :: payload

text \<open>
  What a request depends on beside its input and the database: the value of \<^verbatim>\<open>now()\<close> in the
  transaction that opens a session (\<open>t_open\<close>) and in the one that does the work (\<open>t_db\<close>), the
  value of \<^verbatim>\<open>datetime.now()\<close> (\<open>t_py\<close>), the UUIDs the database generates, the values of
  \<^verbatim>\<open>time.time_ns()\<close>, the fate of its publications, and \<open>others k\<close>, what the other connections
  commit at its \<open>k\<close>-th gap between two statements (see \<^verbatim>\<open>Sessions\<close> and \<^verbatim>\<open>Customer\<close>).
\<close>

record env =
  t_open :: timestamp
  t_db :: timestamp
  t_py :: timestamp
  gen :: "nat \<Rightarrow> uuid"
  seq_ns :: "nat \<Rightarrow> int"
  redis_ok :: "nat \<Rightarrow> bool"
  others :: "nat \<Rightarrow> database \<Rightarrow> database"

record world =
  db :: database
  bus :: "message list"

definition publish :: "env \<Rightarrow> nat \<Rightarrow> string \<Rightarrow> string \<Rightarrow> (string \<times> payload) list \<Rightarrow> message list
    \<Rightarrow> message list" where
  "publish e k channel event_type payload ms =
     (let body = PDict ([(''type'', PStr event_type), (''seq'', PInt (seq_ns e k))] @ payload)
      in if redis_ok e k then ms @ [\<lparr>msg_channel = channel, msg_body = body\<rparr>] else ms)"

text \<open>Every service publishes twice: to the kitchen, then to the customer's session.\<close>

definition publish_both :: "env \<Rightarrow> uuid \<Rightarrow> uuid \<Rightarrow> string \<Rightarrow> (string \<times> payload) list \<Rightarrow> world
    \<Rightarrow> world" where
  "publish_both e restaurant_id session_id event_type payload w =
     w\<lparr>bus := publish e 1 (session_channel restaurant_id session_id) event_type payload
              (publish e 0 (kitchen_channel restaurant_id) event_type payload (bus w))\<rparr>"

lemma publish_both_db [simp]: "db (publish_both e r s ty pl w) = db w"
  by (simp add: publish_both_def)

lemma publish_extends: "\<exists>ms'. publish e k ch ty pl ms = ms @ ms'"
  by (simp add: publish_def Let_def)

section \<open>Properties\<close>

text \<open>
  Channel isolation: The name of a channel determines the restaurant, the kind of the
  channel and the session: two kitchens share a channel only if they are of the same restaurant,
  two customer sessions only if restaurant and session agree, and no kitchen channel is a
  session channel. A subscriber of one restaurant's channel therefore sees no message published
  for another.
\<close>

theorem channels_isolated:
  "(kitchen_channel r = kitchen_channel r' \<longleftrightarrow> r = r')
   \<and> (session_channel r s = session_channel r' s' \<longleftrightarrow> r = r' \<and> s = s')
   \<and> kitchen_channel r \<noteq> session_channel r' s'"
proof -
  have "length (kitchen_channel r) \<noteq> length (session_channel r' s')"
    by (simp add: kitchen_channel_def session_channel_def)
  then show ?thesis by (auto simp: kitchen_channel_def session_channel_def)
qed

end
