(* ===== verification/Demo.thy ===== *)
theory Demo imports Realtime begin

text \<open>
  A small concrete database that satisfies the invariant, and a request environment without
  interference. The witnesses of the properties evaluate the operations here: an open session
  (50) on table 20 with a served item (70), a cooking one (71) and a pending staff call (80), an
  abandoned session (51) on table 21 with a served item (72), a second restaurant (2).
\<close>

definition demo_restaurant :: "uuid \<Rightarrow> string \<Rightarrow> Restaurant" where
  "demo_restaurant i slug = \<lparr>r_id = i, r_slug = slug, r_name = slug, r_phone = None,
     r_address = None, r_is_active = True, r_created_at = 0, r_updated_at = 0\<rparr>"

definition demo_settings :: "uuid \<Rightarrow> RestaurantSettings" where
  "demo_settings i = \<lparr>rs_restaurant_id = i, rs_currency = ''VND'', rs_logo_url = None,
     rs_timezone = ''Asia/Ho_Chi_Minh'', rs_default_savory_minutes = 20,
     rs_default_light_minutes = 10, rs_session_timeout_hours = 6,
     rs_kitchen_screen_requires_pin = True, rs_staff_call_cooldown_seconds = 60,
     rs_report_sheet_id = None, rs_report_sync_cron = ''0 23 * * *'',
     rs_bill_footer_note = None, rs_updated_at = 0\<rparr>"

definition demo_user :: "uuid \<Rightarrow> uuid \<Rightarrow> UserRole \<Rightarrow> User" where
  "demo_user i r role = \<lparr>u_id = i, u_restaurant_id = r, u_role = role,
     u_email = (if role = ADMIN then Some ''admin@demo'' else None),
     u_password_hash = (if role = ADMIN then Some ''hash:pw'' else None),
     u_pin_hash = (if role = STAFF then Some ''hash:1234'' else None),
     u_display_name = None, u_is_active = True, u_created_at = 0\<rparr>"

definition demo_table :: "uuid \<Rightarrow> uuid \<Rightarrow> string \<Rightarrow> string \<Rightarrow> bool \<Rightarrow> Table" where
  "demo_table i r number qr act = \<lparr>t_id = i, t_restaurant_id = r, t_table_number = number,
     t_qr_token = qr, t_qr_image_url = None, t_is_active = act, t_created_at = 0\<rparr>"

definition demo_menu_item :: "uuid \<Rightarrow> uuid \<Rightarrow> string \<Rightarrow> money \<Rightarrow> bool \<Rightarrow> MenuItem" where
  "demo_menu_item i r name price available = \<lparr>mi_id = i, mi_restaurant_id = r,
     mi_category_id = Some 30, mi_name = name, mi_description = None, mi_price = price,
     mi_prep_time_minutes = 15, mi_is_available = available, mi_is_active = True,
     mi_image_url = None, mi_image_large_url = None, mi_is_featured = False, mi_sort_order = 0,
     mi_created_at = 0, mi_updated_at = 0\<rparr>"

definition demo_session :: "uuid \<Rightarrow> uuid \<Rightarrow> SessionStatus \<Rightarrow> timestamp option \<Rightarrow> TableSession" where
  "demo_session i t st abandoned = \<lparr>ts_id = i, ts_restaurant_id = 1, ts_table_id = t,
     ts_status = st, ts_opened_by = None, ts_opened_at = 0, ts_last_activity_at = 0,
     ts_closed_at = None, ts_abandoned_at = abandoned, ts_total_amount = None\<rparr>"

definition demo_order :: "uuid \<Rightarrow> uuid \<Rightarrow> Order" where
  "demo_order i s = \<lparr>o_id = i, o_restaurant_id = 1, o_table_session_id = s, o_note = None,
     o_created_at = 0\<rparr>"

definition demo_item :: "uuid \<Rightarrow> uuid \<Rightarrow> int \<Rightarrow> OrderItemStatus \<Rightarrow> OrderItem" where
  "demo_item i ord quantity st = \<lparr>oi_id = i, oi_restaurant_id = 1, oi_order_id = ord,
     oi_menu_item_id = 40, oi_name_snapshot = ''Pho bo'', oi_price_snapshot = 4500000,
     oi_prep_time_snapshot = 15, oi_quantity = quantity, oi_note = None, oi_status = st,
     oi_requested_at = 0, oi_served_by = (if st = SERVED then Some 10 else None),
     oi_served_at = (if st = SERVED then Some (seconds 900) else None), oi_cancelled_by = None,
     oi_cancelled_at = None, oi_cancel_reason = None\<rparr>"

definition demo_call :: "uuid \<Rightarrow> timestamp \<Rightarrow> StaffCall" where
  "demo_call i created = \<lparr>sc_id = i, sc_restaurant_id = 1, sc_table_id = 20,
     sc_table_session_id = 50, sc_status = CALL_PENDING, sc_created_at = created,
     sc_acknowledged_at = None, sc_acknowledged_by = None\<rparr>"

definition demo :: database where
  "demo = \<lparr>restaurants = [demo_restaurant 1 ''pho'', demo_restaurant 2 ''bun''],
     restaurant_settings = [demo_settings 1, demo_settings 2],
     users = [demo_user 10 1 STAFF, demo_user 11 1 ADMIN, demo_user 12 2 STAFF],
     tables = [demo_table 20 1 ''B01'' ''qr-20'' True, demo_table 21 1 ''B02'' ''qr-21'' True,
               demo_table 22 2 ''B01'' ''qr-22'' True, demo_table 23 1 ''B03'' ''qr-23'' False],
     menu_categories = [\<lparr>mc_id = 30, mc_restaurant_id = 1, mc_name = ''Noodles'',
                         mc_sort_order = 0, mc_is_active = True, mc_created_at = 0\<rparr>],
     menu_items = [demo_menu_item 40 1 ''Pho bo'' 4500000 True,
                   demo_menu_item 41 1 ''Nem'' 2000000 False],
     table_sessions = [demo_session 50 20 OPEN None, demo_session 51 21 ABANDONED (Some (hours 3))],
     orders = [demo_order 60 50, demo_order 61 51],
     order_items = [demo_item 70 60 2 SERVED, demo_item 71 60 1 COOKING, demo_item 72 61 3 SERVED],
     staff_calls = [demo_call 80 (seconds 600)]\<rparr>"

lemmas demo_rows = demo_restaurant_def demo_settings_def demo_user_def demo_table_def
  demo_menu_item_def demo_session_def demo_order_def demo_item_def demo_call_def

lemma demo_keys: "keys_ok demo"
  by (simp add: keys_ok_def demo_def demo_rows)

lemma demo_open_tables [simp]: "open_tables demo = [20]"
  by (simp add: open_tables_def demo_def demo_rows)

lemma demo_tenants: "tenants_ok demo"
  by (simp add: tenants_ok_def of_defs demo_def demo_rows)

lemma demo_shapes: "shapes_ok demo"
  by (simp add: shapes_ok_def session_shape_def item_shape_def call_shape_def demo_def demo_rows)

lemma demo_inv [simp]: "db_inv demo"
  by (simp add: db_inv_def one_open_session_per_table_def demo_keys demo_tenants demo_shapes)

lemma demo_facts [simp]:
  "fk_restaurant 1 demo" "fk_table 20 demo" "fk_table 21 demo" "fk_user None demo"
  "fk_user (Some 10) demo" "table_of 1 20 demo" "table_of 1 21 demo"
  "ts_id ` set (table_sessions demo) = {50, 51}"
  by (auto simp: fk_defs table_of_def demo_def demo_rows)

definition demo_env :: env where
  "demo_env = \<lparr>t_open = hours 4, t_db = hours 4, t_py = hours 4, gen = (\<lambda>k. of_nat (100 + k)),
     seq_ns = int, redis_ok = (\<lambda>_. True), others = (\<lambda>_ d. d)\<rparr>"

lemma demo_env_sel [simp]:
  "t_open demo_env = hours 4" "t_db demo_env = hours 4" "t_py demo_env = hours 4"
  "gen demo_env k = of_nat (100 + k)" "redis_ok demo_env k" "others demo_env k d = d"
  by (simp_all add: demo_env_def)

end
