(* ===== verification/StaffCalls.thy ===== *)
theory StaffCalls imports Demo begin

text \<open>
  \<^verbatim>\<open>qorder_api/services/staff_call_service.py\<close>: calling a member of staff with a cooldown per
  table, acknowledging a call, and dismissing the pending calls of a session. \<open>create_call\<close> and
  \<open>ack\<close> read first and write later, so another connection can commit in between (\<open>others e 3\<close>).
\<close>

section \<open>The operations\<close>

definition DEFAULT_COOLDOWN_SECONDS :: int where
  "DEFAULT_COOLDOWN_SECONDS = 60"

definition get_cooldown :: "uuid \<Rightarrow> database \<Rightarrow> int result" where
  "get_cooldown restaurant_id d =
     (case scalar_one_or_none (map rs_staff_call_cooldown_seconds
             (filter (\<lambda>s. rs_restaurant_id s = restaurant_id) (restaurant_settings d))) of
        Inl x \<Rightarrow> Inl x
      | Inr None \<Rightarrow> Inr DEFAULT_COOLDOWN_SECONDS
      | Inr (Some v) \<Rightarrow> Inr v)"

definition recent_call :: "uuid \<Rightarrow> int \<Rightarrow> timestamp \<Rightarrow> database \<Rightarrow> bool" where
  "recent_call table_id cooldown now d \<longleftrightarrow>
     first_row (filter (\<lambda>c. sc_table_id c = table_id \<and> now - seconds cooldown < sc_created_at c)
                 (staff_calls d)) \<noteq> None"

definition touch_session :: "uuid \<Rightarrow> timestamp \<Rightarrow> database \<Rightarrow> database" where
  "touch_session session_id now d =
     d\<lparr>table_sessions := sql_update (\<lambda>s. ts_id s = session_id)
         (\<lambda>s. s\<lparr>ts_last_activity_at := now\<rparr>) (table_sessions d)\<rparr>"

definition new_call_payload :: "StaffCall \<Rightarrow> (string \<times> payload) list" where
  "new_call_payload c =
     [(''call'', PDict
        [(''id'', PId (sc_id c)), (''table_id'', PId (sc_table_id c)),
         (''table_session_id'', PId (sc_table_session_id c)),
         (''status'', PStr (call_status_value (sc_status c))),
         (''created_at'', PTime (sc_created_at c))])]"

definition create_call :: "env \<Rightarrow> uuid \<Rightarrow> uuid \<Rightarrow> uuid \<Rightarrow> world \<Rightarrow> StaffCall option result \<times> world" where
  "create_call e table_id table_session_id restaurant_id w =
     (case get_cooldown restaurant_id (db w) of
        Inl x \<Rightarrow> (Inl x, w)
      | Inr cooldown \<Rightarrow>
          if recent_call table_id cooldown (t_db e) (db w) then (Inr None, w)
          else
            (let call = \<lparr>sc_id = gen e 1, sc_restaurant_id = restaurant_id,
                   sc_table_id = table_id, sc_table_session_id = table_session_id,
                   sc_status = CALL_PENDING, sc_created_at = t_db e,
                   sc_acknowledged_at = None, sc_acknowledged_by = None\<rparr>;
                 d1 = others e 3 (db w)
             in case insert_staff_call call (touch_session table_session_id (t_db e) d1) of
                  Inl x \<Rightarrow> (Inl x, w\<lparr>db := d1\<rparr>)
                | Inr d2 \<Rightarrow> (Inr (Some call),
                    publish_both e restaurant_id table_session_id STAFF_CALL_NEW
                      (new_call_payload call) (w\<lparr>db := d2\<rparr>))))"

definition ack_set :: "uuid \<Rightarrow> timestamp \<Rightarrow> StaffCall \<Rightarrow> StaffCall" where
  "ack_set actor now c =
     c\<lparr>sc_status := CALL_ACKNOWLEDGED, sc_acknowledged_at := Some now,
       sc_acknowledged_by := Some actor\<rparr>"

definition ack_payload :: "StaffCall \<Rightarrow> (string \<times> payload) list" where
  "ack_payload c =
     [(''call'', PDict
        [(''id'', PId (sc_id c)), (''table_id'', PId (sc_table_id c)),
         (''table_session_id'', PId (sc_table_session_id c)),
         (''status'', PStr (call_status_value (sc_status c))),
         (''acknowledged_at'', POpt PTime (sc_acknowledged_at c)),
         (''acknowledged_by'', POpt PId (sc_acknowledged_by c))])]"

definition ack :: "env \<Rightarrow> uuid \<Rightarrow> uuid \<Rightarrow> uuid \<Rightarrow> world \<Rightarrow> StaffCall result \<times> world" where
  "ack e call_id actor_user_id restaurant_id w =
     (case scalar_one_or_none
             (filter (\<lambda>c. sc_id c = call_id \<and> sc_restaurant_id c = restaurant_id)
               (staff_calls (db w))) of
        Inl x \<Rightarrow> (Inl x, w)
      | Inr None \<Rightarrow> (Inl (ValueError CallMissing), w)
      | Inr (Some call) \<Rightarrow>
          if sc_status call = CALL_ACKNOWLEDGED then (Inr call, w)
          else
            (let d1 = others e 3 (db w)
             in if \<not> fk_user (Some actor_user_id) d1
                then (Inl (IntegrityError ''acknowledged_by_fkey''), w\<lparr>db := d1\<rparr>)
                else (Inr (ack_set actor_user_id (t_py e) call),
                  publish_both e restaurant_id (sc_table_session_id call) STAFF_CALL_ACK
                    (ack_payload (ack_set actor_user_id (t_py e) call))
                    (w\<lparr>db := d1\<lparr>staff_calls := sql_update (\<lambda>c. sc_id c = call_id)
                        (ack_set actor_user_id (t_py e)) (staff_calls d1)\<rparr>\<rparr>))))"

definition dismiss_where :: "uuid \<Rightarrow> uuid \<Rightarrow> StaffCall \<Rightarrow> bool" where
  "dismiss_where session_id restaurant_id c \<longleftrightarrow> sc_table_session_id c = session_id
     \<and> sc_restaurant_id c = restaurant_id \<and> sc_status c = CALL_PENDING"

definition dismiss_pending :: "uuid \<Rightarrow> uuid \<Rightarrow> timestamp \<Rightarrow> database \<Rightarrow> nat \<times> database" where
  "dismiss_pending session_id restaurant_id now d =
     (length (filter (dismiss_where session_id restaurant_id) (staff_calls d)),
      d\<lparr>staff_calls := sql_update (dismiss_where session_id restaurant_id)
          (\<lambda>c. c\<lparr>sc_status := CALL_ACKNOWLEDGED, sc_acknowledged_at := Some now\<rparr>)
          (staff_calls d)\<rparr>)"

section \<open>The invariant of the database\<close>

lemma db_inv_touch:
  assumes "db_inv d"
  shows "db_inv (touch_session sid now d)"
  unfolding touch_session_def
proof (rule db_inv_update_sessions [OF assms])
  show k: "keeps_session (\<lambda>s. s\<lparr>ts_last_activity_at := now\<rparr>)" by (simp add: keeps_defs)
  show "session_shape (s\<lparr>ts_last_activity_at := now\<rparr>)" if "session_shape s" for s
    using that by (simp add: session_shape_def split: SessionStatus.splits)
  show "distinct (open_tables (d\<lparr>table_sessions := sql_update (\<lambda>s. ts_id s = sid)
      (\<lambda>s. s\<lparr>ts_last_activity_at := now\<rparr>) (table_sessions d)\<rparr>))"
    using db_invD(2) [OF assms]
    by (simp add: one_open_session_per_table_def open_tables_update_sessions k)
qed

lemma touch_session_of [simp]:
  "session_of r i (touch_session sid now d) = session_of r i d"
  "table_of r i (touch_session sid now d) = table_of r i d"
  by (simp_all add: touch_session_def keeps_defs) (simp add: table_of_def)

lemma touch_session_tables [frame]:
  "staff_calls (touch_session sid now d) = staff_calls d"
  "order_items (touch_session sid now d) = order_items d"
  "orders (touch_session sid now d) = orders d"
  by (simp_all add: touch_session_def)

lemma db_inv_dismiss_pending:
  assumes "db_inv d"
  shows "db_inv (snd (dismiss_pending sid rid now d))"
  unfolding dismiss_pending_def snd_conv
proof (rule db_inv_update_calls [OF assms])
  show "keeps_call (\<lambda>c. c\<lparr>sc_status := CALL_ACKNOWLEDGED, sc_acknowledged_at := Some now\<rparr>)"
    by (simp add: keeps_defs)
  show "call_shape (c\<lparr>sc_status := CALL_ACKNOWLEDGED, sc_acknowledged_at := Some now\<rparr>)"
    for c by (simp add: call_shape_def)
qed

lemma dismiss_pending_none_left:
  "c \<in> set (staff_calls (snd (dismiss_pending sid rid now d))) \<Longrightarrow> \<not> dismiss_where sid rid c"
proof -
  have "\<forall>c \<in> set (staff_calls (snd (dismiss_pending sid rid now d))). \<not> dismiss_where sid rid c"
    by (simp add: dismiss_pending_def ball_sql_update dismiss_where_def)
  then show "c \<in> set (staff_calls (snd (dismiss_pending sid rid now d))) \<Longrightarrow> \<not> dismiss_where sid rid c"
    by blast
qed

lemma dismiss_pending_frame [frame]:
  "order_items (snd (dismiss_pending sid rid now d)) = order_items d"
  "table_sessions (snd (dismiss_pending sid rid now d)) = table_sessions d"
  "orders (snd (dismiss_pending sid rid now d)) = orders d"
  by (simp_all add: dismiss_pending_def)

lemma db_inv_create_call:
  assumes inv: "db_inv (db w)" and oth: "\<And>d. db_inv d \<Longrightarrow> db_inv (others e 3 d)"
    and parents: "session_of rid sid (others e 3 (db w))" "table_of rid tid (others e 3 (db w))"
  shows "db_inv (db (snd (create_call e tid sid rid w)))"
proof -
  let ?d = "touch_session sid (t_db e) (others e 3 (db w))"
  have "db_inv ?d" by (intro db_inv_touch oth inv)
  then have "db_inv d'" if "insert_staff_call c ?d = Inr d'" "sc_restaurant_id c = rid"
    "sc_table_id c = tid" "sc_table_session_id c = sid" "call_shape c" for c d'
    using that parents by (auto intro: db_inv_insert_staff_call)
  with inv oth [OF inv] show ?thesis
    by (auto simp: create_call_def Let_def call_shape_def split: sum.splits)
qed

lemma db_inv_ack:
  assumes inv: "db_inv (db w)" and oth: "\<And>d. db_inv d \<Longrightarrow> db_inv (others e 3 d)"
  shows "db_inv (db (snd (ack e call_id actor rid w)))"
proof -
  have "db_inv (d\<lparr>staff_calls := sql_update P (ack_set actor now) (staff_calls d)\<rparr>)"
    if "db_inv d" for d P now
    by (rule db_inv_update_calls [OF that]) (auto simp: keeps_defs ack_set_def call_shape_def)
  with inv oth [OF inv] show ?thesis
    by (auto simp: ack_def Let_def split: sum.splits option.splits)
qed

lemma touch_session_fk [simp]:
  "fk_restaurant r (touch_session sid now d) = fk_restaurant r d"
  "fk_table t (touch_session sid now d) = fk_table t d"
  "fk_session s (touch_session sid now d) = fk_session s d"
  by (simp_all add: fk_defs touch_session_def key_image_sql_update)

section \<open>The cooldown\<close>

text \<open>Any two calls of a table are at least the cooldown apart.\<close>

definition spaced :: "uuid \<Rightarrow> int \<Rightarrow> database \<Rightarrow> bool" where
  "spaced table_id cooldown d \<longleftrightarrow>
     (let ts = map sc_created_at (filter (\<lambda>c. sc_table_id c = table_id) (staff_calls d))
      in \<forall>i < length ts. \<forall>j < i. ts ! j + seconds cooldown \<le> ts ! i)"

lemma get_cooldown_eq:
  assumes "unique_by rs_restaurant_id (restaurant_settings d)" and "s \<in> set (restaurant_settings d)"
  shows "get_cooldown (rs_restaurant_id s) d = Inr (rs_staff_call_cooldown_seconds s)"
  using filter_unique [OF assms, of "\<lambda>_. True"] by (simp add: get_cooldown_def)

lemma recent_call_iff:
  "recent_call tid cooldown now d \<longleftrightarrow>
     (\<exists>c \<in> set (staff_calls d). sc_table_id c = tid \<and> now - seconds cooldown < sc_created_at c)"
  by (simp add: recent_call_def filter_empty_conv)

lemma spaced_append:
  assumes "spaced tid cooldown d" and "\<not> recent_call tid cooldown (sc_created_at c) d"
    and "staff_calls d' = staff_calls d @ [c]"
  shows "spaced tid cooldown d'"
proof (cases "sc_table_id c = tid")
  case False
  with assms show ?thesis by (simp add: spaced_def)
next
  case True
  let ?ts = "map sc_created_at (filter (\<lambda>c. sc_table_id c = tid) (staff_calls d))"
  have "t + seconds cooldown \<le> sc_created_at c" if "t \<in> set ?ts" for t
    using that assms(2) by (fastforce simp: recent_call_iff)
  then have "?ts ! j + seconds cooldown \<le> sc_created_at c" if "j < length ?ts" for j
    using that nth_mem [OF that] by blast
  with assms True show ?thesis by (auto simp: spaced_def Let_def nth_append less_Suc_eq)
qed

section \<open>Properties\<close>

text \<open>What \<^verbatim>\<open>create_call\<close> does on a session and table of the restaurant.\<close>

lemma create_call_eq:
  assumes inv: "db_inv (db w)" and st: "st \<in> set (restaurant_settings (db w))"
    "rs_restaurant_id st = rid"
    and fk: "fk_restaurant rid (others e 3 (db w))" "fk_table tid (others e 3 (db w))"
      "fk_session sid (others e 3 (db w))"
    and fresh: "gen e 1 \<notin> sc_id ` set (staff_calls (others e 3 (db w)))"
  shows "create_call e tid sid rid w =
    (if recent_call tid (rs_staff_call_cooldown_seconds st) (t_db e) (db w) then (Inr None, w)
     else let c = \<lparr>sc_id = gen e 1, sc_restaurant_id = rid, sc_table_id = tid,
                sc_table_session_id = sid, sc_status = CALL_PENDING, sc_created_at = t_db e,
                sc_acknowledged_at = None, sc_acknowledged_by = None\<rparr>;
              d = touch_session sid (t_db e) (others e 3 (db w))
          in (Inr (Some c), publish_both e rid sid STAFF_CALL_NEW (new_call_payload c)
                (w\<lparr>db := d\<lparr>staff_calls := staff_calls d @ [c]\<rparr>\<rparr>)))"
proof -
  have "get_cooldown rid (db w) = Inr (rs_staff_call_cooldown_seconds st)"
    using get_cooldown_eq [OF keys_okD(2) [OF db_invD(1) [OF inv]] st(1)] st(2) by simp
  moreover have "insert_staff_call c (touch_session sid (t_db e) (others e 3 (db w)))
      = Inr ((touch_session sid (t_db e) (others e 3 (db w)))\<lparr>staff_calls :=
          staff_calls (others e 3 (db w)) @ [c]\<rparr>)"
    if "sc_id c = gen e 1" "sc_restaurant_id c = rid" "sc_table_id c = tid"
      "sc_table_session_id c = sid" for c
    using that fk fresh
    by (simp add: insert_Inr frame)
  ultimately show ?thesis by (simp add: create_call_def Let_def frame)
qed

text \<open>
  C12 (the cooldown). With no other connection between its check and its insertion, \<^verbatim>\<open>create_call\<close>
  keeps any two calls of a table at least the cooldown apart: it skips the request exactly when
  a call of this very table, in whatever status, is younger than the cooldown, in which case nothing is
  written or published, and otherwise, whatever calls other tables have, it adds one pending call at the time of
  the transaction and publishes it to the kitchen and to the session.
\<close>

theorem create_call_keeps_cooldown:
  assumes "db_inv (db w)" and "st \<in> set (restaurant_settings (db w))" "rs_restaurant_id st = rid"
    and "fk_restaurant rid (db w)" "fk_table tid (db w)" "fk_session sid (db w)"
    and "gen e 1 \<notin> sc_id ` set (staff_calls (db w))" and "others e 3 = (\<lambda>d. d)"
    and "spaced tid (rs_staff_call_cooldown_seconds st) (db w)"
    and "create_call e tid sid rid w = (r, w')"
  shows "spaced tid (rs_staff_call_cooldown_seconds st) (db w')
    \<and> (if \<exists>c \<in> set (staff_calls (db w)). sc_table_id c = tid
            \<and> t_db e - seconds (rs_staff_call_cooldown_seconds st) < sc_created_at c
       then r = Inr None \<and> w' = w
       else \<exists>c. r = Inr (Some c) \<and> sc_status c = CALL_PENDING \<and> sc_table_id c = tid
              \<and> sc_table_session_id c = sid \<and> sc_created_at c = t_db e
              \<and> staff_calls (db w') = staff_calls (db w) @ [c]
              \<and> bus w' = publish e 1 (session_channel rid sid) STAFF_CALL_NEW (new_call_payload c)
                   (publish e 0 (kitchen_channel rid) STAFF_CALL_NEW (new_call_payload c) (bus w)))"
proof -
  have eq: "create_call e tid sid rid w =
    (if recent_call tid (rs_staff_call_cooldown_seconds st) (t_db e) (db w) then (Inr None, w)
     else let c = \<lparr>sc_id = gen e 1, sc_restaurant_id = rid, sc_table_id = tid,
                sc_table_session_id = sid, sc_status = CALL_PENDING, sc_created_at = t_db e,
                sc_acknowledged_at = None, sc_acknowledged_by = None\<rparr>;
              d = touch_session sid (t_db e) (db w)
          in (Inr (Some c), publish_both e rid sid STAFF_CALL_NEW (new_call_payload c)
                (w\<lparr>db := d\<lparr>staff_calls := staff_calls d @ [c]\<rparr>\<rparr>)))"
    using create_call_eq [of w st rid e tid sid] assms by simp
  show ?thesis
  proof (cases "recent_call tid (rs_staff_call_cooldown_seconds st) (t_db e) (db w)")
    case True
    with eq assms(9,10) show ?thesis by (simp add: recent_call_iff)
  next
    case False
    then have "spaced tid (rs_staff_call_cooldown_seconds st) d'"
      if "staff_calls d' = staff_calls (db w) @ [c]" "sc_created_at c = t_db e" for d' c
      using that by (intro spaced_append [OF assms(9)]) simp_all
    with False eq assms(10) show ?thesis
      unfolding recent_call_iff [symmetric] by (auto simp: Let_def frame publish_both_def)
  qed
qed

lemma create_call_keeps_cooldown_witness:
  "\<exists>c w'. create_call demo_env 20 50 1 \<lparr>db = demo, bus = []\<rparr> = (Inr (Some c), w')
     \<and> spaced 20 60 (db w') \<and> length (bus w') = 2"
proof -
  have "spaced 20 60 demo" by (simp add: spaced_def demo_def demo_rows)
  moreover have "\<not> recent_call 20 60 (hours 4) demo"
    by (simp add: recent_call_iff demo_def demo_rows time_units)
  moreover have "demo_settings 1 \<in> set (restaurant_settings demo)" "rs_restaurant_id (demo_settings 1) = 1"
    "rs_staff_call_cooldown_seconds (demo_settings 1) = 60" "fk_session 50 demo"
    "101 \<notin> sc_id ` set (staff_calls demo)" "others demo_env 3 = (\<lambda>d. d)"
    by (simp_all add: fun_eq_iff fk_defs) (simp_all add: demo_def demo_rows)
  ultimately show ?thesis
    using create_call_keeps_cooldown [of "\<lparr>db = demo, bus = []\<rparr>" "demo_settings 1" 1 20 50 demo_env]
    unfolding recent_call_iff [symmetric]
    by (cases "create_call demo_env 20 50 1 \<lparr>db = demo, bus = []\<rparr>") (force simp: publish_def)
qed

text \<open>
  The cooldown is a check before an insertion: Two requests of the same table whose checks
  both run before either insertion both create a call, at the same time: the calls of the table
  are then not the cooldown apart.
\<close>

theorem cooldown_race:
  "\<exists>c1 c2 w'. create_call (demo_env\<lparr>others := (\<lambda>k d. db (snd (create_call
        (demo_env\<lparr>gen := (\<lambda>k. of_nat (200 + k))\<rparr>) 20 50 1 \<lparr>db = d, bus = []\<rparr>)))\<rparr>) 20 50 1
        \<lparr>db = demo, bus = []\<rparr> = (Inr (Some c2), w')
     \<and> c1 \<in> set (staff_calls (db w')) \<and> c2 \<in> set (staff_calls (db w')) \<and> sc_id c1 \<noteq> sc_id c2
     \<and> sc_created_at c1 = sc_created_at c2 \<and> \<not> spaced 20 60 (db w')"
proof -
  let ?e1 = "demo_env\<lparr>gen := (\<lambda>k. of_nat (200 + k))\<rparr>"
  let ?c1 = "(demo_call 201 (hours 4))" and ?c2 = "(demo_call 101 (hours 4))"
  let ?d1 = "(touch_session 50 (hours 4) demo)\<lparr>staff_calls := staff_calls demo @ [?c1]\<rparr>"
  define e2 where "e2 = demo_env\<lparr>others := (\<lambda>k d. db (snd (create_call ?e1 20 50 1 \<lparr>db = d, bus = []\<rparr>)))\<rparr>"
  have st: "demo_settings 1 \<in> set (restaurant_settings demo)" "rs_restaurant_id (demo_settings 1) = 1"
    "rs_staff_call_cooldown_seconds (demo_settings 1) = 60" "fk_session 50 demo"
    "sc_id ` set (staff_calls demo) = {80}" "\<not> recent_call 20 60 (hours 4) demo"
    by (simp_all add: fk_defs recent_call_iff) (simp_all add: demo_def demo_rows time_units)
  have "create_call ?e1 20 50 1 \<lparr>db = demo, bus = []\<rparr> = (Inr (Some ?c1),
      publish_both ?e1 1 50 STAFF_CALL_NEW (new_call_payload ?c1) \<lparr>db = ?d1, bus = []\<rparr>)"
    using create_call_eq [of "\<lparr>db = demo, bus = []\<rparr>" "demo_settings 1" 1 ?e1 20 50] st
    by (simp add: frame Let_def demo_call_def)
  then have e2: "others e2 3 demo = ?d1" "t_db e2 = hours 4" "gen e2 (Suc 0) = 101"
    by (simp_all add: e2_def)
  have fk: "fk_restaurant 1 ?d1" "fk_table 20 ?d1" "fk_session 50 ?d1"
    "101 \<notin> sc_id ` set (staff_calls ?d1)"
    using demo_facts(1,2) st(4,5) touch_session_fk [of _ 50 "hours 4" demo]
    by (simp_all add: fk_defs demo_call_def)
  have "create_call e2 20 50 1 \<lparr>db = demo, bus = []\<rparr> = (Inr (Some ?c2),
      publish_both e2 1 50 STAFF_CALL_NEW (new_call_payload ?c2)
        \<lparr>db = (touch_session 50 (hours 4) ?d1)\<lparr>staff_calls := staff_calls demo @ [?c1, ?c2]\<rparr>, bus = []\<rparr>)"
    using create_call_eq [of "\<lparr>db = demo, bus = []\<rparr>" "demo_settings 1" 1 e2 20 50] st fk
    by (simp add: e2 frame Let_def demo_call_def)
  moreover have "\<not> spaced 20 60 (d\<lparr>staff_calls := staff_calls demo @ [?c1, ?c2]\<rparr>)" for d :: database
    by (simp add: spaced_def demo_def demo_call_def time_units less_Suc_eq)
  ultimately show ?thesis unfolding e2_def by (force simp: demo_call_def)
qed

end
