(* ===== verification/Contracts.thy ===== *)
theory Contracts imports Prelude begin

text \<open>
  The contract of a compare-and-swap, the discipline that every status change of the program
  follows (\<^verbatim>\<open>UPDATE ... WHERE id = :id AND status IN ... RETURNING *\<close>, where no row means that
  another actor was first): it runs only from the statuses it names, and leaves the one it sets.
  From the contract alone follows who loses a race.
\<close>

section \<open>One compare-and-swap\<close>

locale status_cas =
  fixes inv :: "'s \<Rightarrow> bool"
    and run :: "'s \<Rightarrow> 's option"
    and status :: "'s \<Rightarrow> 'st option"
    and from_set :: "'st set"
    and target :: "'st"
  assumes run_inv: "inv s \<Longrightarrow> run s = Some s' \<Longrightarrow> inv s'"
    and run_from: "inv s \<Longrightarrow> run s = Some s' \<Longrightarrow> \<exists>st \<in> from_set. status s = Some st"
    and run_target: "inv s \<Longrightarrow> run s = Some s' \<Longrightarrow> status s' = Some target"
begin

lemma loses_outside: "inv s \<Longrightarrow> status s = Some st \<Longrightarrow> st \<notin> from_set \<Longrightarrow> run s = None"
  using run_from by (cases "run s") fastforce+

lemma loses_missing: "inv s \<Longrightarrow> status s = None \<Longrightarrow> run s = None"
  using run_from by (cases "run s") fastforce+

lemma never_twice:
  assumes "inv s" and "run s = Some s'" and "target \<notin> from_set"
  shows "run s' = None"
  using loses_outside [OF run_inv run_target] assms by blast

end

section \<open>Two of them on the same row\<close>

locale cas_race =
  fst: status_cas inv run1 status from1 target1 + snd: status_cas inv run2 status from2 target2
  for inv :: "'s \<Rightarrow> bool" and run1 and status :: "'s \<Rightarrow> 'st option" and from1 and target1
    and run2 and from2 and target2 +
  assumes excludes: "target1 \<notin> from2"
begin

lemma second_loses:
  assumes "inv s" and "run1 s = Some s'"
  shows "run2 s' = None"
  using snd.loses_outside [OF fst.run_inv fst.run_target] assms excludes by blast

text \<open>Also when other actors move in between, as long as they leave the status alone.\<close>

lemma second_loses_later:
  assumes "inv s" and "run1 s = Some s'" and "inv s''" and "status s'' = status s'"
  shows "run2 s'' = None"
  using snd.loses_outside [of s'' target1] fst.run_target [OF assms(1,2)] assms(3,4) excludes
  by simp

end

end
