(* ===== verification/ItemState.thy ===== *)
theory ItemState imports Demo Contracts begin

text \<open>
  \<^verbatim>\<open>qorder_api/services/item_state_service.py\<close>: the order-item state machine. \<open>set_status\<close> and
  \<open>cancel_item\<close> are single compare-and-swap statements followed by the update of the session's
  activity time, in one transaction: on an exception nothing of it is kept, so the result is
  either an exception or the returned row with the new database. The abstract contract is the
  transition relation \<open>item_transition\<close>; the theorems show that the operations implement it.
\<close>

section \<open>The transition table\<close>

primrec ALLOWED_FROM :: "OrderItemStatus \<Rightarrow> OrderItemStatus list option" where
  "ALLOWED_FROM COOKING = Some [PENDING]"
| "ALLOWED_FROM READY = Some [PENDING, COOKING]"
| "ALLOWED_FROM SERVED = Some [PENDING, COOKING, READY]"
| "ALLOWED_FROM PENDING = Some [SERVED]"
| "ALLOWED_FROM CANCELLED = None"

definition allowed_from_set :: "OrderItemStatus \<Rightarrow> OrderItemStatus set" where
  "allowed_from_set s = (case ALLOWED_FROM s of None \<Rightarrow> {} | Some l \<Rightarrow> set l)"

section \<open>The statements\<close>

text \<open>\<^verbatim>\<open>UPDATE table_sessions SET last_activity_at = now() WHERE id = (SELECT
  o.table_session_id FROM orders o WHERE o.id = :order_id)\<close>\<close>

definition touch_session_of_order :: "uuid \<Rightarrow> timestamp \<Rightarrow> database \<Rightarrow> database" where
  "touch_session_of_order oid now d =
     (case first_row (filter (\<lambda>r. o_id r = oid) (orders d)) of
        None \<Rightarrow> d
      | Some r \<Rightarrow> d\<lparr>table_sessions :=
          sql_update (\<lambda>s. ts_id s = o_table_session_id r) (\<lambda>s. s\<lparr>ts_last_activity_at := now\<rparr>)
            (table_sessions d)\<rparr>)"

definition row_to_order_item :: "OrderItem \<Rightarrow> OrderItem" where
  "row_to_order_item row =
     \<lparr>oi_id = oi_id row, oi_restaurant_id = oi_restaurant_id row, oi_order_id = oi_order_id row,
      oi_menu_item_id = oi_menu_item_id row, oi_name_snapshot = oi_name_snapshot row,
      oi_price_snapshot = oi_price_snapshot row,
      oi_prep_time_snapshot = oi_prep_time_snapshot row, oi_quantity = oi_quantity row,
      oi_note = oi_note row, oi_status = oi_status row, oi_requested_at = oi_requested_at row,
      oi_served_by = oi_served_by row, oi_served_at = oi_served_at row,
      oi_cancelled_by = oi_cancelled_by row, oi_cancelled_at = oi_cancelled_at row,
      oi_cancel_reason = oi_cancel_reason row\<rparr>"

lemma row_to_order_item_eq [simp]: "row_to_order_item row = row"
  by (simp add: row_to_order_item_def)

text \<open>An \<^verbatim>\<open>UPDATE order_items SET f WHERE P RETURNING *\<close>, the check for zero rows and the
  update of the session that follows it, which both operations share.\<close>

definition cas_item :: "(OrderItem \<Rightarrow> bool) \<Rightarrow> (OrderItem \<Rightarrow> OrderItem) \<Rightarrow> timestamp \<Rightarrow> database
    \<Rightarrow> (OrderItem \<times> database) option" where
  "cas_item P f now d =
     (case first_row (sql_returning P f (order_items d)) of
        None \<Rightarrow> None
      | Some row \<Rightarrow> Some (row_to_order_item row,
          touch_session_of_order (oi_order_id row) now
            (d\<lparr>order_items := sql_update P f (order_items d)\<rparr>)))"

definition set_status_where :: "uuid \<Rightarrow> OrderItemStatus \<Rightarrow> uuid \<Rightarrow> OrderItemStatus list \<Rightarrow> timestamp
    \<Rightarrow> OrderItem \<Rightarrow> bool" where
  "set_status_where item_id to_status restaurant_id allowed now i \<longleftrightarrow>
     oi_id i = item_id \<and> oi_restaurant_id i = restaurant_id \<and> oi_status i \<in> set allowed \<and>
     (to_status = PENDING \<longrightarrow>
        (case oi_served_at i of None \<Rightarrow> False | Some t \<Rightarrow> now - t \<le> seconds 120))"

definition set_status_set :: "OrderItemStatus \<Rightarrow> uuid option \<Rightarrow> timestamp \<Rightarrow> OrderItem \<Rightarrow> OrderItem" where
  "set_status_set to_status actor now i =
     (if to_status = PENDING then
        i\<lparr>oi_status := to_status, oi_served_by := None, oi_served_at := None\<rparr>
      else if to_status = SERVED then
        i\<lparr>oi_status := to_status, oi_served_by := actor, oi_served_at := Some now\<rparr>
      else i\<lparr>oi_status := to_status\<rparr>)"

text \<open>Writing \<^verbatim>\<open>served_by\<close> checks its foreign key, once a row is to be written.\<close>

definition set_status :: "uuid \<Rightarrow> OrderItemStatus \<Rightarrow> uuid option \<Rightarrow> uuid \<Rightarrow> timestamp \<Rightarrow> database
    \<Rightarrow> (OrderItem \<times> database) result" where
  "set_status item_id to_status actor restaurant_id now d =
     (case ALLOWED_FROM to_status of
        None \<Rightarrow> Inl (InvalidTransition (TransitionNotAllowed to_status))
      | Some allowed \<Rightarrow>
          (let P = set_status_where item_id to_status restaurant_id allowed now;
               f = set_status_set to_status actor now
           in if to_status = SERVED \<and> filter P (order_items d) \<noteq> [] \<and> \<not> fk_user actor d
              then Inl (IntegrityError ''served_by_fkey'')
              else (case cas_item P f now d of
                      None \<Rightarrow> Inl (ConflictError ItemStateChanged)
                    | Some (row, d') \<Rightarrow> Inr (row, d'))))"

definition cancel_where :: "uuid \<Rightarrow> uuid \<Rightarrow> OrderItemStatus list \<Rightarrow> OrderItem \<Rightarrow> bool" where
  "cancel_where item_id restaurant_id allowed i \<longleftrightarrow>
     oi_id i = item_id \<and> oi_restaurant_id i = restaurant_id \<and> oi_status i \<in> set allowed"

definition cancel_set :: "CancelledBy \<Rightarrow> string option \<Rightarrow> timestamp \<Rightarrow> OrderItem \<Rightarrow> OrderItem" where
  "cancel_set by_whom reason now i =
     i\<lparr>oi_status := CANCELLED, oi_cancelled_by := Some by_whom, oi_cancelled_at := Some now,
       oi_cancel_reason := reason\<rparr>"

definition cancel_item :: "uuid \<Rightarrow> CancelledBy \<Rightarrow> uuid \<Rightarrow> OrderItemStatus list \<Rightarrow> string option
    \<Rightarrow> timestamp \<Rightarrow> database \<Rightarrow> (OrderItem \<times> database) result" where
  "cancel_item item_id by_whom restaurant_id allowed reason now d =
     (case cas_item (cancel_where item_id restaurant_id allowed) (cancel_set by_whom reason now)
             now d of
        None \<Rightarrow> Inl (ConflictError CannotCancel)
      | Some (row, d') \<Rightarrow> Inr (row, d'))"

section \<open>What a compare-and-swap does\<close>

lemma touch_session_frame [frame]:
  "order_items (touch_session_of_order oid now d) = order_items d"
  "orders (touch_session_of_order oid now d) = orders d"
  "staff_calls (touch_session_of_order oid now d) = staff_calls d"
  "menu_items (touch_session_of_order oid now d) = menu_items d"
  "menu_categories (touch_session_of_order oid now d) = menu_categories d"
  "tables (touch_session_of_order oid now d) = tables d"
  "restaurants (touch_session_of_order oid now d) = restaurants d"
  "restaurant_settings (touch_session_of_order oid now d) = restaurant_settings d"
  "users (touch_session_of_order oid now d) = users d"
  by (simp_all add: touch_session_of_order_def split: option.splits)

lemma touch_session_sessions:
  "\<exists>P. table_sessions (touch_session_of_order oid now d)
     = sql_update P (\<lambda>s. s\<lparr>ts_last_activity_at := now\<rparr>) (table_sessions d)"
proof (cases "first_row (filter (\<lambda>r. o_id r = oid) (orders d))")
  case None
  then have "table_sessions (touch_session_of_order oid now d)
      = sql_update (\<lambda>_. False) (\<lambda>s. s\<lparr>ts_last_activity_at := now\<rparr>) (table_sessions d)"
    by (simp add: touch_session_of_order_def sql_update_def)
  then show ?thesis by blast
next
  case (Some r)
  then show ?thesis by (auto simp: touch_session_of_order_def)
qed

lemma cas_item_None_iff [simp]:
  "cas_item P f now d = None \<longleftrightarrow> (\<forall>i \<in> set (order_items d). \<not> P i)"
proof -
  have "cas_item P f now d = None \<longleftrightarrow> first_row (sql_returning P f (order_items d)) = None"
    by (simp add: cas_item_def split: option.splits)
  then show ?thesis by (simp add: sql_returning_def filter_empty_conv)
qed

lemma cas_item_Some:
  assumes "cas_item P f now d = Some (row, d')"
  obtains i where "i \<in> set (order_items d)" and "P i" and "row = f i"
    and "order_items d' = sql_update P f (order_items d)"
    and "d' = touch_session_of_order (oi_order_id row) now
           (d\<lparr>order_items := sql_update P f (order_items d)\<rparr>)"
proof -
  from assms obtain r where r: "first_row (sql_returning P f (order_items d)) = Some r"
    by (auto simp: cas_item_def split: option.splits)
  then obtain i rest where i: "filter P (order_items d) = i # rest" and ri: "r = f i"
    by (auto simp: sql_returning_def first_row_Some_iff)
  from assms r have "row = f i" and d': "d' = touch_session_of_order (oi_order_id row) now
      (d\<lparr>order_items := sql_update P f (order_items d)\<rparr>)"
    by (auto simp: cas_item_def ri)
  with filter_eq_ConsD2 [OF i] show thesis by (auto intro!: that simp: frame)
qed

text \<open>With the primary key, the statement writes the one row it selects and no other.\<close>

lemma cas_item_unique:
  assumes key: "unique_by oi_id (order_items d)" and P: "\<And>i. P i \<Longrightarrow> oi_id i = item_id"
    and "i \<in> set (order_items d)" and "P i"
  shows "cas_item P f now d = Some (f i, touch_session_of_order (oi_order_id (f i)) now
           (d\<lparr>order_items := sql_update P f (order_items d)\<rparr>))"
proof -
  from assms(3,4) have "cas_item P f now d \<noteq> None"
    by (subst cas_item_None_iff) blast
  then obtain row d' where c: "cas_item P f now d = Some (row, d')"
    by (cases "cas_item P f now d") auto
  then obtain j where j: "j \<in> set (order_items d)" "P j" "row = f j"
    and d': "d' = touch_session_of_order (oi_order_id row) now
      (d\<lparr>order_items := sql_update P f (order_items d)\<rparr>)" by (rule cas_item_Some)
  from P [OF \<open>P i\<close>] P [OF \<open>P j\<close>] have "oi_id j = oi_id i" by simp
  with j(1) assms(3) key have "j = i" by (auto dest: unique_byD)
  with c j(3) d' show ?thesis by simp
qed

section \<open>The contract: legal transitions of an item\<close>

inductive item_transition :: "timestamp \<Rightarrow> OrderItem \<Rightarrow> OrderItemStatus \<Rightarrow> bool" where
  advance: "active (oi_status i) \<Longrightarrow> oi_status i < to \<Longrightarrow> to \<le> SERVED \<Longrightarrow> item_transition now i to"
| undo: "oi_status i = SERVED \<Longrightarrow> oi_served_at i = Some t \<Longrightarrow> now - t \<le> seconds 120
    \<Longrightarrow> item_transition now i PENDING"
| cancel: "active (oi_status i) \<Longrightarrow> item_transition now i CANCELLED"

inductive_simps item_transition_simps: "item_transition now i to"

lemma allowed_from_set_simps [simp]:
  "s \<in> allowed_from_set to \<longleftrightarrow>
     (to \<noteq> PENDING \<and> to \<noteq> CANCELLED \<and> s < to) \<or> (to = PENDING \<and> s = SERVED)"
  by (cases to; cases s) (simp_all add: allowed_from_set_def status_order)

lemma ALLOWED_FROM_Some: "ALLOWED_FROM to = Some l \<Longrightarrow> set l = allowed_from_set to"
  by (simp add: allowed_from_set_def)

lemma ALLOWED_FROM_None [simp]: "ALLOWED_FROM to = None \<longleftrightarrow> to = CANCELLED"
  by (cases to) simp_all

lemma set_status_where_iff:
  assumes "ALLOWED_FROM to = Some allowed"
  shows "set_status_where item_id to rid allowed now i \<longleftrightarrow>
     oi_id i = item_id \<and> oi_restaurant_id i = rid \<and> item_transition now i to"
proof (cases "oi_served_at i"; cases to)
qed (use ALLOWED_FROM_Some [OF assms] assms in
    \<open>auto simp: set_status_where_def item_transition_simps active_iff_before_served status_order
      split: option.splits\<close>)

text \<open>The result of \<^verbatim>\<open>set_status\<close> on an existing item of the restaurant, on every branch.\<close>

lemma set_status_existing:
  assumes key: "unique_by oi_id (order_items d)" and i: "i \<in> set (order_items d)"
  shows "set_status (oi_id i) to actor (oi_restaurant_id i) now d =
    (if to = CANCELLED then Inl (InvalidTransition (TransitionNotAllowed to))
     else if \<not> item_transition now i to then Inl (ConflictError ItemStateChanged)
     else if to = SERVED \<and> \<not> fk_user actor d then Inl (IntegrityError ''served_by_fkey'')
     else Inr (set_status_set to actor now i,
            touch_session_of_order (oi_order_id i) now
              (d\<lparr>order_items := sql_update (\<lambda>x. oi_id x = oi_id i)
                   (set_status_set to actor now) (order_items d)\<rparr>)))"
proof (cases "ALLOWED_FROM to")
  case None
  then show ?thesis by (auto simp: set_status_def)
next
  case (Some allowed)
  let ?P = "set_status_where (oi_id i) to (oi_restaurant_id i) allowed now"
  let ?f = "set_status_set to actor now"
  have P: "?P j \<longleftrightarrow> j = i \<and> item_transition now i to" if "j \<in> set (order_items d)" for j
    using unique_byD [OF key that i] set_status_where_iff [OF Some] by auto
  have upd: "sql_update ?P ?f (order_items d) = sql_update (\<lambda>x. oi_id x = oi_id i) ?f (order_items d)"
    if "item_transition now i to"
    using P that unique_byD [OF key _ i] by (auto simp: sql_update_def)
  have nc: "to \<noteq> CANCELLED" using Some by auto
  have ord: "oi_order_id (?f i) = oi_order_id i" by (simp add: set_status_set_def)
  show ?thesis
  proof (cases "item_transition now i to")
    case False
    then have "cas_item ?P ?f now d = None" and "filter ?P (order_items d) = []"
      using P by (auto simp: filter_empty_conv)
    with Some False nc show ?thesis by (simp add: set_status_def Let_def del: cas_item_None_iff)
  next
    case True
    then have "?P i" using P i by simp
    then have c: "cas_item ?P ?f now d = Some (?f i, touch_session_of_order (oi_order_id i) now
        (d\<lparr>order_items := sql_update (\<lambda>x. oi_id x = oi_id i) ?f (order_items d)\<rparr>))"
      using cas_item_unique [OF key _ i, of ?P "oi_id i" ?f now] upd [OF True] ord
      by (simp add: set_status_where_def)
    have "filter ?P (order_items d) \<noteq> []" using \<open>?P i\<close> i by (auto simp: filter_empty_conv)
    with Some True c nc show ?thesis by (simp add: set_status_def Let_def del: cas_item_None_iff)
  qed
qed


text \<open>The same for \<^verbatim>\<open>cancel_item\<close>.\<close>

lemma cancel_item_existing:
  assumes key: "unique_by oi_id (order_items d)" and i: "i \<in> set (order_items d)"
  shows "cancel_item (oi_id i) by_whom (oi_restaurant_id i) allowed reason now d =
    (if oi_status i \<notin> set allowed then Inl (ConflictError CannotCancel)
     else Inr (cancel_set by_whom reason now i,
            touch_session_of_order (oi_order_id i) now
              (d\<lparr>order_items := sql_update (\<lambda>x. oi_id x = oi_id i)
                   (cancel_set by_whom reason now) (order_items d)\<rparr>)))"
proof (cases "oi_status i \<in> set allowed")
  let ?P = "cancel_where (oi_id i) (oi_restaurant_id i) allowed"
  let ?f = "cancel_set by_whom reason now"
  have P: "?P j \<longleftrightarrow> j = i \<and> oi_status i \<in> set allowed" if "j \<in> set (order_items d)" for j
    using unique_byD [OF key that i] by (auto simp: cancel_where_def)
  {
    case False
    then have "cas_item ?P ?f now d = None" using P by auto
    with False show ?thesis by (simp add: cancel_item_def del: cas_item_None_iff)
  next
    case True
    then have "sql_update ?P ?f (order_items d) = sql_update (\<lambda>x. oi_id x = oi_id i) ?f (order_items d)"
      using P unique_byD [OF key _ i] by (auto simp: sql_update_def)
    moreover have "?P i" using True P i by simp
    ultimately have "cas_item ?P ?f now d = Some (?f i, touch_session_of_order (oi_order_id i) now
        (d\<lparr>order_items := sql_update (\<lambda>x. oi_id x = oi_id i) ?f (order_items d)\<rparr>))"
      using cas_item_unique [OF key _ i, of ?P "oi_id i" ?f now]
      by (simp add: cancel_where_def) (simp add: cancel_set_def)
    with True show ?thesis by (simp add: cancel_item_def)
  }
qed

text \<open>An operation that returned a row found an item it may change.\<close>

lemma set_status_Inr:
  assumes "set_status item_id to actor rid now d = Inr (row, d')"
  obtains i allowed where "i \<in> set (order_items d)" and "oi_id i = item_id"
    and "oi_restaurant_id i = rid"
    and "item_transition now i to" and "row = set_status_set to actor now i"
    and "to \<noteq> CANCELLED" and "to = SERVED \<Longrightarrow> fk_user actor d"
    and "ALLOWED_FROM to = Some allowed"
    and "cas_item (set_status_where item_id to rid allowed now) (set_status_set to actor now) now d
       = Some (row, d')"
proof -
  from assms obtain allowed where a: "ALLOWED_FROM to = Some allowed"
    and c: "cas_item (set_status_where item_id to rid allowed now) (set_status_set to actor now) now d
       = Some (row, d')"
    and fk: "to = SERVED \<Longrightarrow> filter (set_status_where item_id to rid allowed now) (order_items d) = []
       \<or> fk_user actor d"
    by (auto simp: set_status_def Let_def split: option.splits if_splits)
  from c obtain i where i: "i \<in> set (order_items d)"
    "set_status_where item_id to rid allowed now i" "row = set_status_set to actor now i"
    by (rule cas_item_Some)
  moreover from i fk have "to = SERVED \<Longrightarrow> fk_user actor d" by (auto simp: filter_empty_conv)
  moreover have "to \<noteq> CANCELLED" using a by auto
  ultimately show thesis using a c set_status_where_iff [OF a]
    by (intro that [of i allowed]) simp_all
qed

lemma cancel_item_Inr:
  assumes "cancel_item item_id by_whom rid allowed reason now d = Inr (row, d')"
  obtains i where "i \<in> set (order_items d)" and "oi_id i = item_id" and "oi_restaurant_id i = rid"
    and "oi_status i \<in> set allowed" and "row = cancel_set by_whom reason now i"
    and "cas_item (cancel_where item_id rid allowed) (cancel_set by_whom reason now) now d
       = Some (row, d')"
proof -
  from assms have c: "cas_item (cancel_where item_id rid allowed) (cancel_set by_whom reason now)
      now d = Some (row, d')"
    by (auto simp: cancel_item_def split: option.splits)
  then obtain i where "i \<in> set (order_items d)" "cancel_where item_id rid allowed i"
    "row = cancel_set by_whom reason now i" by (rule cas_item_Some)
  with that c show thesis by (auto simp: cancel_where_def)
qed

section \<open>The invariant of the database\<close>

lemma keeps_set_status_set: "keeps_item (set_status_set to actor now)"
  by (simp add: keeps_defs set_status_set_def)

lemma keeps_cancel_set: "keeps_item (cancel_set by_whom reason now)"
  by (simp add: keeps_defs cancel_set_def)

lemma keeps_touch: "keeps_session (\<lambda>s. s\<lparr>ts_last_activity_at := now\<rparr>)"
  by (simp add: keeps_defs)

lemma db_inv_touch_session:
  assumes "db_inv d"
  shows "db_inv (touch_session_of_order oid now d)"
proof (cases "first_row (filter (\<lambda>r. o_id r = oid) (orders d))")
  case None
  with assms show ?thesis by (simp add: touch_session_of_order_def)
next
  case (Some r)
  have "session_shape (s\<lparr>ts_last_activity_at := now\<rparr>)" if "session_shape s" for s
    using that by (simp add: session_shape_def split: SessionStatus.splits)
  then show ?thesis
    using assms Some keeps_touch db_invD(2) [OF assms]
    by (auto simp: touch_session_of_order_def one_open_session_per_table_def
        open_tables_update_sessions intro!: db_inv_update_sessions)
qed

lemma db_inv_cas_item:
  assumes "db_inv d" and "cas_item P f now d = Some (row, d')" and "keeps_item f"
    and "\<And>i. item_shape i \<Longrightarrow> P i \<Longrightarrow> item_shape (f i)"
  shows "db_inv d'"
  using assms(2)
proof (rule cas_item_Some)
  assume "d' = touch_session_of_order (oi_order_id row) now
    (d\<lparr>order_items := sql_update P f (order_items d)\<rparr>)"
  then show "db_inv d'" using assms by (auto intro!: db_inv_touch_session db_inv_update_items)
qed

lemma item_shape_set_status:
  assumes "item_transition now i to" and "item_shape i" and "to \<noteq> CANCELLED"
  shows "item_shape (set_status_set to actor now i)"
  using assms
  by (cases to; cases "oi_status i")
    (auto simp: item_transition_simps item_shape_def set_status_set_def status_order)

lemma item_shape_cancel:
  assumes "active (oi_status i)" and "item_shape i"
  shows "item_shape (cancel_set by_whom reason now i)"
  using assms by (cases "oi_status i") (auto simp: item_shape_def cancel_set_def)

lemma db_inv_set_status:
  assumes "db_inv d" and "set_status item_id to actor rid now d = Inr (row, d')"
  shows "db_inv d'"
  using assms(2)
proof (rule set_status_Inr)
  fix i allowed
  assume to: "to \<noteq> CANCELLED" and a: "ALLOWED_FROM to = Some allowed"
    and c: "cas_item (set_status_where item_id to rid allowed now) (set_status_set to actor now) now d
      = Some (row, d')"
  from assms(1) c keeps_set_status_set show "db_inv d'"
    by (rule db_inv_cas_item) (auto simp: set_status_where_iff [OF a] to item_shape_set_status)
qed

lemma db_inv_cancel_item:
  assumes "db_inv d" and "cancel_item item_id by_whom rid allowed reason now d = Inr (row, d')"
    and "\<And>s. s \<in> set allowed \<Longrightarrow> active s"
  shows "db_inv d'"
  using assms(2)
proof (rule cancel_item_Inr)
  fix i
  assume c: "cas_item (cancel_where item_id rid allowed) (cancel_set by_whom reason now) now d
      = Some (row, d')"
  from assms(1) c keeps_cancel_set show "db_inv d'"
    by (rule db_inv_cas_item) (auto simp: cancel_where_def item_shape_cancel assms(3))
qed

section \<open>The operations as compare-and-swaps\<close>

definition item_status :: "uuid \<Rightarrow> database \<Rightarrow> OrderItemStatus option" where
  "item_status item_id d =
     map_option oi_status (first_row (filter (\<lambda>i. oi_id i = item_id) (order_items d)))"

definition run_db :: "('a \<times> database) result \<Rightarrow> database option" where
  "run_db r = (case r of Inl _ \<Rightarrow> None | Inr (_, d) \<Rightarrow> Some d)"

lemma run_db_Some [simp]: "run_db r = Some d \<longleftrightarrow> (\<exists>x. r = Inr (x, d))"
  by (auto simp: run_db_def split: sum.splits)

lemma run_db_None [simp]: "run_db r = None \<longleftrightarrow> (\<exists>x. r = Inl x)"
  by (auto simp: run_db_def split: sum.splits)

lemma item_status_eq:
  assumes "unique_by oi_id (order_items d)" and "i \<in> set (order_items d)"
  shows "item_status (oi_id i) d = Some (oi_status i)"
  using filter_unique [OF assms, of "\<lambda>_. True"] by (simp add: item_status_def)

lemma item_status_cas:
  assumes key: "unique_by oi_id (order_items d)" and c: "cas_item P f now d = Some (row, d')"
    and P: "\<And>i. P i \<Longrightarrow> oi_id i = item_id" and f: "keeps_item f"
  shows "item_status item_id d' = Some (oi_status row)" and "keys_ok d \<Longrightarrow> keys_ok d'"
    and "\<exists>i \<in> set (order_items d). P i \<and> item_status item_id d = Some (oi_status i)"
proof -
  from c obtain i where i: "i \<in> set (order_items d)" "P i" "row = f i"
    and items: "order_items d' = sql_update P f (order_items d)"
    and d': "d' = touch_session_of_order (oi_order_id row) now
       (d\<lparr>order_items := sql_update P f (order_items d)\<rparr>)" by (rule cas_item_Some)
  have id: "oi_id i = item_id" "oi_id (f i) = item_id" using P i f by (auto simp: keeps_defs)
  have "f i \<in> set (order_items d')" using i by (auto simp: items set_sql_update)
  moreover have "unique_by oi_id (order_items d')"
    using key f by (simp add: items unique_by_sql_update keeps_defs)
  ultimately show "item_status item_id d' = Some (oi_status row)"
    using item_status_eq [of d' "f i"] id i(3) by simp
  show "\<exists>i \<in> set (order_items d). P i \<and> item_status item_id d = Some (oi_status i)"
    using i item_status_eq [OF key i(1)] id by auto
  show "keys_ok d'" if "keys_ok d"
  proof -
    obtain Q where "table_sessions d' = sql_update Q (\<lambda>s. s\<lparr>ts_last_activity_at := now\<rparr>)
        (table_sessions d)" using touch_session_sessions [of "oi_order_id row" now
        "d\<lparr>order_items := sql_update P f (order_items d)\<rparr>"] d' by auto
    with that f show ?thesis
      by (simp add: d' keys_ok_def frame unique_by_sql_update keeps_defs)
  qed
qed

interpretation set_status_cas: status_cas keys_ok
  "\<lambda>d. run_db (set_status item_id to actor rid now d)" "item_status item_id"
  "allowed_from_set to" to
  for item_id to actor rid now
proof (unfold_locales, goal_cases)
  case (1 d d')
  then obtain row where "set_status item_id to actor rid now d = Inr (row, d')" by auto
  then obtain allowed where c: "cas_item (set_status_where item_id to rid allowed now)
      (set_status_set to actor now) now d = Some (row, d')" by (rule set_status_Inr)
  from item_status_cas(2) [OF keys_okD(10) [OF 1(1)] c _ keeps_set_status_set] 1(1) show ?case
    by (auto simp: set_status_where_def)
next
  case (2 d d')
  then obtain row where "set_status item_id to actor rid now d = Inr (row, d')" by auto
  then obtain i allowed where "i \<in> set (order_items d)" "oi_id i = item_id"
    "ALLOWED_FROM to = Some allowed" "item_transition now i to" "to \<noteq> CANCELLED"
    by (rule set_status_Inr)
  moreover then have "item_status item_id d = Some (oi_status i)"
    using item_status_eq [OF keys_okD(10) [OF 2(1)]] by auto
  ultimately show ?case
    by (auto simp: item_transition_simps active_iff_before_served)
next
  case (3 d d')
  then obtain row where "set_status item_id to actor rid now d = Inr (row, d')" by auto
  then obtain i allowed where c: "cas_item (set_status_where item_id to rid allowed now)
      (set_status_set to actor now) now d = Some (row, d')" and "row = set_status_set to actor now i"
    by (rule set_status_Inr)
  with item_status_cas(1) [OF keys_okD(10) [OF 3(1)] c _ keeps_set_status_set] show ?case
    by (auto simp: set_status_where_def set_status_set_def)
qed

interpretation cancel_item_cas: status_cas keys_ok
  "\<lambda>d. run_db (cancel_item item_id by_whom rid allowed reason now d)" "item_status item_id"
  "set allowed" CANCELLED
  for item_id by_whom rid allowed reason now
proof (unfold_locales, goal_cases)
  case (1 d d')
  then obtain row where "cancel_item item_id by_whom rid allowed reason now d = Inr (row, d')" by auto
  then have c: "cas_item (cancel_where item_id rid allowed) (cancel_set by_whom reason now) now d
      = Some (row, d')" by (rule cancel_item_Inr)
  from item_status_cas(2) [OF keys_okD(10) [OF 1(1)] c _ keeps_cancel_set] 1(1) show ?case
    by (auto simp: cancel_where_def)
next
  case (2 d d')
  then obtain row where "cancel_item item_id by_whom rid allowed reason now d = Inr (row, d')" by auto
  then obtain i where "i \<in> set (order_items d)" "oi_id i = item_id" "oi_status i \<in> set allowed"
    by (rule cancel_item_Inr)
  then show ?case using item_status_eq [OF keys_okD(10) [OF 2(1)]] by auto
next
  case (3 d d')
  then obtain row where "cancel_item item_id by_whom rid allowed reason now d = Inr (row, d')" by auto
  then obtain i where c: "cas_item (cancel_where item_id rid allowed) (cancel_set by_whom reason now)
      now d = Some (row, d')" and "row = cancel_set by_whom reason now i" by (rule cancel_item_Inr)
  with item_status_cas(1) [OF keys_okD(10) [OF 3(1)] c _ keeps_cancel_set] show ?case
    by (auto simp: cancel_where_def cancel_set_def)
qed

text \<open>Serving an item and cancelling it exclude each other, whoever is first.\<close>

interpretation serve_then_cancel: cas_race keys_ok
  "\<lambda>d. run_db (set_status item_id SERVED actor rid now d)" "item_status item_id"
  "allowed_from_set SERVED" SERVED
  "\<lambda>d. run_db (cancel_item item_id by_whom rid' [PENDING, COOKING, READY] reason now' d)"
  "set [PENDING, COOKING, READY]" CANCELLED
  for item_id actor rid now by_whom rid' reason now'
  by unfold_locales simp

interpretation cancel_then_status: cas_race keys_ok
  "\<lambda>d. run_db (cancel_item item_id by_whom rid allowed reason now d)" "item_status item_id"
  "set allowed" CANCELLED
  "\<lambda>d. run_db (set_status item_id to actor rid' now' d)" "allowed_from_set to" to
  for item_id by_whom rid allowed reason now to actor rid' now'
  by unfold_locales (cases to; simp add: status_order)

section \<open>Properties\<close>

text \<open>
  C3 (the state machine is implemented). On an item of the restaurant, and with a known actor,
  \<^verbatim>\<open>set_status\<close> succeeds exactly for the legal transitions: forward from an active status to a later
  one, or back to pending from served within 120 seconds. Then the returned row has the new
  status, the rest of the order's columns are as they were, every other item is untouched, and the
  invariant holds. Otherwise it raises and, as the transaction is rolled back, nothing changes.
\<close>

theorem set_status_implements_transitions:
  assumes "db_inv d" and "i \<in> set (order_items d)" and "fk_user actor d"
  shows "(case set_status (oi_id i) to actor (oi_restaurant_id i) now d of
      Inl x \<Rightarrow> (to = CANCELLED \<and> x = InvalidTransition (TransitionNotAllowed to))
             \<or> (to \<noteq> CANCELLED \<and> \<not> item_transition now i to \<and> x = ConflictError ItemStateChanged)
    | Inr (row, d') \<Rightarrow> to \<noteq> CANCELLED \<and> item_transition now i to \<and> oi_status row = to
        \<and> row = set_status_set to actor now i \<and> db_inv d'
        \<and> order_items d' = map (\<lambda>x. if x = i then row else x) (order_items d)
        \<and> orders d' = orders d)"
proof (cases "set_status (oi_id i) to actor (oi_restaurant_id i) now d")
  note key = keys_okD(10) [OF db_invD(1) [OF assms(1)]]
  note eq = set_status_existing [OF key assms(2), of to actor now]
  {
    case (Inl x)
    with eq assms(3) show ?thesis by (auto split: if_splits)
  next
    case (Inr p)
    obtain row d' where p: "p = (row, d')" by (cases p)
    have "db_inv d'" using db_inv_set_status [OF assms(1)] Inr p by simp
    with Inr eq p sql_update_unique [OF key assms(2)] show ?thesis
      by (auto simp: frame set_status_set_def split: if_splits)
  }
qed

lemma set_status_implements_transitions_witness:
  "\<exists>row d'. set_status 71 SERVED (Some 10) 1 (seconds 1000) demo = Inr (row, d')
     \<and> oi_status row = SERVED \<and> db_inv d'"
proof -
  have i: "demo_item 71 60 1 COOKING \<in> set (order_items demo)" by (simp add: demo_def)
  have "item_transition (seconds 1000) (demo_item 71 60 1 COOKING) SERVED"
    by (simp add: item_transition_simps demo_item_def status_order)
  then show ?thesis
    using set_status_implements_transitions [OF demo_inv i, of "Some 10" SERVED "seconds 1000"]
    by (auto simp: demo_item_def split: sum.splits)
qed

text \<open>
  C10 (served or cancelled, not both). When one actor serves an item and another cancels it with the
  statuses that the staff may cancel (pending, cooking, ready), whoever commits first wins: the other's statement finds no row and raises, also when further
  work that leaves the item's status alone comes in between.
\<close>

theorem serve_and_cancel_exclude_each_other:
  assumes "keys_ok d" and "keys_ok d2" and "item_status item_id d2 = item_status item_id d1"
  shows "(set_status item_id SERVED actor rid now d = Inr (row, d1) \<longrightarrow>
      cancel_item item_id by_whom rid' [PENDING, COOKING, READY] reason now' d2
        = Inl (ConflictError CannotCancel))
    \<and> (cancel_item item_id by_whom rid' [PENDING, COOKING, READY] reason now' d = Inr (row', d1) \<longrightarrow>
      set_status item_id SERVED actor rid now d2 = Inl (ConflictError ItemStateChanged))"
proof (intro conjI impI)
  assume "set_status item_id SERVED actor rid now d = Inr (row, d1)"
  then have "run_db (cancel_item item_id by_whom rid' [PENDING, COOKING, READY] reason now' d2) = None"
    by (intro serve_then_cancel.second_loses_later [OF assms(1) _ assms(2,3)]) auto
  then show "cancel_item item_id by_whom rid' [PENDING, COOKING, READY] reason now' d2
      = Inl (ConflictError CannotCancel)"
    by (auto simp: cancel_item_def simp del: cas_item_None_iff split: option.splits)
next
  assume c: "cancel_item item_id by_whom rid' [PENDING, COOKING, READY] reason now' d = Inr (row', d1)"
  then have "item_status item_id d2 = Some CANCELLED"
    using cancel_item_cas.run_target [OF assms(1), of item_id by_whom rid'
      "[PENDING, COOKING, READY]" reason now' d1] assms(3) by auto
  then have "\<not> set_status_where item_id SERVED rid [PENDING, COOKING, READY] now i"
    if "i \<in> set (order_items d2)" for i
    using item_status_eq [OF keys_okD(10) [OF assms(2)] that] by (auto simp: set_status_where_def)
  moreover from this have "cas_item (set_status_where item_id SERVED rid [PENDING, COOKING, READY] now)
      (set_status_set SERVED actor now) now d2 = None" by simp
  moreover from c have "run_db (set_status item_id SERVED actor rid now d2) = None"
    by (intro cancel_then_status.second_loses_later [OF assms(1) _ assms(2,3)]) auto
  ultimately show "set_status item_id SERVED actor rid now d2 = Inl (ConflictError ItemStateChanged)"
    by (simp add: set_status_def filter_empty_conv del: cas_item_None_iff)
qed

lemma serve_and_cancel_exclude_each_other_witness:
  "\<exists>row d1. set_status 71 SERVED (Some 10) 1 (seconds 1000) demo = Inr (row, d1)
     \<and> cancel_item 71 BY_STAFF 1 [PENDING, COOKING, READY] None (seconds 1001) d1
        = Inl (ConflictError CannotCancel)"
proof -
  have i: "demo_item 71 60 1 COOKING \<in> set (order_items demo)" by (simp add: demo_def)
  have "item_transition (seconds 1000) (demo_item 71 60 1 COOKING) SERVED"
    by (simp add: item_transition_simps demo_item_def status_order)
  then obtain row d1 where r: "set_status 71 SERVED (Some 10) 1 (seconds 1000) demo = Inr (row, d1)"
    using set_status_existing [OF keys_okD(10) [OF demo_keys] i, of SERVED "Some 10" "seconds 1000"]
    by (simp add: demo_item_def)
  moreover have "keys_ok d1" using db_inv_set_status [OF demo_inv r] by (simp add: db_inv_def)
  ultimately show ?thesis
    using serve_and_cancel_exclude_each_other [OF demo_keys, of d1 71 d1] by blast
qed

text \<open>
  Items of another restaurant: With the identifier of another restaurant, neither operation
  finds the item: both raise, so nothing changes, and the answer is the one for an item that
  another actor has changed.
\<close>

theorem item_operations_keep_to_their_restaurant:
  assumes "\<And>i. i \<in> set (order_items d) \<Longrightarrow> oi_id i = item_id \<Longrightarrow> oi_restaurant_id i \<noteq> rid"
  shows "cancel_item item_id by_whom rid allowed reason now d = Inl (ConflictError CannotCancel)
    \<and> set_status item_id to actor rid now d = Inl (if to = CANCELLED
        then InvalidTransition (TransitionNotAllowed CANCELLED) else ConflictError ItemStateChanged)"
proof -
  have "cas_item (cancel_where item_id rid allowed) (cancel_set by_whom reason now) now d = None"
    using assms by (auto simp: cancel_where_def)
  moreover have none: "\<not> set_status_where item_id to rid l now i" if "i \<in> set (order_items d)" for i l
    using assms that by (auto simp: set_status_where_def)
  moreover from none
  have "cas_item (set_status_where item_id to rid l now) (set_status_set to actor now) now d = None"
    for l by simp
  ultimately show ?thesis by (cases to)
      (simp_all add: cancel_item_def set_status_def filter_empty_conv del: cas_item_None_iff)
qed

lemma item_operations_keep_to_their_restaurant_witness:
  "cancel_item 71 BY_STAFF 2 [PENDING, COOKING, READY] None (seconds 1001) demo
     = Inl (ConflictError CannotCancel)"
proof -
  have "oi_restaurant_id i \<noteq> 2" if "i \<in> set (order_items demo)" for i
    using that by (auto simp: demo_def demo_item_def)
  then show ?thesis by (rule item_operations_keep_to_their_restaurant [THEN conjunct1])
qed

end
