(* ===== verification/Sessions.thy ===== *)
theory Sessions imports StaffCalls ItemState begin

text \<open>
  \<^verbatim>\<open>qorder_api/services/session_service.py\<close>: the life of a table session. \<open>get_or_open\<close> reads,
  then inserts, and recovers when the unique index tells it that it lost a race; \<open>checkout\<close> is one
  transaction that starts with a compare-and-swap (\<^verbatim>\<open>Settlement\<close> has what may commit between its statements); \<open>restore\<close> reads first and ends with a
  compare-and-swap. What other connections commit in the gaps is \<open>others e 0\<close> (between the lookup
  and the \<^verbatim>\<open>INSERT\<close>), \<open>others e 1\<close> (between the rollback and the second lookup), \<open>others e 2\<close>
  (between the commit and the refresh) and \<open>others e 3\<close> (between the checks of \<open>restore\<close> and its
  update).

  SQLAlchemy's \<^verbatim>\<open>AsyncSession\<close> is not under the sources. The code relies on two documented
  behaviours of it, which the model makes explicit. A \<^verbatim>\<open>select\<close> of a row that the session has
  already loaded gives the loaded object as it is, since \<^verbatim>\<open>db.py\<close> sets \<^verbatim>\<open>expire_on_commit=False\<close>
  and the updates are textual SQL (\<open>orm_session\<close>). A \<^verbatim>\<open>rollback\<close> expires every loaded object, and
  reading an expired attribute outside an awaited call raises \<^verbatim>\<open>MissingGreenlet\<close>: \<open>get_or_open\<close>
  returns, beside the session, whether it rolled back.
\<close>

section \<open>Finding and opening\<close>

definition find_open_session :: "uuid \<Rightarrow> database \<Rightarrow> TableSession option result" where
  "find_open_session table_id d =
     scalar_one_or_none (filter (\<lambda>s. ts_table_id s = table_id \<and> ts_status s = OPEN)
       (table_sessions d))"

definition new_session :: "env \<Rightarrow> uuid \<Rightarrow> uuid \<Rightarrow> uuid option \<Rightarrow> TableSession" where
  "new_session e table_id restaurant_id opened_by =
     \<lparr>ts_id = gen e 0, ts_restaurant_id = restaurant_id, ts_table_id = table_id,
      ts_status = OPEN, ts_opened_by = opened_by, ts_opened_at = t_open e,
      ts_last_activity_at = t_open e, ts_closed_at = None, ts_abandoned_at = None,
      ts_total_amount = None\<rparr>"

definition get_or_open :: "env \<Rightarrow> uuid \<Rightarrow> uuid \<Rightarrow> uuid option \<Rightarrow> database
    \<Rightarrow> (TableSession \<times> bool) result \<times> database" where
  "get_or_open e table_id restaurant_id opened_by d =
     (case find_open_session table_id d of
        Inl x \<Rightarrow> (Inl x, d)
      | Inr (Some existing) \<Rightarrow> (Inr (existing, False), d)
      | Inr None \<Rightarrow>
          (let d1 = others e 0 d
           in case insert_session (new_session e table_id restaurant_id opened_by) d1 of
                Inl (IntegrityError _) \<Rightarrow>
                  (let d2 = others e 1 d1
                   in case find_open_session table_id d2 of
                        Inl x \<Rightarrow> (Inl x, d2)
                      | Inr (Some existing) \<Rightarrow> (Inr (existing, True), d2)
                      | Inr None \<Rightarrow> (Inl (RuntimeError (RaceRecoveryFailed table_id)), d2))
              | Inl x \<Rightarrow> (Inl x, d1)
              | Inr d2 \<Rightarrow>
                  (let d3 = others e 2 d2
                   in case scalar_one (filter (\<lambda>s. ts_id s = gen e 0) (table_sessions d3)) of
                        Inl x \<Rightarrow> (Inl x, d3)
                      | Inr s \<Rightarrow> (Inr (s, False), d3))))"

section \<open>Closing a session\<close>

record CancelledItem =
  ci_id :: uuid
  ci_name_snapshot :: string
  ci_quantity :: int
  ci_status_before :: OrderItemStatus

record CheckoutResult =
  cr_session :: TableSession
  cr_total_amount :: money
  cr_auto_cancelled_items :: "CancelledItem list"
  cr_dismissed_calls_count :: nat

record RestoreResult =
  rr_session :: TableSession
  rr_action :: string
  rr_total_amount :: "money option"
  rr_auto_cancelled_items :: "CancelledItem list"
  rr_dismissed_calls_count :: nat

text \<open>An \<^verbatim>\<open>UPDATE table_sessions ... RETURNING *\<close> and its check for zero rows.\<close>

definition cas_session :: "(TableSession \<Rightarrow> bool) \<Rightarrow> (TableSession \<Rightarrow> TableSession) \<Rightarrow> database
    \<Rightarrow> (TableSession \<times> database) option" where
  "cas_session P f d =
     (case first_row (sql_returning P f (table_sessions d)) of
        None \<Rightarrow> None
      | Some row \<Rightarrow> Some (row, d\<lparr>table_sessions := sql_update P f (table_sessions d)\<rparr>))"

definition session_where :: "uuid \<Rightarrow> uuid \<Rightarrow> SessionStatus \<Rightarrow> TableSession \<Rightarrow> bool" where
  "session_where session_id restaurant_id st s \<longleftrightarrow>
     ts_id s = session_id \<and> ts_restaurant_id s = restaurant_id \<and> ts_status s = st"

definition close_set :: "timestamp \<Rightarrow> TableSession \<Rightarrow> TableSession" where
  "close_set now s = s\<lparr>ts_status := CLOSED, ts_closed_at := Some now\<rparr>"

definition in_session :: "uuid \<Rightarrow> database \<Rightarrow> OrderItem \<Rightarrow> bool" where
  "in_session session_id d i \<longleftrightarrow>
     oi_order_id i \<in> set (map o_id (filter (\<lambda>r. o_table_session_id r = session_id) (orders d)))"

definition unserved :: "uuid \<Rightarrow> database \<Rightarrow> OrderItem \<Rightarrow> bool" where
  "unserved session_id d i \<longleftrightarrow>
     in_session session_id d i \<and> oi_status i \<in> set [PENDING, COOKING, READY]"

definition items_to_cancel :: "uuid \<Rightarrow> database \<Rightarrow> CancelledItem list" where
  "items_to_cancel session_id d =
     map (\<lambda>i. \<lparr>ci_id = oi_id i, ci_name_snapshot = oi_name_snapshot i,
               ci_quantity = oi_quantity i, ci_status_before = oi_status i\<rparr>)
       (filter (unserved session_id d) (order_items d))"

definition auto_cancel :: "string \<Rightarrow> uuid \<Rightarrow> timestamp \<Rightarrow> database \<Rightarrow> database" where
  "auto_cancel reason session_id now d =
     d\<lparr>order_items := sql_update (unserved session_id d) (cancel_set BY_SYSTEM (Some reason) now)
         (order_items d)\<rparr>"

definition served_total :: "uuid \<Rightarrow> database \<Rightarrow> money" where
  "served_total session_id d =
     sum_list (map (\<lambda>i. oi_price_snapshot i * oi_quantity i)
       (filter (\<lambda>i. in_session session_id d i \<and> oi_status i = SERVED) (order_items d)))"

definition set_total :: "uuid \<Rightarrow> money \<Rightarrow> database \<Rightarrow> database result" where
  "set_total session_id amount d =
     (if fits_numeric_12_2 amount
      then Inr (d\<lparr>table_sessions := sql_update (\<lambda>s. ts_id s = session_id)
                    (\<lambda>s. s\<lparr>ts_total_amount := Some amount\<rparr>) (table_sessions d)\<rparr>)
      else Inl (DBAPIError ''numeric field overflow''))"

text \<open>Steps 2 to 6 of \<^verbatim>\<open>checkout\<close>, which the second path of \<^verbatim>\<open>restore\<close> repeats.\<close>

definition settle :: "uuid \<Rightarrow> uuid \<Rightarrow> timestamp \<Rightarrow> database
    \<Rightarrow> (CancelledItem list \<times> money \<times> nat \<times> database) result" where
  "settle session_id restaurant_id now d =
     (let cancelled = items_to_cancel session_id d;
          d1 = (if cancelled \<noteq> [] then auto_cancel ''table_closed'' session_id now d else d);
          amount = served_total session_id d1
      in case set_total session_id amount d1 of
           Inl x \<Rightarrow> Inl x
         | Inr d2 \<Rightarrow>
             (case dismiss_pending session_id restaurant_id now d2 of
                (n, d3) \<Rightarrow> Inr (cancelled, amount, n, d3)))"

text \<open>\<^verbatim>\<open>select(TableSession).where(id == session_id)\<close> through the identity map \<open>im\<close>.\<close>

definition orm_session :: "(uuid \<rightharpoonup> TableSession) \<Rightarrow> uuid \<Rightarrow> database \<Rightarrow> TableSession result" where
  "orm_session im session_id d =
     (case scalar_one (filter (\<lambda>s. ts_id s = session_id) (table_sessions d)) of
        Inl x \<Rightarrow> Inl x
      | Inr row \<Rightarrow> Inr (case im session_id of None \<Rightarrow> row | Some loaded \<Rightarrow> loaded))"

definition checkout :: "(uuid \<rightharpoonup> TableSession) \<Rightarrow> uuid \<Rightarrow> uuid \<Rightarrow> timestamp \<Rightarrow> database
    \<Rightarrow> (CheckoutResult option \<times> database) result" where
  "checkout im session_id restaurant_id now d =
     (case cas_session (session_where session_id restaurant_id OPEN) (close_set now) d of
        None \<Rightarrow> Inr (None, d)
      | Some (_, d1) \<Rightarrow>
          (case settle session_id restaurant_id now d1 of
             Inl x \<Rightarrow> Inl x
           | Inr (cancelled, amount, n, d2) \<Rightarrow>
               (case orm_session im session_id d2 of
                  Inl x \<Rightarrow> Inl x
                | Inr s \<Rightarrow> Inr (Some \<lparr>cr_session = s, cr_total_amount = amount,
                    cr_auto_cancelled_items = cancelled, cr_dismissed_calls_count = n\<rparr>, d2))))"

section \<open>Restoring an abandoned session\<close>

definition restore_set :: "timestamp \<Rightarrow> TableSession \<Rightarrow> TableSession" where
  "restore_set now s =
     s\<lparr>ts_status := OPEN, ts_abandoned_at := None, ts_last_activity_at := now\<rparr>"

text \<open>Path A: back to open. The unique index refuses a second open session of the table.\<close>

definition reopen :: "uuid \<Rightarrow> uuid \<Rightarrow> timestamp \<Rightarrow> database \<Rightarrow> database result" where
  "reopen session_id restaurant_id now d =
     (case first_row (filter (session_where session_id restaurant_id ABANDONED) (table_sessions d)) of
        None \<Rightarrow> Inl (ValueError RestoreRace)
      | Some s \<Rightarrow>
          if ts_table_id s \<in> set (open_tables d)
          then Inl (IntegrityError ''uq_one_open_session_per_table'')
          else Inr (d\<lparr>table_sessions := sql_update (session_where session_id restaurant_id ABANDONED)
                        (restore_set now) (table_sessions d)\<rparr>))"

text \<open>Path B: straight to closed.\<close>

definition close_abandoned :: "uuid \<Rightarrow> uuid \<Rightarrow> timestamp \<Rightarrow> database
    \<Rightarrow> (CancelledItem list \<times> money \<times> nat \<times> database) result" where
  "close_abandoned session_id restaurant_id now d =
     (case cas_session (session_where session_id restaurant_id ABANDONED) (close_set now) d of
        None \<Rightarrow> Inl (ValueError CheckoutRace)
      | Some (_, d1) \<Rightarrow> settle session_id restaurant_id now d1)"

definition restore :: "env \<Rightarrow> uuid \<Rightarrow> uuid \<Rightarrow> database \<Rightarrow> RestoreResult option result \<times> database" where
  "restore e session_id restaurant_id d =
     (case scalar_one_or_none (filter (\<lambda>s. ts_id s = session_id \<and> ts_restaurant_id s = restaurant_id)
             (table_sessions d)) of
        Inl x \<Rightarrow> (Inl x, d)
      | Inr None \<Rightarrow> (Inr None, d)
      | Inr (Some table_session) \<Rightarrow>
          if ts_status table_session \<noteq> ABANDONED then (Inl (ValueError OnlyAbandoned), d)
          else (case ts_abandoned_at table_session of
            None \<Rightarrow> (Inl (ValueError AbandonedAtMissing), d)
          | Some abandoned_at \<Rightarrow>
              if hours 24 < t_py e - abandoned_at then (Inl (ValueError Over24Hours), d)
              else (case find_open_session (ts_table_id table_session) d of
                Inl x \<Rightarrow> (Inl x, d)
              | Inr None \<Rightarrow>
                  (let d1 = others e 3 d
                   in case reopen session_id restaurant_id (t_db e) d1 of
                        Inl x \<Rightarrow> (Inl x, d1)
                      | Inr d2 \<Rightarrow>
                          (case orm_session [session_id \<mapsto> table_session] session_id d2 of
                             Inl x \<Rightarrow> (Inl x, d2)
                           | Inr s \<Rightarrow> (Inr (Some \<lparr>rr_session = s, rr_action = ''restored'',
                               rr_total_amount = None, rr_auto_cancelled_items = [],
                               rr_dismissed_calls_count = 0\<rparr>), d2)))
              | Inr (Some _) \<Rightarrow>
                  (let d1 = others e 3 d
                   in case close_abandoned session_id restaurant_id (t_db e) d1 of
                        Inl x \<Rightarrow> (Inl x, d1)
                      | Inr (cancelled, amount, n, d2) \<Rightarrow>
                          (case orm_session [session_id \<mapsto> table_session] session_id d2 of
                             Inl x \<Rightarrow> (Inl x, d2)
                           | Inr s \<Rightarrow> (Inr (Some \<lparr>rr_session = s, rr_action = ''checked_out'',
                               rr_total_amount = Some amount, rr_auto_cancelled_items = cancelled,
                               rr_dismissed_calls_count = n\<rparr>), d2))))))"

section \<open>What a settlement does\<close>

text \<open>
  The abstract effect of steps 1 to 6: one update per table, each on the state before the
  transaction, with the total of the items served before it.
\<close>

definition close_with :: "money \<Rightarrow> timestamp \<Rightarrow> TableSession \<Rightarrow> TableSession" where
  "close_with amount now s =
     s\<lparr>ts_status := CLOSED, ts_closed_at := Some now, ts_total_amount := Some amount\<rparr>"

definition settled :: "uuid \<Rightarrow> uuid \<Rightarrow> timestamp \<Rightarrow> database \<Rightarrow> database" where
  "settled session_id restaurant_id now d =
     d\<lparr>table_sessions := sql_update (\<lambda>s. ts_id s = session_id)
          (close_with (served_total session_id d) now) (table_sessions d),
       order_items := sql_update (unserved session_id d)
          (cancel_set BY_SYSTEM (Some ''table_closed'') now) (order_items d),
       staff_calls := sql_update (dismiss_where session_id restaurant_id)
          (\<lambda>c. c\<lparr>sc_status := CALL_ACKNOWLEDGED, sc_acknowledged_at := Some now\<rparr>)
          (staff_calls d)\<rparr>"

lemma in_session_frame [frame]:
  "in_session sid (d\<lparr>table_sessions := a\<rparr>) = in_session sid d"
  "in_session sid (d\<lparr>order_items := b\<rparr>) = in_session sid d"
  "in_session sid (d\<lparr>staff_calls := c\<rparr>) = in_session sid d"
  by (simp_all add: in_session_def fun_eq_iff)

lemma in_session_iff:
  "in_session sid d i \<longleftrightarrow> (\<exists>r \<in> set (orders d). o_id r = oi_order_id i \<and> o_table_session_id r = sid)"
  by (auto simp: in_session_def image_iff)

lemma unserved_frame [frame]:
  "unserved sid (d\<lparr>table_sessions := a\<rparr>) = unserved sid d"
  "unserved sid (d\<lparr>order_items := b\<rparr>) = unserved sid d"
  by (simp_all add: unserved_def fun_eq_iff frame)

lemma unserved_active: "unserved sid d i \<longleftrightarrow> in_session sid d i \<and> active (oi_status i)"
  by (cases "oi_status i") (simp_all add: unserved_def)

lemma served_total_frame [frame]:
  "served_total sid (d\<lparr>table_sessions := a\<rparr>) = served_total sid d"
  by (simp add: served_total_def frame)

lemma auto_cancel_nothing:
  assumes "items_to_cancel sid d = []"
  shows "auto_cancel reason sid now d = d"
  using assms by (simp add: items_to_cancel_def auto_cancel_def sql_update_id filter_empty_conv)

text \<open>Cancelling the unserved items leaves the bill alone.\<close>

lemma served_total_auto_cancel: "served_total sid (auto_cancel reason sid now d) = served_total sid d"
proof -
  let ?Q = "\<lambda>i. in_session sid d i \<and> oi_status i = SERVED"
  have "filter ?Q (sql_update (unserved sid d) (cancel_set BY_SYSTEM (Some reason) now) rows)
      = filter ?Q rows" for rows
    by (induction rows) (auto simp: sql_update_def unserved_def cancel_set_def in_session_def)
  then show ?thesis by (simp add: served_total_def auto_cancel_def frame)
qed

lemma merge_session_updates:
  assumes key: "unique_by ts_id rows" and "s \<in> set rows" and "session_where sid rid st s"
  shows "sql_update (\<lambda>x. ts_id x = sid) (\<lambda>x. x\<lparr>ts_total_amount := Some m\<rparr>)
      (sql_update (session_where sid rid st) (close_set now) rows)
    = sql_update (\<lambda>x. ts_id x = sid) (close_with m now) rows"
proof -
  have "session_where sid rid st x" if "x \<in> set rows" "ts_id x = sid" for x
    using unique_byD [OF key that(1) assms(2)] that(2) assms(3) by (auto simp: session_where_def)
  then show ?thesis
    by (auto simp: sql_update_def session_where_def close_set_def close_with_def)
qed

lemma settle_eq:
  "settle sid rid now d =
    (if fits_numeric_12_2 (served_total sid d)
     then Inr (items_to_cancel sid d, served_total sid d,
       dismiss_pending sid rid now ((auto_cancel ''table_closed'' sid now d)\<lparr>table_sessions :=
         sql_update (\<lambda>x. ts_id x = sid) (\<lambda>x. x\<lparr>ts_total_amount := Some (served_total sid d)\<rparr>)
           (table_sessions d)\<rparr>))
     else Inl (DBAPIError ''numeric field overflow''))"
proof -
  have "(if items_to_cancel sid d \<noteq> [] then auto_cancel r sid now d else d)
      = auto_cancel r sid now d" for r
    by (simp add: auto_cancel_nothing)
  moreover have "table_sessions (auto_cancel r sid now d) = table_sessions d" for r
    by (simp add: auto_cancel_def)
  ultimately show ?thesis
    by (simp add: settle_def Let_def served_total_auto_cancel set_total_def split: prod.splits)
qed

lemma settle_closed:
  assumes key: "unique_by ts_id (table_sessions d)"
    and s: "s \<in> set (table_sessions d)" "session_where sid rid st s"
  shows "settle sid rid now (d\<lparr>table_sessions :=
      sql_update (session_where sid rid st) (close_set now) (table_sessions d)\<rparr>)
    = (if fits_numeric_12_2 (served_total sid d)
       then Inr (items_to_cancel sid d, served_total sid d,
              length (filter (dismiss_where sid rid) (staff_calls d)), settled sid rid now d)
       else Inl (DBAPIError ''numeric field overflow''))"
proof -
  have "items_to_cancel sid (d\<lparr>table_sessions := a\<rparr>) = items_to_cancel sid d" for a
    by (simp add: items_to_cancel_def frame)
  then show ?thesis
    by (simp add: settle_eq frame auto_cancel_def dismiss_pending_def settled_def
        merge_session_updates [OF key s])
qed

lemma cas_session_None_iff:
  "cas_session P f d = None \<longleftrightarrow> (\<forall>s \<in> set (table_sessions d). \<not> P s)"
proof -
  have "cas_session P f d = None \<longleftrightarrow> first_row (sql_returning P f (table_sessions d)) = None"
    by (simp add: cas_session_def split: option.splits)
  then show ?thesis by (simp add: sql_returning_def filter_empty_conv)
qed

lemma cas_session_unique:
  assumes key: "unique_by ts_id (table_sessions d)" and P: "\<And>x. P x \<Longrightarrow> ts_id x = ts_id s"
    and s: "s \<in> set (table_sessions d)" "P s"
  shows "cas_session P f d = Some (f s, d\<lparr>table_sessions := sql_update P f (table_sessions d)\<rparr>)"
proof -
  have "filter P (table_sessions d) = filter (\<lambda>x. ts_id x = ts_id s \<and> P x) (table_sessions d)"
    using P by (intro filter_cong) auto
  with filter_unique [OF key s(1), of P] s(2) show ?thesis
    by (simp add: cas_session_def sql_returning_def)
qed

text \<open>Reading back one session by its key after an update of it.\<close>

lemma filter_key_update:
  assumes "unique_by ts_id rows" and "s \<in> set rows" and "keeps_session f"
  shows "filter (\<lambda>x. ts_id x = ts_id s) (sql_update (\<lambda>x. ts_id x = ts_id s) f rows) = [f s]"
  using assms by (intro select_updated) (simp_all add: keeps_defs)

lemma keeps_close_with: "keeps_session (close_with m now)"
  by (simp add: keeps_defs close_with_def)

lemma keeps_close_set: "keeps_session (close_set now)"
  by (simp add: keeps_defs close_set_def)

lemma keeps_restore_set: "keeps_session (restore_set now)"
  by (simp add: keeps_defs restore_set_def)

lemma orm_session_updated:
  assumes "unique_by ts_id (table_sessions d)" and "s \<in> set (table_sessions d)"
    and "keeps_session f"
    and "table_sessions d' = sql_update (\<lambda>x. ts_id x = ts_id s) f (table_sessions d)"
  shows "orm_session im (ts_id s) d' =
    Inr (case im (ts_id s) of None \<Rightarrow> f s | Some loaded \<Rightarrow> loaded)"
  using filter_key_update [OF assms(1-3)] by (simp add: orm_session_def assms(4))

lemma orm_session_settled:
  assumes "unique_by ts_id (table_sessions d)" and "s \<in> set (table_sessions d)"
  shows "orm_session im (ts_id s) (settled (ts_id s) rid now d) =
    Inr (case im (ts_id s) of None \<Rightarrow> close_with (served_total (ts_id s) d) now s
         | Some loaded \<Rightarrow> loaded)"
  by (rule orm_session_updated [OF assms keeps_close_with]) (simp add: settled_def)

text \<open>\<^verbatim>\<open>checkout\<close> on every branch.\<close>

lemma checkout_existing:
  assumes key: "unique_by ts_id (table_sessions d)" and s: "s \<in> set (table_sessions d)"
  shows "checkout im (ts_id s) (ts_restaurant_id s) now d =
    (if ts_status s \<noteq> OPEN then Inr (None, d)
     else if \<not> fits_numeric_12_2 (served_total (ts_id s) d)
     then Inl (DBAPIError ''numeric field overflow'')
     else Inr (Some
       \<lparr>cr_session = (case im (ts_id s) of None \<Rightarrow> close_with (served_total (ts_id s) d) now s
                      | Some loaded \<Rightarrow> loaded),
        cr_total_amount = served_total (ts_id s) d,
        cr_auto_cancelled_items = items_to_cancel (ts_id s) d,
        cr_dismissed_calls_count =
          length (filter (dismiss_where (ts_id s) (ts_restaurant_id s)) (staff_calls d))\<rparr>,
       settled (ts_id s) (ts_restaurant_id s) now d))"
proof (cases "ts_status s = OPEN")
  let ?P = "session_where (ts_id s) (ts_restaurant_id s) OPEN"
  {
    case False
    then have "cas_session ?P (close_set now) d = None"
      using unique_byD [OF key _ s] by (auto simp: cas_session_None_iff session_where_def)
    with False show ?thesis by (simp add: checkout_def)
  next
    case True
    then have P: "?P s" by (simp add: session_where_def)
    then have "cas_session ?P (close_set now) d = Some (close_set now s,
        d\<lparr>table_sessions := sql_update ?P (close_set now) (table_sessions d)\<rparr>)"
      by (intro cas_session_unique [OF key _ s]) (simp add: session_where_def)
    with True settle_closed [OF key s P] orm_session_settled [OF key s] show ?thesis
      by (simp add: checkout_def)
  }
qed

lemma checkout_missing:
  assumes "\<And>s. s \<in> set (table_sessions d) \<Longrightarrow> \<not> (ts_id s = sid \<and> ts_restaurant_id s = rid)"
  shows "checkout im sid rid now d = Inr (None, d)"
proof -
  have "cas_session (session_where sid rid OPEN) (close_set now) d = None"
    using assms by (auto simp: cas_session_None_iff session_where_def)
  then show ?thesis by (simp add: checkout_def)
qed

section \<open>The invariant of the database\<close>

lemma db_inv_settled:
  assumes "db_inv d"
  shows "db_inv (settled sid rid now d)"
proof -
  let ?d1 = "d\<lparr>table_sessions := sql_update (\<lambda>s. ts_id s = sid)
      (close_with (served_total sid d) now) (table_sessions d)\<rparr>"
  let ?d2 = "?d1\<lparr>order_items := sql_update (unserved sid d)
      (cancel_set BY_SYSTEM (Some ''table_closed'') now) (order_items ?d1)\<rparr>"
  have "db_inv ?d1"
  proof (rule db_inv_update_sessions [OF assms keeps_close_with])
    show "session_shape (close_with m now s)" for m s
      by (simp add: session_shape_def close_with_def)
    show "distinct (open_tables ?d1)"
      using db_invD(2) [OF assms]
      by (intro distinct_open_tables_close keeps_close_with)
        (simp_all add: one_open_session_per_table_def close_with_def)
  qed
  then have "db_inv ?d2"
    by (rule db_inv_update_items)
      (simp_all add: keeps_cancel_set unserved_active item_shape_cancel)
  moreover have "settled sid rid now d = snd (dismiss_pending sid rid now ?d2)"
    by (simp add: settled_def dismiss_pending_def)
  ultimately show ?thesis by (simp add: db_inv_dismiss_pending)
qed

lemma checkout_Some:
  assumes "db_inv d" and "checkout im sid rid now d = Inr (Some r, d')"
  obtains s where "s \<in> set (table_sessions d)" and "ts_id s = sid" and "ts_restaurant_id s = rid"
    and "ts_status s = OPEN" and "d' = settled sid rid now d" and "cr_total_amount r = served_total sid d"
proof (cases "\<exists>s \<in> set (table_sessions d). ts_id s = sid \<and> ts_restaurant_id s = rid")
  case False
  with assms(2) checkout_missing [of d sid rid im now] show thesis by auto
next
  case True
  then obtain s where "s \<in> set (table_sessions d)" "ts_id s = sid" "ts_restaurant_id s = rid" by blast
  with assms(2) checkout_existing [OF keys_okD(8) [OF db_invD(1) [OF assms(1)]], of s im now] that [of s]
  show thesis by (auto split: if_splits)
qed

lemma db_inv_checkout:
  assumes inv: "db_inv d" and c: "checkout im sid rid now d = Inr (r, d')"
  shows "db_inv d'"
proof (cases "\<exists>s \<in> set (table_sessions d). ts_id s = sid \<and> ts_restaurant_id s = rid")
  case False
  with c inv checkout_missing [of d sid rid im now] show ?thesis by auto
next
  case True
  then obtain s where "s \<in> set (table_sessions d)" "ts_id s = sid" "ts_restaurant_id s = rid"
    by blast
  with c inv checkout_existing [OF keys_okD(8) [OF db_invD(1) [OF inv]], of s im now]
  show ?thesis by (auto simp: db_inv_settled split: if_splits)
qed

section \<open>Opening a session under interference\<close>

lemma find_open_unique:
  assumes "one_open_session_per_table d"
  shows "filter (\<lambda>s. ts_table_id s = tid \<and> ts_status s = OPEN) (table_sessions d) = []
    \<or> (\<exists>s. filter (\<lambda>s. ts_table_id s = tid \<and> ts_status s = OPEN) (table_sessions d) = [s])"
proof -
  have "distinct (map ts_table_id (filter (\<lambda>s. ts_status s = OPEN) rows)) \<Longrightarrow>
      filter (\<lambda>s. ts_table_id s = tid \<and> ts_status s = OPEN) rows = [] \<or>
      (\<exists>s. filter (\<lambda>s. ts_table_id s = tid \<and> ts_status s = OPEN) rows = [s])" for rows
  proof (induction rows)
    case (Cons x rows)
    show ?case
    proof (cases "ts_table_id x = tid \<and> ts_status x = OPEN")
      case True
      with Cons.prems have "filter (\<lambda>s. ts_table_id s = tid \<and> ts_status s = OPEN) rows = []"
        by (auto simp: filter_empty_conv image_iff)
      with True show ?thesis by simp
    qed (use Cons in \<open>auto split: if_splits\<close>)
  qed simp
  with assms show ?thesis by (simp add: one_open_session_per_table_def open_tables_def)
qed

text \<open>Under the invariant the lookup never raises, and it finds the open session if there is one.\<close>

lemma find_open_session_eq:
  assumes "one_open_session_per_table d"
  shows "find_open_session tid d = Inr (first_row (filter (\<lambda>s. ts_table_id s = tid
    \<and> ts_status s = OPEN) (table_sessions d)))"
  using find_open_unique [OF assms, of tid] by (auto simp: find_open_session_def)

lemma find_open_session_Some:
  assumes "find_open_session tid d = Inr (Some s)"
  shows "s \<in> set (table_sessions d)" and "ts_table_id s = tid" and "ts_status s = OPEN"
    and "x \<in> set (table_sessions d) \<Longrightarrow> ts_table_id x = tid \<Longrightarrow> ts_status x = OPEN \<Longrightarrow> x = s"
proof -
  from assms have *: "filter (\<lambda>s. ts_table_id s = tid \<and> ts_status s = OPEN) (table_sessions d) = [s]"
    by (simp add: find_open_session_def scalar_one_or_none_Some_iff)
  from filter_eq_SingletonD [OF *] show "s \<in> set (table_sessions d)" "ts_table_id s = tid"
    "ts_status s = OPEN" by simp_all
  assume "x \<in> set (table_sessions d)" "ts_table_id x = tid" "ts_status x = OPEN"
  then have "x \<in> set (filter (\<lambda>s. ts_table_id s = tid \<and> ts_status s = OPEN) (table_sessions d))"
    by simp
  with * show "x = s" by simp
qed

lemma find_open_session_None:
  "find_open_session tid d = Inr None \<longleftrightarrow> tid \<notin> set (open_tables d)"
  by (auto simp: find_open_session_def scalar_one_or_none_None_iff filter_empty_conv open_tables_def)

lemma open_tableI:
  "s \<in> set (table_sessions d) \<Longrightarrow> ts_status s = OPEN \<Longrightarrow> ts_table_id s \<in> set (open_tables d)"
  by (simp add: open_tables_def)

lemma find_open_session_cases:
  assumes "db_inv d"
  obtains (none) "find_open_session tid d = Inr None" "tid \<notin> set (open_tables d)"
  | (some) s where "find_open_session tid d = Inr (Some s)" "s \<in> set (table_sessions d)"
      "ts_table_id s = tid" "ts_status s = OPEN"
proof (cases "find_open_session tid d")
  case (Inl x)
  with find_open_session_eq [OF db_invD(2) [OF assms]] show ?thesis by simp
next
  case (Inr found)
  then show ?thesis
    using none some find_open_session_None [of tid d] find_open_session_Some(1-3) [of tid d]
    by (cases found) auto
qed

lemma session_shape_new: "session_shape (new_session e tid rid by_user)"
  by (simp add: session_shape_def new_session_def)

text \<open>What the other connections may do: they keep the invariant, and no row of theirs disappears
  or changes its restaurant (the program deletes no such row).\<close>

definition grows :: "database \<Rightarrow> database \<Rightarrow> bool" where
  "grows d d' \<longleftrightarrow> (\<forall>r i. (table_of r i d \<longrightarrow> table_of r i d') \<and> (session_of r i d \<longrightarrow> session_of r i d')
     \<and> (order_of r i d \<longrightarrow> order_of r i d') \<and> (menu_item_of r i d \<longrightarrow> menu_item_of r i d')
     \<and> (call_of r i d \<longrightarrow> call_of r i d') \<and> (category_of r i d \<longrightarrow> category_of r i d')
     \<and> (user_of r i d \<longrightarrow> user_of r i d'))"

definition good_env :: "env \<Rightarrow> bool" where
  "good_env e \<longleftrightarrow> (\<forall>k d. db_inv d \<longrightarrow> db_inv (others e k d) \<and> grows d (others e k d))"

definition quiet_env :: "env \<Rightarrow> bool" where
  "quiet_env e \<longleftrightarrow> (\<forall>k d. others e k d = d)"

lemma grows_refl [simp]: "grows d d"
  by (simp add: grows_def)

lemma grows_trans: "grows d d' \<Longrightarrow> grows d' d'' \<Longrightarrow> grows d d''"
  by (simp add: grows_def)

lemma growsD:
  assumes "grows d d'"
  shows "table_of r i d \<Longrightarrow> table_of r i d'" and "session_of r i d \<Longrightarrow> session_of r i d'"
    and "order_of r i d \<Longrightarrow> order_of r i d'" and "menu_item_of r i d \<Longrightarrow> menu_item_of r i d'"
    and "call_of r i d \<Longrightarrow> call_of r i d'" and "category_of r i d \<Longrightarrow> category_of r i d'"
    and "user_of r i d \<Longrightarrow> user_of r i d'"
  using assms by (simp_all add: grows_def)

lemma good_envD:
  assumes "good_env e" and "db_inv d"
  shows "db_inv (others e k d)" and "grows d (others e k d)"
  using assms by (simp_all add: good_env_def)

lemma quiet_good: "quiet_env e \<Longrightarrow> good_env e"
  by (simp add: quiet_env_def good_env_def)

lemma quiet_others: "quiet_env e \<Longrightarrow> others e k d = d"
  by (simp add: quiet_env_def)

lemma grows_sessions:
  assumes "keeps_session f"
  shows "grows d (d\<lparr>table_sessions := sql_update P f (table_sessions d)\<rparr>)"
  using assms by (auto simp: grows_def table_of_def order_of_def menu_item_of_def also_of_defs)

lemma grows_append_session: "grows d (d\<lparr>table_sessions := table_sessions d @ ss\<rparr>)"
  by (auto simp: grows_def of_defs also_of_defs)

lemma db_inv_get_or_open:
  assumes inv: "db_inv d" and e: "good_env e" and t: "table_of rid tid d"
  shows "db_inv (snd (get_or_open e tid rid by_user d)) \<and> grows d (snd (get_or_open e tid rid by_user d))"
proof -
  let ?s = "new_session e tid rid by_user"
  have d1: "db_inv (others e 0 d)" "grows d (others e 0 d)" using good_envD [OF e inv] by simp_all
  have "db_inv d' \<and> grows d d'" if "insert_session ?s (others e 0 d) = Inr d'" for d'
  proof -
    have "d' = (others e 0 d)\<lparr>table_sessions := table_sessions (others e 0 d) @ [?s]\<rparr>"
      using that by (simp add: insert_Inr)
    moreover have "db_inv d'"
      using db_inv_insert_session [OF d1(1) that] session_shape_new growsD(1) [OF d1(2) t]
      by (simp add: new_session_def)
    ultimately show ?thesis using grows_trans [OF d1(2)] grows_append_session by blast
  qed
  note d2 = this good_envD [OF e] grows_trans
  have "db_inv (others e 1 (others e 0 d)) \<and> grows d (others e 1 (others e 0 d))"
    using good_envD [OF e d1(1), of 1] grows_trans [OF d1(2)] by blast
  moreover have "db_inv (others e 2 d') \<and> grows d (others e 2 d')"
    if "insert_session ?s (others e 0 d) = Inr d'" for d'
    using d2(1) [OF that] good_envD [OF e, of d' 2] grows_trans by blast
  ultimately show ?thesis using inv d1
    by (simp add: get_or_open_def Let_def split: sum.splits option.splits exn.splits)
qed

lemma quiet_insert_refresh:
  assumes "insert_session s d = Inr d'"
  shows "filter (\<lambda>x. ts_id x = ts_id s) (table_sessions d') = [s]"
  using assms by (force simp: insert_Inr filter_empty_conv image_iff)

section \<open>Restoring, on every branch\<close>

lemma restore_existing:
  assumes inv: "db_inv d" and s: "s \<in> set (table_sessions d)" and q: "quiet_env e"
  shows "restore e (ts_id s) (ts_restaurant_id s) d =
    (if ts_status s \<noteq> ABANDONED then (Inl (ValueError OnlyAbandoned), d)
     else if hours 24 < t_py e - the (ts_abandoned_at s) then (Inl (ValueError Over24Hours), d)
     else if ts_table_id s \<notin> set (open_tables d) then
       (Inr (Some \<lparr>rr_session = s, rr_action = ''restored'', rr_total_amount = None,
          rr_auto_cancelled_items = [], rr_dismissed_calls_count = 0\<rparr>),
        d\<lparr>table_sessions := sql_update (\<lambda>x. ts_id x = ts_id s) (restore_set (t_db e))
            (table_sessions d)\<rparr>)
     else if fits_numeric_12_2 (served_total (ts_id s) d) then
       (Inr (Some \<lparr>rr_session = s, rr_action = ''checked_out'',
          rr_total_amount = Some (served_total (ts_id s) d),
          rr_auto_cancelled_items = items_to_cancel (ts_id s) d,
          rr_dismissed_calls_count =
            length (filter (dismiss_where (ts_id s) (ts_restaurant_id s)) (staff_calls d))\<rparr>),
        settled (ts_id s) (ts_restaurant_id s) (t_db e) d)
     else (Inl (DBAPIError ''numeric field overflow''), d))"
proof -
  let ?P = "session_where (ts_id s) (ts_restaurant_id s) ABANDONED"
  note key = keys_okD(8) [OF db_invD(1) [OF inv]]
  have sel: "filter (\<lambda>x. ts_id x = ts_id s \<and> ts_restaurant_id x = ts_restaurant_id s)
      (table_sessions d) = [s]"
    using filter_unique [OF key s, of "\<lambda>x. ts_restaurant_id x = ts_restaurant_id s"] by simp
  show ?thesis
  proof (cases "ts_status s = ABANDONED")
    case False
    with sel show ?thesis by (simp add: restore_def)
  next
    case True
    then have P: "?P s" by (simp add: session_where_def)
    have uniq: "?P x \<longleftrightarrow> ts_id x = ts_id s" if "x \<in> set (table_sessions d)" for x
      using unique_byD [OF key that s] P by (auto simp: session_where_def)
    have sel2: "filter ?P (table_sessions d) = [s]"
      using filter_unique [OF key s, of ?P] P by (auto simp: session_where_def cong: filter_cong)
    have same: "sql_update ?P f (table_sessions d)
        = sql_update (\<lambda>x. ts_id x = ts_id s) f (table_sessions d)" for f
      using uniq by (simp add: sql_update_def)
    obtain t where t: "ts_abandoned_at s = Some t"
      using True db_inv_rowD(1) [OF inv s] by (auto simp: session_shape_def)
    have cas: "cas_session ?P (close_set (t_db e)) d = Some (close_set (t_db e) s,
        d\<lparr>table_sessions := sql_update ?P (close_set (t_db e)) (table_sessions d)\<rparr>)"
      using P by (intro cas_session_unique [OF key _ s]) (simp_all add: session_where_def)
    from inv show ?thesis
    proof (cases rule: find_open_session_cases [of _ "ts_table_id s"])
      case none
      have "orm_session [ts_id s \<mapsto> s] (ts_id s) (d\<lparr>table_sessions := sql_update
          (\<lambda>x. ts_id x = ts_id s) (restore_set (t_db e)) (table_sessions d)\<rparr>) = Inr s"
        by (subst orm_session_updated [OF key s keeps_restore_set]) simp_all
      with none sel sel2 same True t show ?thesis
        by (simp add: restore_def reopen_def quiet_others [OF q])
    next
      case (some x)
      then have "ts_table_id s \<in> set (open_tables d)"
        by (auto simp: open_tables_def image_iff)
      with some sel True t cas settle_closed [OF key s P] orm_session_settled [OF key s] show ?thesis
        by (simp add: restore_def close_abandoned_def quiet_others [OF q])
    qed
  qed
qed

lemma restore_missing:
  assumes "\<And>s. s \<in> set (table_sessions d) \<Longrightarrow> \<not> (ts_id s = sid \<and> ts_restaurant_id s = rid)"
  shows "restore e sid rid d = (Inr None, d)"
proof -
  have "filter (\<lambda>s. ts_id s = sid \<and> ts_restaurant_id s = rid) (table_sessions d) = []"
    using assms by (simp add: filter_empty_conv)
  then show ?thesis by (simp add: restore_def)
qed

lemma restore_refused:
  assumes "unique_by ts_id (table_sessions d)" and "s \<in> set (table_sessions d)" and "ts_status s \<noteq> ABANDONED"
  shows "restore e (ts_id s) (ts_restaurant_id s) d = (Inl (ValueError OnlyAbandoned), d)"
  using filter_unique [OF assms(1,2), of "\<lambda>x. ts_restaurant_id x = ts_restaurant_id s"] assms(3)
  by (simp add: restore_def)

text \<open>Opening one session of a table without an open one.\<close>

lemma distinct_open_tables_open:
  assumes rows: "table_sessions d = as @ s # bs" and P: "P s" "\<And>x. x \<in> set (as @ bs) \<Longrightarrow> \<not> P x"
    and f: "keeps_session f" and closed: "ts_status s \<noteq> OPEN"
    and free: "ts_table_id s \<notin> set (open_tables d)" and dist: "distinct (open_tables d)"
  shows "distinct (open_tables (d\<lparr>table_sessions := sql_update P f (table_sessions d)\<rparr>))"
proof -
  have "sql_update P f as = as" "sql_update P f bs = bs"
    using P(2) by (auto intro: sql_update_id)
  then have "sql_update P f (table_sessions d) = as @ f s # bs"
    using P(1) by (simp add: rows sql_update_def)
  then show ?thesis using f closed free dist
    by (auto simp: open_tables_def rows keeps_defs)
qed

lemma db_inv_reopen:
  assumes inv: "db_inv d" and r: "reopen sid rid now d = Inr d'"
  shows "db_inv d'"
proof -
  let ?P = "session_where sid rid ABANDONED"
  from r obtain s where s: "first_row (filter ?P (table_sessions d)) = Some s"
    and free: "ts_table_id s \<notin> set (open_tables d)"
    and d': "d' = d\<lparr>table_sessions := sql_update ?P (restore_set now) (table_sessions d)\<rparr>"
    by (auto simp: reopen_def split: option.splits if_splits)
  then have sin: "s \<in> set (table_sessions d)" and P: "?P s"
    by (auto simp: first_row_Some_iff dest: filter_eq_ConsD2)
  obtain as bs where rows: "table_sessions d = as @ s # bs" using sin by (meson split_list)
  have "unique_by ts_id (as @ s # bs)" using keys_okD(8) [OF db_invD(1) [OF inv]] rows by simp
  then have other: "\<not> ?P x" if "x \<in> set (as @ bs)" for x
    using that P by (auto simp: session_where_def) (metis image_eqI)+
  have "distinct (open_tables d')"
    unfolding d' by (rule distinct_open_tables_open [where P = ?P, OF rows P other keeps_restore_set])
      (use P free inv in \<open>auto simp: session_where_def db_inv_def one_open_session_per_table_def\<close>)
  then show ?thesis unfolding d'
    by (intro db_inv_update_sessions [OF inv keeps_restore_set])
      (simp_all add: session_where_def session_shape_def restore_set_def)
qed

lemma close_abandoned_Inr:
  assumes inv: "db_inv d" and c: "close_abandoned sid rid now d = Inr (cs, amount, n, d')"
  obtains s where "s \<in> set (table_sessions d)" and "session_where sid rid ABANDONED s"
    and "d' = settled sid rid now d" and "amount = served_total sid d"
proof -
  let ?P = "session_where sid rid ABANDONED"
  from c obtain row d1 where cas: "cas_session ?P (close_set now) d = Some (row, d1)"
    and st: "settle sid rid now d1 = Inr (cs, amount, n, d')"
    by (auto simp: close_abandoned_def split: option.splits)
  then have "cas_session ?P (close_set now) d \<noteq> None" by simp
  then obtain s where s: "s \<in> set (table_sessions d)" "?P s"
    by (subst (asm) cas_session_None_iff) blast
  from cas have "d1 = d\<lparr>table_sessions := sql_update ?P (close_set now) (table_sessions d)\<rparr>"
    by (auto simp: cas_session_def split: option.splits)
  with st settle_closed [OF keys_okD(8) [OF db_invD(1) [OF inv]] s]
  show thesis by (intro that [OF s]) (auto split: if_splits)
qed

lemma db_inv_restore:
  assumes inv: "db_inv d" and e: "good_env e"
  shows "db_inv (snd (restore e sid rid d))"
proof -
  have "db_inv d'" if "reopen sid rid (t_db e) (others e 3 d) = Inr d'" for d'
    using db_inv_reopen [OF good_envD(1) [OF e inv, of 3] that] .
  moreover have "db_inv d'"
    if "close_abandoned sid rid (t_db e) (others e 3 d) = Inr (cs, amount, n, d')" for cs amount n d'
    using that by (rule close_abandoned_Inr [OF good_envD(1) [OF e inv]])
      (simp add: db_inv_settled good_envD(1) [OF e inv])
  ultimately show ?thesis
    using inv good_envD(1) [OF e inv]
    by (simp add: restore_def Let_def split: sum.splits option.splits prod.splits)
qed

section \<open>The transitions as compare-and-swaps\<close>

definition session_status :: "uuid \<Rightarrow> database \<Rightarrow> SessionStatus option" where
  "session_status session_id d =
     map_option ts_status (first_row (filter (\<lambda>s. ts_id s = session_id) (table_sessions d)))"

definition run_checkout :: "(uuid \<rightharpoonup> TableSession) \<Rightarrow> uuid \<Rightarrow> uuid \<Rightarrow> timestamp \<Rightarrow> database
    \<Rightarrow> database option" where
  "run_checkout im sid rid now d =
     (case checkout im sid rid now d of Inr (Some _, d') \<Rightarrow> Some d' | _ \<Rightarrow> None)"

definition run_reopen :: "uuid \<Rightarrow> uuid \<Rightarrow> timestamp \<Rightarrow> database \<Rightarrow> database option" where
  "run_reopen sid rid now d = (case reopen sid rid now d of Inl _ \<Rightarrow> None | Inr d' \<Rightarrow> Some d')"

definition run_close_abandoned :: "uuid \<Rightarrow> uuid \<Rightarrow> timestamp \<Rightarrow> database \<Rightarrow> database option" where
  "run_close_abandoned sid rid now d =
     (case close_abandoned sid rid now d of Inl _ \<Rightarrow> None | Inr (_, _, _, d') \<Rightarrow> Some d')"

lemma session_status_eq:
  assumes "unique_by ts_id (table_sessions d)" and "s \<in> set (table_sessions d)"
  shows "session_status (ts_id s) d = Some (ts_status s)"
  using filter_unique [OF assms, of "\<lambda>_. True"] by (simp add: session_status_def)

lemma session_status_updated:
  assumes "unique_by ts_id (table_sessions d)" and "s \<in> set (table_sessions d)" and "keeps_session f"
    and "table_sessions d' = sql_update (\<lambda>x. ts_id x = ts_id s) f (table_sessions d)"
  shows "session_status (ts_id s) d' = Some (ts_status (f s))"
  using filter_key_update [OF assms(1-3)] by (simp add: session_status_def assms(4))

lemma run_checkout_Some:
  assumes inv: "db_inv d" and r: "run_checkout im sid rid now d = Some d'"
  shows "\<exists>s \<in> set (table_sessions d). ts_id s = sid \<and> ts_restaurant_id s = rid \<and> ts_status s = OPEN
    \<and> d' = settled sid rid now d"
proof (cases "\<exists>s \<in> set (table_sessions d). ts_id s = sid \<and> ts_restaurant_id s = rid")
  case False
  with r checkout_missing [of d sid rid im now] show ?thesis by (auto simp: run_checkout_def)
next
  case True
  then obtain s where "s \<in> set (table_sessions d)" "ts_id s = sid" "ts_restaurant_id s = rid"
    by blast
  with r checkout_existing [OF keys_okD(8) [OF db_invD(1) [OF inv]], of s im now]
  show ?thesis by (auto simp: run_checkout_def split: if_splits)
qed

lemma run_close_abandoned_Some:
  assumes inv: "db_inv d" and r: "run_close_abandoned sid rid now d = Some d'"
  shows "\<exists>s \<in> set (table_sessions d). session_where sid rid ABANDONED s
    \<and> d' = settled sid rid now d"
proof -
  from r obtain cs amount n where "close_abandoned sid rid now d = Inr (cs, amount, n, d')"
    by (auto simp: run_close_abandoned_def split: sum.splits)
  with inv show ?thesis by (rule close_abandoned_Inr) blast
qed

interpretation checkout_cas: status_cas db_inv "run_checkout im sid rid now" "session_status sid"
  "{OPEN}" CLOSED for im sid rid now
proof (unfold_locales, goal_cases)
  case (1 d d')
  then show ?case by (auto dest: run_checkout_Some intro: db_inv_settled)
next
  case (2 d d')
  then show ?case
    using session_status_eq [OF keys_okD(8) [OF db_invD(1) [OF 2(1)]]]
    by (fastforce dest: run_checkout_Some)
next
  case (3 d d')
  then obtain s where s: "s \<in> set (table_sessions d)" "ts_id s = sid"
    and d': "d' = settled sid rid now d" by (blast dest: run_checkout_Some)
  have "session_status (ts_id s) d' = Some (ts_status (close_with (served_total sid d) now s))"
    by (rule session_status_updated [OF keys_okD(8) [OF db_invD(1) [OF 3(1)]] s(1) keeps_close_with])
      (simp add: d' settled_def s(2))
  with s(2) show ?case by (simp add: close_with_def)
qed

interpretation reopen_cas: status_cas db_inv "run_reopen sid rid now" "session_status sid"
  "{ABANDONED}" OPEN for sid rid now
proof (unfold_locales, goal_cases)
  case (1 d d')
  then show ?case by (auto simp: run_reopen_def intro: db_inv_reopen split: sum.splits)
next
  case (2 d d')
  then obtain s where "first_row (filter (session_where sid rid ABANDONED) (table_sessions d)) = Some s"
    by (auto simp: run_reopen_def reopen_def split: option.splits if_splits)
  then have "s \<in> set (table_sessions d)" "session_where sid rid ABANDONED s"
    by (auto simp: first_row_Some_iff dest: filter_eq_ConsD2)
  with session_status_eq [OF keys_okD(8) [OF db_invD(1) [OF 2(1)]]] show ?case
    by (auto simp: session_where_def)
next
  case (3 d d')
  let ?P = "session_where sid rid ABANDONED"
  from 3(2) obtain s where "first_row (filter ?P (table_sessions d)) = Some s"
    and d': "d' = d\<lparr>table_sessions := sql_update ?P (restore_set now) (table_sessions d)\<rparr>"
    by (auto simp: run_reopen_def reopen_def split: option.splits if_splits)
  then have s: "s \<in> set (table_sessions d)" "?P s"
    by (auto simp: first_row_Some_iff dest: filter_eq_ConsD2)
  note key = keys_okD(8) [OF db_invD(1) [OF 3(1)]]
  have "?P x \<longleftrightarrow> ts_id x = ts_id s" if "x \<in> set (table_sessions d)" for x
    using unique_byD [OF key that s(1)] s(2) by (auto simp: session_where_def)
  then have "session_status (ts_id s) d' = Some (ts_status (restore_set now s))"
    by (intro session_status_updated [OF key s(1) keeps_restore_set]) (simp add: d' sql_update_def)
  with s(2) show ?case by (simp add: restore_set_def session_where_def)
qed

interpretation close_abandoned_cas: status_cas db_inv "run_close_abandoned sid rid now"
  "session_status sid" "{ABANDONED}" CLOSED for sid rid now
proof (unfold_locales, goal_cases)
  case (1 d d')
  then show ?case by (auto dest: run_close_abandoned_Some intro: db_inv_settled)
next
  case (2 d d')
  then show ?case using session_status_eq [OF keys_okD(8) [OF db_invD(1) [OF 2(1)]]]
    by (fastforce dest: run_close_abandoned_Some simp: session_where_def)
next
  case (3 d d')
  then obtain s where s: "s \<in> set (table_sessions d)" "session_where sid rid ABANDONED s"
    and d': "d' = settled sid rid now d" by (blast dest: run_close_abandoned_Some)
  have id: "ts_id s = sid" using s(2) by (simp add: session_where_def)
  have "session_status (ts_id s) d' = Some (ts_status (close_with (served_total sid d) now s))"
    by (rule session_status_updated [OF keys_okD(8) [OF db_invD(1) [OF 3(1)]] s(1) keeps_close_with])
      (simp add: d' settled_def id)
  with id show ?case by (simp add: close_with_def)
qed

text \<open>Two requests to restore the same session: the compare-and-swap of one of them fails.\<close>

interpretation reopen_then_close: cas_race db_inv "run_reopen sid rid now" "session_status sid"
  "{ABANDONED}" OPEN "run_close_abandoned sid rid' now'" "{ABANDONED}" CLOSED
  for sid rid now rid' now'
  by unfold_locales simp

interpretation close_then_reopen: cas_race db_inv "run_close_abandoned sid rid now"
  "session_status sid" "{ABANDONED}" CLOSED "run_reopen sid rid' now'" "{ABANDONED}" OPEN
  for sid rid now rid' now'
  by unfold_locales simp

section \<open>What opening does\<close>

lemma open_session_unique:
  assumes "db_inv d" and "x \<in> set (table_sessions d)" "ts_table_id x = tid" "ts_status x = OPEN"
    and "y \<in> set (table_sessions d)" "ts_table_id y = tid" "ts_status y = OPEN"
  shows "x = y"
  using assms(1)
proof (cases rule: find_open_session_cases [of _ tid])
  case none
  with assms show ?thesis by (auto simp: open_tables_def)
next
  case (some s)
  with find_open_session_Some(4) [OF some(1)] assms show ?thesis by metis
qed

lemma get_or_open_Inr:
  assumes r: "get_or_open e tid rid by_user d = (Inr (s, rolled_back), d')"
    and gap: "others e 2 = (\<lambda>d. d)"
  shows "s \<in> set (table_sessions d') \<and> ts_table_id s = tid \<and> ts_status s = OPEN"
proof -
  let ?s = "new_session e tid rid by_user"
  have ins: "s' = ?s \<and> ?s \<in> set (table_sessions d2)"
    if "insert_session ?s d1 = Inr d2"
      and "scalar_one (filter (\<lambda>x. ts_id x = gen e 0) (table_sessions d2)) = Inr s'" for d1 d2 s'
    using quiet_insert_refresh [OF that(1)] that(2) filter_eq_SingletonD(1)
    by (fastforce simp: new_session_def)
  have "ts_table_id ?s = tid" "ts_status ?s = OPEN" by (simp_all add: new_session_def)
  with r gap show ?thesis
    by (auto simp: get_or_open_def Let_def dest!: ins
        dest: find_open_session_Some split: sum.splits option.splits exn.splits)
qed

lemma select_open_session:
  assumes "db_inv d" and "s \<in> set (table_sessions d)" and "ts_table_id s = tid" and "ts_status s = OPEN"
  shows "filter (\<lambda>x. ts_table_id x = tid \<and> ts_status x = OPEN) (table_sessions d) = [s]"
proof -
  have "filter (\<lambda>x. ts_table_id x = tid \<and> ts_status x = OPEN) (table_sessions d) \<noteq> []"
    using assms(2-4) by (auto simp: filter_empty_conv)
  then obtain x where x: "filter (\<lambda>x. ts_table_id x = tid \<and> ts_status x = OPEN) (table_sessions d) = [x]"
    using find_open_unique [OF db_invD(2) [OF assms(1)]] by blast
  with open_session_unique [OF assms(1), of x tid s] assms(2-4) filter_eq_SingletonD [OF x] show ?thesis by simp
qed

text \<open>The session that is returned was found, or inserted and read back after a gap.\<close>

lemma get_or_open_cases:
  assumes "get_or_open e tid rid by_user d = (Inr (s, rolled_back), d')"
  obtains (found) "s \<in> set (table_sessions d')" "ts_table_id s = tid" "ts_status s = OPEN"
  | (inserted) d2 where "insert_session (new_session e tid rid by_user) (others e 0 d) = Inr d2"
      "d' = others e 2 d2" "s \<in> set (table_sessions d')" "ts_id s = gen e 0"
proof -
  have row: "x \<in> set rows \<and> ts_id x = gen e 0"
    if "scalar_one (filter (\<lambda>x. ts_id x = gen e 0) rows) = Inr x" for x rows
    using that filter_eq_SingletonD by (force simp: scalar_one_Inr_iff)
  show thesis
    using assms that
    by (auto simp: get_or_open_def Let_def dest: find_open_session_Some dest!: row
        split: sum.splits option.splits exn.splits)
qed

text \<open>Opening a free table: one row is inserted.\<close>

lemma get_or_open_fresh:
  assumes inv: "db_inv d" and free: "tid \<notin> set (open_tables d)" and gaps: "others e 0 = (\<lambda>d. d)"
    "others e 2 = (\<lambda>d. d)"
    and fk: "fk_restaurant rid d" "fk_table tid d" "fk_user by_user d"
    and fresh: "gen e 0 \<notin> ts_id ` set (table_sessions d)"
  shows "get_or_open e tid rid by_user d =
    (Inr (new_session e tid rid by_user, False),
     d\<lparr>table_sessions := table_sessions d @ [new_session e tid rid by_user]\<rparr>)"
proof -
  let ?s = "new_session e tid rid by_user"
  have "insert_session ?s d = Inr (d\<lparr>table_sessions := table_sessions d @ [?s]\<rparr>)"
    using free fk fresh by (simp add: insert_Inr new_session_def)
  moreover from this have "filter (\<lambda>x. ts_id x = gen e 0) (table_sessions d @ [?s]) = [?s]"
    using quiet_insert_refresh [of ?s d] by (simp add: new_session_def)
  ultimately show ?thesis using find_open_session_None [of tid d] free gaps
    by (simp add: get_or_open_def)
qed

text \<open>The bill after one served item is no longer served.\<close>

lemma served_total_undo:
  assumes "unique_by oi_id (order_items d)" and "i \<in> set (order_items d)" and "in_session sid d i"
    and "oi_status i = SERVED" and "oi_status (f i) \<noteq> SERVED"
  shows "served_total sid d = served_total sid (d\<lparr>order_items := sql_update (\<lambda>x. oi_id x = oi_id i) f (order_items d)\<rparr>)
    + oi_price_snapshot i * oi_quantity i"
proof -
  let ?P = "\<lambda>x. in_session sid d x \<and> oi_status x = SERVED" and ?g = "\<lambda>x. oi_price_snapshot x * oi_quantity x"
  have "sum_list (map ?g (filter ?P rows))
      = sum_list (map ?g (filter ?P (map (\<lambda>x. if x = i then f i else x) rows))) + ?g i"
    if "distinct rows" "i \<in> set rows" for rows
    using that
  proof (induction rows)
    case (Cons x rows)
    have other: "map (\<lambda>x. if x = i then f i else x) rows = rows" if "i \<notin> set rows"
      using that by (intro map_idI) auto
    show ?case using Cons assms(3-5) other by (cases "x = i") auto
  qed simp
  moreover have "distinct (order_items d)" using assms(1) by (simp add: unique_by_def distinct_map)
  ultimately show ?thesis
    using assms(2) by (simp add: served_total_def frame sql_update_unique [OF assms(1,2)])
qed

section \<open>Properties\<close>

text \<open>What holds of a session once it is settled, for the statement of the next property.\<close>

definition bill_settled :: "uuid \<Rightarrow> uuid \<Rightarrow> money \<Rightarrow> timestamp \<Rightarrow> database \<Rightarrow> bool" where
  "bill_settled sid rid amount now d \<longleftrightarrow>
     (\<exists>s \<in> set (table_sessions d). ts_id s = sid \<and> ts_status s = CLOSED
        \<and> ts_closed_at s = Some now \<and> ts_total_amount s = Some amount)
     \<and> amount = served_total sid d
     \<and> (\<forall>i \<in> set (order_items d). in_session sid d i \<longrightarrow> \<not> active (oi_status i))
     \<and> (\<forall>c \<in> set (staff_calls d). \<not> dismiss_where sid rid c)"

lemma settled_frame [frame]:
  "orders (settled sid rid now d) = orders d"
  "in_session sid' (settled sid rid now d) = in_session sid' d"
  by (simp_all add: settled_def in_session_def fun_eq_iff)

lemma served_total_settled: "served_total sid (settled sid rid now d) = served_total sid d"
proof -
  have "served_total sid (settled sid rid now d)
      = served_total sid (auto_cancel ''table_closed'' sid now d)"
    by (simp add: served_total_def frame) (simp add: settled_def auto_cancel_def frame)
  then show ?thesis by (simp add: served_total_auto_cancel)
qed

lemma bill_settled_settled:
  assumes "s \<in> set (table_sessions d)"
  shows "bill_settled (ts_id s) rid (served_total (ts_id s) d) now (settled (ts_id s) rid now d)"
  unfolding bill_settled_def
proof (intro conjI)
  show "\<exists>x \<in> set (table_sessions (settled (ts_id s) rid now d)). ts_id x = ts_id s
      \<and> ts_status x = CLOSED \<and> ts_closed_at x = Some now
      \<and> ts_total_amount x = Some (served_total (ts_id s) d)"
    using assms by (auto simp: settled_def bex_sql_update close_with_def)
  show "served_total (ts_id s) d = served_total (ts_id s) (settled (ts_id s) rid now d)"
    by (simp add: served_total_settled)
  show "\<forall>i \<in> set (order_items (settled (ts_id s) rid now d)).
      in_session (ts_id s) (settled (ts_id s) rid now d) i \<longrightarrow> \<not> active (oi_status i)"
    by (simp add: frame) (simp add: settled_def ball_sql_update unserved_active cancel_set_def)
  show "\<forall>c \<in> set (staff_calls (settled (ts_id s) rid now d)). \<not> dismiss_where (ts_id s) rid c"
    by (simp add: settled_def ball_sql_update dismiss_where_def)
qed

text \<open>
  C1 (checkout). Checking out an open session whose bill fits the column (NUMERIC(12, 2)) closes it with the bill of its
  served items, to the hundredth: afterwards the session is closed at the time of the transaction, its total is the sum
  of price times quantity over the items that are served, no item of it is still active and no
  call of it is pending; the answer reports that total and exactly the items that were cancelled.
  No item of any other session, no other session and no served item changes.
\<close>

theorem checkout_settles_bill:
  assumes "db_inv d" and "s \<in> set (table_sessions d)" and "ts_status s = OPEN"
    and "fits_numeric_12_2 (served_total (ts_id s) d)"
  shows "\<exists>r d'. checkout im (ts_id s) (ts_restaurant_id s) now d = Inr (Some r, d')
    \<and> bill_settled (ts_id s) (ts_restaurant_id s) (cr_total_amount r) now d'
    \<and> cr_total_amount r = served_total (ts_id s) d
    \<and> map ci_id (cr_auto_cancelled_items r)
        = map oi_id (filter (\<lambda>i. in_session (ts_id s) d i \<and> active (oi_status i)) (order_items d))
    \<and> (\<forall>i \<in> set (order_items d). \<not> (in_session (ts_id s) d i \<and> active (oi_status i))
          \<longrightarrow> i \<in> set (order_items d'))
    \<and> (\<forall>x \<in> set (table_sessions d). ts_id x \<noteq> ts_id s \<longrightarrow> x \<in> set (table_sessions d'))"
proof -
  note c = checkout_existing [OF keys_okD(8) [OF db_invD(1) [OF assms(1)]] assms(2), of im now]
  have "i \<in> set (order_items (settled sid rid now d))"
    if "i \<in> set (order_items d)" "\<not> unserved sid d i" for i sid rid
    using that by (auto simp: settled_def set_sql_update)
  moreover have "x \<in> set (table_sessions (settled sid rid now d))"
    if "x \<in> set (table_sessions d)" "ts_id x \<noteq> sid" for x sid rid
    using that by (auto simp: settled_def set_sql_update)
  ultimately show ?thesis
    using assms bill_settled_settled [OF assms(2)]
    by (simp add: c items_to_cancel_def unserved_active [abs_def] comp_def)
qed

lemma checkout_settles_bill_witness:
  "\<exists>r d'. checkout Map.empty 50 1 (hours 4) demo = Inr (Some r, d')
     \<and> bill_settled 50 1 (cr_total_amount r) (hours 4) d' \<and> cr_total_amount r = 9000000
     \<and> map ci_id (cr_auto_cancelled_items r) = [71]"
proof -
  have "demo_session 50 20 OPEN None \<in> set (table_sessions demo)" by (simp add: demo_def)
  moreover have "served_total 50 demo = 9000000"
    by (simp add: served_total_def in_session_def demo_def demo_rows)
  moreover have "map oi_id (filter (\<lambda>i. in_session 50 demo i \<and> active (oi_status i))
      (order_items demo)) = [71]"
    by (simp add: in_session_def demo_def demo_rows)
  ultimately show ?thesis
    using checkout_settles_bill [OF demo_inv, of "demo_session 50 20 OPEN None" Map.empty "hours 4"]
    by (auto simp: demo_session_def fits_numeric_12_2_def)
qed

text \<open>
  C4 (one open session). Whatever the other connections commit between its statements (as long as they keep the
  invariant and delete nothing), \<^verbatim>\<open>get_or_open\<close> leaves at most one open session per table, and the session it
  returns is a row of the database: either the one open session of the table, or the session that it inserted itself,
  which was the one open session when the insertion was committed and which others changed before it was read
  again. If nobody commits between this commit and the reading, it is the one open session in any case.
\<close>

theorem get_or_open_returns_the_open_session:
  assumes "db_inv d" and "good_env e" and "table_of rid tid d"
    and "get_or_open e tid rid by_user d = (Inr (s, rolled_back), d')"
  shows "db_inv d' \<and> s \<in> set (table_sessions d')
    \<and> (filter (\<lambda>x. ts_table_id x = tid \<and> ts_status x = OPEN) (table_sessions d') = [s]
       \<or> ts_id s = gen e 0 \<and> (\<exists>d2. db_inv d2 \<and> d' = others e 2 d2
           \<and> filter (\<lambda>x. ts_table_id x = tid \<and> ts_status x = OPEN) (table_sessions d2)
             = [new_session e tid rid by_user]))
    \<and> (others e 2 = (\<lambda>d. d) \<longrightarrow>
         filter (\<lambda>x. ts_table_id x = tid \<and> ts_status x = OPEN) (table_sessions d') = [s])"
proof -
  have inv: "db_inv d'" using db_inv_get_or_open [OF assms(1-3), of by_user] assms(4) by simp
  have quiet: "filter (\<lambda>x. ts_table_id x = tid \<and> ts_status x = OPEN) (table_sessions d') = [s]"
    if "others e 2 = (\<lambda>d. d)"
    using get_or_open_Inr [OF assms(4) that] by (intro select_open_session [OF inv]) simp_all
  from assms(4) show ?thesis
  proof (cases rule: get_or_open_cases)
    case found
    then show ?thesis using inv select_open_session [OF inv] by blast
  next
    case (inserted d2)
    have "db_inv d2"
      using db_inv_insert_session [OF good_envD(1) [OF assms(2,1)] inserted(1)] session_shape_new
        growsD(1) [OF good_envD(2) [OF assms(2,1)] assms(3)] by (simp add: new_session_def)
    moreover have "filter (\<lambda>x. ts_table_id x = tid \<and> ts_status x = OPEN) (table_sessions d2)
        = [new_session e tid rid by_user]"
      by (rule select_open_session [OF calculation]) (use inserted(1) in \<open>auto simp: insert_Inr new_session_def\<close>)
    ultimately show ?thesis using inv inserted(2-4) quiet by blast
  qed
qed

lemma get_or_open_returns_the_open_session_witness:
  "\<exists>s d'. get_or_open demo_env 21 1 None demo = (Inr (s, False), d') \<and> ts_id s = 100
    \<and> filter (\<lambda>x. ts_table_id x = 21 \<and> ts_status x = OPEN) (table_sessions d') = [s]"
proof -
  let ?s = "new_session demo_env 21 1 None"
  have r: "get_or_open demo_env 21 1 None demo = (Inr (?s, False),
      demo\<lparr>table_sessions := table_sessions demo @ [?s]\<rparr>)"
    by (rule get_or_open_fresh) (simp_all add: fun_eq_iff)
  moreover have "good_env demo_env" by (simp add: good_env_def del: demo_inv)
  moreover have "table_of 1 21 demo" by simp
  moreover have "others demo_env 2 = (\<lambda>d. d)" by (simp add: demo_env_def)
  moreover have "ts_id ?s = 100" by (simp add: new_session_def)
  ultimately show ?thesis
    using get_or_open_returns_the_open_session [OF demo_inv, of demo_env 1 21 None ?s False]
    by blast
qed

text \<open>
  C9 (the loser of the race). When two requests open the same free table and the second one's
  lookup runs before the first one's \<^verbatim>\<open>INSERT\<close>, the unique index refuses the second \<^verbatim>\<open>INSERT\<close>; after
  its rollback the second request finds the session of the first, so both get the same session and
  one row is inserted.
\<close>

theorem get_or_open_race:
  assumes "db_inv d" and "tid \<notin> set (open_tables d)"
    and "fk_restaurant rid d" and "fk_table tid d" and "fk_user by1 d"
    and "gen e1 0 \<notin> ts_id ` set (table_sessions d)"
    and "others e1 0 = (\<lambda>d. d)" and "others e1 2 = (\<lambda>d. d)"
    and "others e2 0 = (\<lambda>d. snd (get_or_open e1 tid rid by1 d))" and "others e2 1 = (\<lambda>d. d)"
  shows "\<exists>s. fst (get_or_open e1 tid rid by1 d) = Inr (s, False)
    \<and> get_or_open e2 tid rid by2 d = (Inr (s, True), snd (get_or_open e1 tid rid by1 d))
    \<and> table_sessions (snd (get_or_open e1 tid rid by1 d)) = table_sessions d @ [s]"
proof -
  let ?s = "new_session e1 tid rid by1" and ?t = "new_session e2 tid rid by2"
  let ?d = "d\<lparr>table_sessions := table_sessions d @ [?s]\<rparr>"
  have first: "get_or_open e1 tid rid by1 d = (Inr (?s, False), ?d)"
    using assms by (intro get_or_open_fresh) simp_all
  have "ts_table_id ?t \<in> set (open_tables ?d)" "ts_status ?t = OPEN"
    by (simp_all add: open_tables_def new_session_def)
  then have "\<exists>n. insert_session ?t ?d = Inl (IntegrityError n)"
    by (simp add: insert_session_def)
  moreover have "find_open_session tid ?d = Inr (Some ?s)"
  proof -
    have "filter (\<lambda>s. ts_table_id s = tid \<and> ts_status s = OPEN) (table_sessions d) = []"
      using assms(2) by (auto simp: open_tables_def filter_empty_conv)
    then show ?thesis by (simp add: find_open_session_def new_session_def)
  qed
  moreover have "find_open_session tid d = Inr None"
    using assms(2) by (simp add: find_open_session_None)
  ultimately have "get_or_open e2 tid rid by2 d = (Inr (?s, True), ?d)"
    using first assms(9,10) by (auto simp: get_or_open_def)
  with first show ?thesis by simp
qed

lemma get_or_open_race_witness:
  "\<exists>s. get_or_open (demo_env\<lparr>others := (\<lambda>k d. if k = 0 then snd (get_or_open demo_env 21 1 None d) else d)\<rparr>)
      21 1 (Some 10) demo = (Inr (s, True), snd (get_or_open demo_env 21 1 None demo))"
proof -
  let ?e = "demo_env\<lparr>others := (\<lambda>k d. if k = 0 then snd (get_or_open demo_env 21 1 None d) else d)\<rparr>"
  have "others demo_env 0 = (\<lambda>d. d)" "others demo_env 2 = (\<lambda>d. d)"
    "others ?e 1 = (\<lambda>d. d)" "others ?e 0 = (\<lambda>d. snd (get_or_open demo_env 21 1 None d))"
    by (simp_all add: fun_eq_iff)
  then show ?thesis
    using get_or_open_race [OF demo_inv, of 21 1 None demo_env ?e "Some 10"] by force
qed

text \<open>
  C6 (restore). Restoring an abandoned session, with no interference. Later than 24 hours after it
  was marked, it is refused and nothing changes. Otherwise, if its table has no open session, it is
  open again, its marking is gone and no order item changes; if the table has one, it is closed
  with the bill of its served items, as a checkout would have done.
\<close>

theorem restore_paths:
  assumes "db_inv d" and "s \<in> set (table_sessions d)" and "quiet_env e"
    and "ts_status s = ABANDONED" and "ts_abandoned_at s = Some t"
    and "fits_numeric_12_2 (served_total (ts_id s) d)"
    and "restore e (ts_id s) (ts_restaurant_id s) d = (r, d')"
  shows "if hours 24 < t_py e - t then r = Inl (ValueError Over24Hours) \<and> d' = d
    else if ts_table_id s \<notin> set (open_tables d) then
      (\<exists>x. r = Inr (Some x) \<and> rr_action x = ''restored'' \<and> rr_total_amount x = None)
      \<and> session_status (ts_id s) d' = Some OPEN \<and> ts_table_id s \<in> set (open_tables d')
      \<and> order_items d' = order_items d \<and> db_inv d'
    else (\<exists>x. r = Inr (Some x) \<and> rr_action x = ''checked_out''
        \<and> rr_total_amount x = Some (served_total (ts_id s) d))
      \<and> bill_settled (ts_id s) (ts_restaurant_id s) (served_total (ts_id s) d) (t_db e) d'
      \<and> open_tables d' = open_tables d \<and> db_inv d'"
proof -
  note key = keys_okD(8) [OF db_invD(1) [OF assms(1)]]
  have inv: "db_inv d'"
    using db_inv_restore [OF assms(1) quiet_good [OF assms(3)], of "ts_id s" "ts_restaurant_id s"]
      assms(7) by simp
  let ?d = "d\<lparr>table_sessions := sql_update (\<lambda>x. ts_id x = ts_id s) (restore_set (t_db e))
      (table_sessions d)\<rparr>"
  have "session_status (ts_id s) ?d = Some OPEN"
    by (subst session_status_updated [OF key assms(2) keeps_restore_set])
      (simp_all add: restore_set_def)
  moreover have "ts_table_id s \<in> set (open_tables ?d)"
    using assms(2) by (auto simp: open_tables_def set_sql_update restore_set_def image_iff)
  moreover have "open_tables (settled (ts_id s) rid now d) = open_tables d" for rid now
  proof -
    have "ts_status x \<noteq> OPEN" if "x \<in> set (table_sessions d)" "ts_id x = ts_id s" for x
      using unique_byD [OF key that(1) assms(2)] that(2) assms(4) by simp
    then have "map ts_table_id (filter (\<lambda>x. ts_status x = OPEN)
        (sql_update (\<lambda>x. ts_id x = ts_id s) (close_with m now) rows))
      = map ts_table_id (filter (\<lambda>x. ts_status x = OPEN) rows)"
      if "set rows \<subseteq> set (table_sessions d)" for m rows
      using that by (induction rows) (auto simp: sql_update_def close_with_def)
    then show ?thesis by (simp add: open_tables_def settled_def)
  qed
  ultimately show ?thesis
    using assms(4-7) inv restore_existing [OF assms(1-3)] bill_settled_settled [OF assms(2)]
    by (auto split: if_splits)
qed

lemma restore_paths_witness:
  "\<exists>x d'. restore demo_env 51 1 demo = (Inr (Some x), d') \<and> rr_action x = ''restored''
    \<and> session_status 51 d' = Some OPEN"
proof -
  let ?s = "demo_session 51 21 ABANDONED (Some (hours 3))"
  have s: "?s \<in> set (table_sessions demo)" by (simp add: demo_def)
  have q: "quiet_env demo_env" by (simp add: quiet_env_def)
  have total: "served_total 51 demo = 13500000"
    by (simp add: served_total_def in_session_def demo_def demo_rows)
  obtain r d' where r: "restore demo_env 51 1 demo = (r, d')" by fastforce
  show ?thesis
    using restore_paths [OF demo_inv s q _ _ _ , of "hours 3" r d'] r total
    by (auto simp: demo_session_def fits_numeric_12_2_def time_units)
qed

text \<open>
  Restore against an opening: When another connection opens the table between the lookup of
  \<^verbatim>\<open>restore\<close> and its update, the unique index refuses the update: the caller gets the
  \<^verbatim>\<open>IntegrityError\<close> itself, which is not among the \<^verbatim>\<open>ValueError\<close>s that the service documents and its
  caller handles, and nothing but the other connection's work is in the database.
\<close>

theorem restore_races_with_open:
  assumes "db_inv d" and "s \<in> set (table_sessions d)" and "ts_status s = ABANDONED"
    and "ts_abandoned_at s = Some t" and "t_py e - t \<le> hours 24"
    and "ts_table_id s \<notin> set (open_tables d)"
    and "db_inv (others e 3 d)" and "s \<in> set (table_sessions (others e 3 d))"
    and "ts_table_id s \<in> set (open_tables (others e 3 d))"
  shows "restore e (ts_id s) (ts_restaurant_id s) d =
    (Inl (IntegrityError ''uq_one_open_session_per_table''), others e 3 d)"
proof -
  let ?P = "session_where (ts_id s) (ts_restaurant_id s) ABANDONED"
  have "filter (\<lambda>x. ts_id x = ts_id s \<and> ts_restaurant_id x = ts_restaurant_id s)
      (table_sessions d) = [s]"
    using filter_unique [OF keys_okD(8) [OF db_invD(1) [OF assms(1)]] assms(2),
      of "\<lambda>x. ts_restaurant_id x = ts_restaurant_id s"] by simp
  moreover have "filter ?P (table_sessions (others e 3 d)) = [s]"
    using filter_unique [OF keys_okD(8) [OF db_invD(1) [OF assms(7)]] assms(8), of ?P] assms(3)
    by (auto simp: session_where_def cong: filter_cong)
  moreover have "find_open_session (ts_table_id s) d = Inr None"
    using assms(6) by (simp add: find_open_session_None)
  ultimately show ?thesis using assms by (simp add: restore_def reopen_def)
qed

lemma restore_races_with_open_witness:
  "fst (restore (demo_env\<lparr>others := (\<lambda>k d. snd (get_or_open demo_env 21 1 None d))\<rparr>) 51 1 demo)
    = Inl (IntegrityError ''uq_one_open_session_per_table'')"
proof -
  let ?s = "demo_session 51 21 ABANDONED (Some (hours 3))" and ?n = "new_session demo_env 21 1 None"
  have r: "get_or_open demo_env 21 1 None demo = (Inr (?n, False),
      demo\<lparr>table_sessions := table_sessions demo @ [?n]\<rparr>)"
    by (rule get_or_open_fresh) (simp_all add: fun_eq_iff)
  have "db_inv (snd (get_or_open demo_env 21 1 None demo))"
    by (rule db_inv_get_or_open [THEN conjunct1]) (simp_all add: quiet_good quiet_env_def)
  moreover have "?s \<in> set (table_sessions demo)" by (simp add: demo_def)
  moreover have "21 \<in> set (open_tables (demo\<lparr>table_sessions := table_sessions demo @ [?n]\<rparr>))"
    by (simp add: open_tables_def new_session_def)
  ultimately show ?thesis
    using restore_races_with_open [OF demo_inv, of ?s "hours 3"
      "demo_env\<lparr>others := (\<lambda>k d. snd (get_or_open demo_env 21 1 None d))\<rparr>"] r
    by (simp add: demo_session_def time_units)
qed

text \<open>
  C8 (a checkout happens once). After a successful checkout, a second checkout of the same session changes nothing and
  reports that it lost, and a restore of it is refused and changes nothing: the restaurant of the session gets the
  error that only abandoned sessions can be restored, any other restaurant that there is no such session. This also
  holds when other work that leaves the session's status alone comes in between, and whatever others do meanwhile.
\<close>

theorem checkout_once:
  assumes "db_inv d" and "checkout im sid rid now d = Inr (Some r, d')"
    and "db_inv d''" and "session_status sid d'' = session_status sid d'"
  shows "checkout im' sid rid' now' d'' = Inr (None, d'')
    \<and> restore e sid rid' d'' =
        (if \<exists>s \<in> set (table_sessions d''). ts_id s = sid \<and> ts_restaurant_id s = rid'
         then Inl (ValueError OnlyAbandoned) else Inr None, d'')"
proof -
  have run: "run_checkout im sid rid now d = Some d'" using assms(2) by (simp add: run_checkout_def)
  have st: "session_status sid d'' = Some CLOSED"
    using checkout_cas.run_target [OF assms(1) run] assms(4) by simp
  note key = keys_okD(8) [OF db_invD(1) [OF assms(3)]]
  show ?thesis
  proof (cases "\<exists>s \<in> set (table_sessions d''). ts_id s = sid \<and> ts_restaurant_id s = rid'")
    case True
    then obtain s where s: "s \<in> set (table_sessions d'')" "ts_id s = sid" "ts_restaurant_id s = rid'"
      by blast
    moreover have "ts_status s = CLOSED" using st session_status_eq [OF key s(1)] s(2) by simp
    ultimately show ?thesis
      using checkout_existing [OF key s(1)] restore_refused [OF key s(1), of e] True by simp
  next
    case False
    then show ?thesis using checkout_missing [of d'' sid rid'] restore_missing [of d'' sid rid'] by auto
  qed
qed

lemma checkout_once_witness:
  "\<exists>r d'. checkout Map.empty 50 1 (hours 4) demo = Inr (Some r, d')
     \<and> checkout Map.empty 50 1 (hours 5) d' = Inr (None, d')"
proof -
  have s: "demo_session 50 20 OPEN None \<in> set (table_sessions demo)" by (simp add: demo_def)
  have "served_total 50 demo = 9000000"
    by (simp add: served_total_def in_session_def demo_def demo_rows)
  then obtain r d' where r: "checkout Map.empty 50 1 (hours 4) demo = Inr (Some r, d')"
    using checkout_existing [OF keys_okD(8) [OF demo_keys] s, of Map.empty "hours 4"]
    by (simp add: demo_session_def fits_numeric_12_2_def)
  moreover have "db_inv d'" using db_inv_checkout [OF demo_inv r] .
  ultimately show ?thesis using checkout_once [OF demo_inv r, of d'] by auto
qed

text \<open>
  C17 (undo after the bill). The 120-second undo of a served item does not look at its session. Whatever has been
  served within the last two minutes can be put back to pending after its session was checked out: the session stays
  closed with the bill of the checkout, which exceeds the sum of its served items by the price of that item, and an
  item of a closed session waits to be cooked.
\<close>

theorem undo_after_checkout_breaks_bill:
  assumes "db_inv d" and "checkout im sid rid now d = Inr (Some r, d1)"
    and "i \<in> set (order_items d)" and "in_session sid d i" and "oi_status i = SERVED"
    and "oi_served_at i = Some t" and "now' - t \<le> seconds 120"
  shows "\<exists>j d2. set_status (oi_id i) PENDING actor (oi_restaurant_id i) now' d1 = Inr (j, d2)
    \<and> j \<in> set (order_items d2) \<and> oi_id j = oi_id i \<and> oi_status j = PENDING \<and> in_session sid d2 j
    \<and> (\<exists>s \<in> set (table_sessions d2). ts_id s = sid \<and> ts_status s = CLOSED
          \<and> ts_total_amount s = Some (cr_total_amount r))
    \<and> cr_total_amount r = served_total sid d2 + oi_price_snapshot i * oi_quantity i"
proof -
  obtain s where s: "s \<in> set (table_sessions d)" "ts_id s = sid"
    and d1: "d1 = settled sid rid now d" and r: "cr_total_amount r = served_total sid d"
    using assms(1,2) by (rule checkout_Some)
  have inv: "db_inv d1" unfolding d1 by (rule db_inv_settled [OF assms(1)])
  note key = keys_okD(10) [OF db_invD(1) [OF inv]]
  have i: "i \<in> set (order_items d1)" "in_session sid d1 i"
    using assms(3-5) by (auto simp: d1 settled_def set_sql_update unserved_active frame)
  let ?j = "set_status_set PENDING actor now' i"
  let ?d = "d1\<lparr>order_items := sql_update (\<lambda>x. oi_id x = oi_id i) (set_status_set PENDING actor now') (order_items d1)\<rparr>"
  let ?d2 = "touch_session_of_order (oi_order_id i) now' ?d"
  have run: "set_status (oi_id i) PENDING actor (oi_restaurant_id i) now' d1 = Inr (?j, ?d2)"
    using set_status_existing [OF key i(1), of PENDING actor now'] assms(5-7) by (simp add: item_transition_simps)
  have "?j \<in> set (order_items ?d2)" using i(1) by (auto simp: frame set_sql_update)
  moreover have "in_session sid ?d2 ?j" using i(2) by (simp add: in_session_def frame set_status_set_def)
  moreover have "\<exists>x \<in> set (table_sessions ?d2). ts_id x = sid \<and> ts_status x = CLOSED
      \<and> ts_total_amount x = Some (cr_total_amount r)"
    using bill_settled_settled [OF s(1), of rid now] s(2) r touch_session_sessions [of "oi_order_id i" now' ?d]
    by (auto simp: bill_settled_def d1 bex_sql_update)
  moreover have "served_total sid d1 = served_total sid ?d2 + oi_price_snapshot i * oi_quantity i"
    using served_total_undo [OF key i assms(5), of "set_status_set PENDING actor now'"]
    by (simp add: served_total_def frame in_session_def set_status_set_def)
  ultimately show ?thesis using run r by (auto simp: d1 served_total_settled set_status_set_def)
qed

lemma undo_after_checkout_breaks_bill_witness:
  "\<exists>r d1 j d2. checkout Map.empty 50 1 (seconds 950) demo = Inr (Some r, d1)
    \<and> set_status 70 PENDING (Some 10) 1 (seconds 1000) d1 = Inr (j, d2)
    \<and> cr_total_amount r = served_total 50 d2 + 9000000"
proof -
  have s: "demo_session 50 20 OPEN None \<in> set (table_sessions demo)" by (simp add: demo_def)
  have "served_total 50 demo = 9000000"
    by (simp add: served_total_def in_session_def demo_def demo_rows)
  then obtain r d1 where r: "checkout Map.empty 50 1 (seconds 950) demo = Inr (Some r, d1)"
    using checkout_existing [OF keys_okD(8) [OF demo_keys] s, of Map.empty "seconds 950"]
    by (simp add: demo_session_def fits_numeric_12_2_def)
  have i: "demo_item 70 60 2 SERVED \<in> set (order_items demo)" "in_session 50 demo (demo_item 70 60 2 SERVED)"
    by (simp_all add: in_session_def demo_def demo_rows)
  show ?thesis
    using undo_after_checkout_breaks_bill [OF demo_inv r i, of "seconds 900" "seconds 1000" "Some 10"] r
    by (auto simp: demo_item_def time_units)
qed

end
