(* ===== verification/Settlement.thy ===== *)
theory Settlement imports Sessions begin

text \<open>
  \<^verbatim>\<open>checkout\<close> and the second path of \<^verbatim>\<open>restore\<close> run several statements in one transaction, and at READ COMMITTED other
  transactions may commit between two of them. Here they are once more with these gaps: \<open>g k\<close> is what the others commit
  before the statement number \<open>k\<close>, applied to the transaction's view of the database. \<open>Sessions\<close> models them without
  gaps; the theorem below says when that is the same. The first statement, the compare-and-swap, locks the row of the session
  until the commit. Whatever adds an order, an item or a call to the session or changes an item of it
  (\<^verbatim>\<open>create_order\<close>, \<^verbatim>\<open>set_status\<close>, \<^verbatim>\<open>cancel_item\<close>, \<^verbatim>\<open>create_call\<close>) writes that row in the same transaction, to renew its last
  activity, and cannot commit meanwhile; the acknowledgement of a call can. So the gaps leave the row and the items of the
  session (\<open>gaps_leave\<close>) and nothing else; only for \<open>g 8\<close>, between the commit and the final \<^verbatim>\<open>select\<close>, where the lock is gone,
  this is an assumption about the others.
\<close>

definition settle_gaps :: "(nat \<Rightarrow> database \<Rightarrow> database) \<Rightarrow> uuid \<Rightarrow> uuid \<Rightarrow> timestamp \<Rightarrow> database
    \<Rightarrow> (CancelledItem list \<times> money \<times> nat \<times> database) result" where
  "settle_gaps g session_id restaurant_id now d =
     (let d0 = g 2 d;
          cancelled = items_to_cancel session_id d0;
          d1 = (if cancelled \<noteq> [] then auto_cancel ''table_closed'' session_id now (g 3 d0) else d0);
          d2 = g 4 d1;
          amount = served_total session_id d2
      in case set_total session_id amount (g 5 d2) of
           Inl x \<Rightarrow> Inl x
         | Inr d3 \<Rightarrow>
             (case dismiss_pending session_id restaurant_id now (g 6 d3) of
                (n, d4) \<Rightarrow> Inr (cancelled, amount, n, d4)))"

definition checkout_gaps :: "(nat \<Rightarrow> database \<Rightarrow> database) \<Rightarrow> (uuid \<rightharpoonup> TableSession) \<Rightarrow> uuid \<Rightarrow> uuid \<Rightarrow> timestamp
    \<Rightarrow> database \<Rightarrow> (CheckoutResult option \<times> database) result" where
  "checkout_gaps g im session_id restaurant_id now d =
     (case cas_session (session_where session_id restaurant_id OPEN) (close_set now) d of
        None \<Rightarrow> Inr (None, d)
      | Some (_, d1) \<Rightarrow>
          (case settle_gaps g session_id restaurant_id now d1 of
             Inl x \<Rightarrow> Inl x
           | Inr (cancelled, amount, n, d2) \<Rightarrow>
               (let d3 = g 8 d2
                in case orm_session im session_id d3 of
                  Inl x \<Rightarrow> Inl x
                | Inr s \<Rightarrow> Inr (Some \<lparr>cr_session = s, cr_total_amount = amount,
                    cr_auto_cancelled_items = cancelled, cr_dismissed_calls_count = n\<rparr>, d3))))"

lemma settle_without_gaps: "settle_gaps (\<lambda>_ d. d) = settle"
  unfolding settle_gaps_def settle_def Let_def by (intro ext) (rule refl)

lemma checkout_without_gaps: "checkout_gaps (\<lambda>_ d. d) = checkout"
  unfolding checkout_gaps_def checkout_def settle_without_gaps Let_def by (intro ext) (rule refl)

section \<open>The part of the database that belongs to a session\<close>

definition session_rows :: "uuid \<Rightarrow> database \<Rightarrow> TableSession list" where
  "session_rows sid d = filter (\<lambda>s. ts_id s = sid) (table_sessions d)"

definition session_items :: "uuid \<Rightarrow> database \<Rightarrow> OrderItem list" where
  "session_items sid d = filter (in_session sid d) (order_items d)"

definition gaps_leave :: "uuid \<Rightarrow> (nat \<Rightarrow> database \<Rightarrow> database) \<Rightarrow> bool" where
  "gaps_leave sid g \<longleftrightarrow>
     (\<forall>k d. session_rows sid (g k d) = session_rows sid d \<and> session_items sid (g k d) = session_items sid d)"

lemma gaps_leaveD:
  assumes "gaps_leave sid g"
  shows "session_rows sid (g k d) = session_rows sid d" and "session_items sid (g k d) = session_items sid d"
  using assms by (simp_all add: gaps_leave_def)

text \<open>Every statement reads and writes this part only.\<close>

lemma items_to_cancel_items:
  "items_to_cancel sid d = map (\<lambda>i. \<lparr>ci_id = oi_id i, ci_name_snapshot = oi_name_snapshot i,
      ci_quantity = oi_quantity i, ci_status_before = oi_status i\<rparr>)
    (filter (\<lambda>i. active (oi_status i)) (session_items sid d))"
  by (simp add: items_to_cancel_def session_items_def unserved_active [abs_def] conj_commute)

lemma served_total_items:
  "served_total sid d = sum_list (map (\<lambda>i. oi_price_snapshot i * oi_quantity i)
    (filter (\<lambda>i. oi_status i = SERVED) (session_items sid d)))"
  by (simp add: served_total_def session_items_def conj_commute)

lemma session_items_auto_cancel:
  "session_items sid (auto_cancel reason sid now d)
    = sql_update (\<lambda>i. active (oi_status i)) (cancel_set BY_SYSTEM (Some reason) now) (session_items sid d)"
proof -
  have "in_session sid d (cancel_set w r n i) = in_session sid d i" for w r n i
    by (simp add: in_session_def cancel_set_def)
  then have "filter (in_session sid d) (sql_update (unserved sid d) (cancel_set BY_SYSTEM (Some reason) now) is)
      = sql_update (\<lambda>i. active (oi_status i)) (cancel_set BY_SYSTEM (Some reason) now) (filter (in_session sid d) is)" for "is"
    by (induction "is") (simp_all add: sql_update_def unserved_active)
  then show ?thesis by (simp add: session_items_def auto_cancel_def frame)
qed

lemma set_total_rows:
  assumes "set_total sid amount d = Inr d'"
  shows "session_items sid d' = session_items sid d"
    and "session_rows sid d' = map (\<lambda>s. s\<lparr>ts_total_amount := Some amount\<rparr>) (session_rows sid d)"
proof -
  have "filter (\<lambda>s. ts_id s = sid) (sql_update (\<lambda>s. ts_id s = sid) (\<lambda>s. s\<lparr>ts_total_amount := Some amount\<rparr>) rows)
      = map (\<lambda>s. s\<lparr>ts_total_amount := Some amount\<rparr>) (filter (\<lambda>s. ts_id s = sid) rows)" for rows
    by (induction rows) (simp_all add: sql_update_def)
  with assms show "session_items sid d' = session_items sid d"
    and "session_rows sid d' = map (\<lambda>s. s\<lparr>ts_total_amount := Some amount\<rparr>) (session_rows sid d)"
    by (auto simp: set_total_def session_items_def session_rows_def frame split: if_splits)
qed

lemma other_statements:
  "session_rows sid (auto_cancel reason sid now d) = session_rows sid d"
  "session_rows sid (snd (dismiss_pending sid rid now d)) = session_rows sid d"
  "session_items sid (snd (dismiss_pending sid rid now d)) = session_items sid d"
  by (simp_all add: session_rows_def session_items_def auto_cancel_def dismiss_pending_def frame)

lemma orm_session_rows:
  "session_rows sid d = session_rows sid d' \<Longrightarrow> orm_session im sid d = orm_session im sid d'"
  by (simp add: orm_session_def session_rows_def)

text \<open>The settlement as a function of the rows and the items of the session.\<close>

lemma settle_gaps_rows:
  fixes d :: database and now :: timestamp
  assumes g: "gaps_leave sid g"
  defines "amount \<equiv> served_total sid d" and "items \<equiv> sql_update (\<lambda>i. active (oi_status i))
      (cancel_set BY_SYSTEM (Some ''table_closed'') now) (session_items sid d)"
  shows "case settle_gaps g sid rid now d of
      Inl x \<Rightarrow> \<not> fits_numeric_12_2 amount \<and> x = DBAPIError ''numeric field overflow''
    | Inr (cancelled, billed, n, d') \<Rightarrow> fits_numeric_12_2 amount \<and> billed = amount
        \<and> cancelled = items_to_cancel sid d \<and> session_items sid d' = items
        \<and> session_rows sid d' = map (\<lambda>s. s\<lparr>ts_total_amount := Some amount\<rparr>) (session_rows sid d)"
proof -
  note leave = gaps_leaveD [OF g]
  define d0 where "d0 = g 2 d"
  define d1 where "d1 = (if items_to_cancel sid d0 \<noteq> [] then auto_cancel ''table_closed'' sid now (g 3 d0) else d0)"
  have cancelled: "items_to_cancel sid d0 = items_to_cancel sid d"
    by (simp add: d0_def items_to_cancel_items leave)
  have rows1: "session_rows sid d1 = session_rows sid d" by (simp add: d1_def d0_def other_statements leave)
  have none: "sql_update (\<lambda>i. active (oi_status i)) f (session_items sid d) = session_items sid d"
    if "items_to_cancel sid d = []" for f
    using that by (intro sql_update_id) (auto simp: items_to_cancel_items filter_empty_conv)
  have items1: "session_items sid d1 = items"
    using cancelled none by (auto simp: d1_def d0_def items_def session_items_auto_cancel leave)
  have "filter (\<lambda>i. oi_status i = SERVED) (sql_update (\<lambda>i. active (oi_status i)) (cancel_set w r n) is)
      = filter (\<lambda>i. oi_status i = SERVED) is" for w r n "is"
    by (induction "is") (simp_all add: sql_update_def cancel_set_def)
  then have total: "served_total sid (g 4 d1) = amount"
    by (simp add: served_total_items leave items1 items_def amount_def)
  show ?thesis
  proof (cases "set_total sid amount (g 5 (g 4 d1))")
    case (Inl x)
    then have "settle_gaps g sid rid now d = Inl x"
      by (simp add: settle_gaps_def Let_def d0_def [symmetric] d1_def [symmetric] total)
    with Inl show ?thesis by (simp add: set_total_def split: if_splits)
  next
    case (Inr d3)
    then have "settle_gaps g sid rid now d = Inr (items_to_cancel sid d0, amount, dismiss_pending sid rid now (g 6 d3))"
      by (simp add: settle_gaps_def Let_def d0_def [symmetric] d1_def [symmetric] total split: prod.split)
    moreover have "fits_numeric_12_2 amount" using Inr by (simp add: set_total_def split: if_splits)
    moreover have "session_items sid (snd (dismiss_pending sid rid now (g 6 d3))) = items"
      by (simp add: other_statements leave set_total_rows(1) [OF Inr] items1)
    moreover have "session_rows sid (snd (dismiss_pending sid rid now (g 6 d3)))
        = map (\<lambda>s. s\<lparr>ts_total_amount := Some amount\<rparr>) (session_rows sid d)"
      by (simp add: other_statements leave set_total_rows(2) [OF Inr] rows1)
    ultimately show ?thesis by (simp add: cancelled case_prod_beta)
  qed
qed

text \<open>
  The checkout is atomic for its session: Whatever the others commit between its statements, as long as the
  row and the items of the session are left alone, the checkout has the outcome it has without them: the same error, the
  same refusal, or the same answer but for the number of dismissed calls; and it leaves the same row and the same items of
  the session.
\<close>

theorem checkout_is_atomic_for_its_session:
  assumes "gaps_leave sid g"
  shows "case checkout im sid rid now d of
      Inl x \<Rightarrow> checkout_gaps g im sid rid now d = Inl x
    | Inr (None, _) \<Rightarrow> checkout_gaps g im sid rid now d = Inr (None, d)
    | Inr (Some r, d1) \<Rightarrow> \<exists>n d2. checkout_gaps g im sid rid now d = Inr (Some (r\<lparr>cr_dismissed_calls_count := n\<rparr>), d2)
        \<and> session_rows sid d2 = session_rows sid d1 \<and> session_items sid d2 = session_items sid d1"
proof (cases "cas_session (session_where sid rid OPEN) (close_set now) d")
  case None
  then show ?thesis by (simp add: checkout_def checkout_gaps_def)
next
  case (Some p)
  obtain row d0 where p: "p = (row, d0)" by (cases p)
  have "gaps_leave sid (\<lambda>_ d. d)" by (simp add: gaps_leave_def)
  note plain = settle_gaps_rows [OF this, where d = d0 and rid = rid and now = now]
  note gaps = settle_gaps_rows [OF assms, where d = d0 and rid = rid and now = now]
  show ?thesis
  proof (cases "settle_gaps (\<lambda>_ d. d) sid rid now d0")
    case (Inl x)
    with plain gaps Some p show ?thesis
      by (auto simp: checkout_without_gaps [symmetric] checkout_gaps_def split: sum.splits)
  next
    case (Inr q)
    obtain cancelled amount n d1 where q: "q = (cancelled, amount, n, d1)" by (cases q)
    from plain gaps Inr q obtain n2 d2 where s2: "settle_gaps g sid rid now d0 = Inr (cancelled, amount, n2, d2)"
      and same: "session_rows sid d2 = session_rows sid d1" "session_items sid d2 = session_items sid d1"
      by (auto split: sum.splits)
    have orm: "orm_session im sid (g 8 d2) = orm_session im sid d1"
      by (rule orm_session_rows) (simp add: gaps_leaveD [OF assms] same)
    have rows: "session_rows sid (g 8 d2) = session_rows sid d1" "session_items sid (g 8 d2) = session_items sid d1"
      by (simp_all add: gaps_leaveD [OF assms] same)
    show ?thesis
      using Inr q s2 orm rows Some p
      by (simp add: checkout_without_gaps [symmetric] checkout_gaps_def Let_def split: sum.split)
  qed
qed

text \<open>An instance: a call of the session is acknowledged in every gap.\<close>

lemma checkout_is_atomic_for_its_session_witness:
  "\<exists>r n d1 d2. checkout Map.empty 50 1 0 demo = Inr (Some r, d1)
    \<and> checkout_gaps (\<lambda>_ d. d\<lparr>staff_calls := map (\<lambda>c. c\<lparr>sc_status := CALL_ACKNOWLEDGED\<rparr>) (staff_calls d)\<rparr>) Map.empty 50 1 0 demo
        = Inr (Some (r\<lparr>cr_dismissed_calls_count := n\<rparr>), d2) \<and> session_rows 50 d2 = session_rows 50 d1"
proof -
  let ?g = "\<lambda>_ d. d\<lparr>staff_calls := map (\<lambda>c. c\<lparr>sc_status := CALL_ACKNOWLEDGED\<rparr>) (staff_calls d)\<rparr>"
  have g: "gaps_leave 50 ?g" by (simp add: gaps_leave_def session_rows_def session_items_def frame)
  have s: "demo_session 50 20 OPEN None \<in> set (table_sessions demo)" by (simp add: demo_def)
  have "served_total 50 demo = 9000000"
    by (simp add: served_total_def in_session_def demo_def demo_rows)
  then obtain r d1 where c: "checkout Map.empty 50 1 0 demo = Inr (Some r, d1)"
    using checkout_existing [OF keys_okD(8) [OF demo_keys] s, of Map.empty 0]
    by (simp add: demo_session_def fits_numeric_12_2_def)
  from checkout_is_atomic_for_its_session [OF g, of Map.empty 1 0 demo] c show ?thesis by auto
qed

end
