(* ===== verification/Lifecycle.thy ===== *)
theory Lifecycle imports ItemState begin

text \<open>
  Whole histories of the items: the operations of \<^verbatim>\<open>item_state_service.py\<close>, as its three callers use them, one after
  the other in any order and on any items. The work on an item ends: only undoing a served item goes back.
\<close>

section \<open>Histories\<close>

datatype item_op =
    SetStatus uuid OrderItemStatus "uuid option" uuid timestamp
  | CustomerCancel uuid uuid "string option" timestamp
  | StaffCancel uuid uuid "string option" timestamp

primrec op_item :: "item_op \<Rightarrow> uuid" where
  "op_item (SetStatus item_id to actor rid now) = item_id"
| "op_item (CustomerCancel item_id rid reason now) = item_id"
| "op_item (StaffCancel item_id rid reason now) = item_id"

primrec op_target :: "item_op \<Rightarrow> OrderItemStatus" where
  "op_target (SetStatus item_id to actor rid now) = to"
| "op_target (CustomerCancel item_id rid reason now) = CANCELLED"
| "op_target (StaffCancel item_id rid reason now) = CANCELLED"

text \<open>An operation that raises is rolled back.\<close>

primrec apply_op :: "item_op \<Rightarrow> database \<Rightarrow> database option" where
  "apply_op (SetStatus item_id to actor rid now) d = run_db (set_status item_id to actor rid now d)"
| "apply_op (CustomerCancel item_id rid reason now) d =
     run_db (cancel_item item_id BY_CUSTOMER rid [PENDING] reason now d)"
| "apply_op (StaffCancel item_id rid reason now) d =
     run_db (cancel_item item_id BY_STAFF rid [PENDING, COOKING, READY] reason now d)"

text \<open>The operations that succeed, in their order.\<close>

fun effective :: "item_op list \<Rightarrow> database \<Rightarrow> item_op list" where
  "effective [] d = []"
| "effective (x # xs) d = (case apply_op x d of None \<Rightarrow> effective xs d | Some d' \<Rightarrow> x # effective xs d')"

definition changes_of :: "uuid \<Rightarrow> item_op list \<Rightarrow> item_op list" where
  "changes_of item_id xs = filter (\<lambda>x. op_item x = item_id) xs"

definition undos :: "item_op list \<Rightarrow> item_op list" where
  "undos xs = filter (\<lambda>x. op_target x = PENDING) xs"

section \<open>One operation\<close>

text \<open>The steps that are left without an undo.\<close>

primrec steps_left :: "OrderItemStatus \<Rightarrow> nat" where
  "steps_left PENDING = 3"
| "steps_left COOKING = 2"
| "steps_left READY = 1"
| "steps_left SERVED = 0"
| "steps_left CANCELLED = 0"

lemma steps_left_le: "steps_left s \<le> 3"
  by (cases s) simp_all

definition potential :: "uuid \<Rightarrow> database \<Rightarrow> nat" where
  "potential item_id d = (case item_status item_id d of None \<Rightarrow> 0 | Some s \<Rightarrow> steps_left s)"

lemma apply_op_cases:
  assumes "keys_ok d" and "apply_op x d = Some d'"
  shows "keys_ok d'" and "item_status (op_item x) d' = Some (op_target x)"
    and "\<exists>s. item_status (op_item x) d = Some s
      \<and> (op_target x = PENDING \<and> s = SERVED \<or> op_target x \<noteq> PENDING \<and> active s \<and> s < op_target x)"
proof -
  have "keys_ok d' \<and> item_status (op_item x) d' = Some (op_target x)
    \<and> (\<exists>s. item_status (op_item x) d = Some s
      \<and> (op_target x = PENDING \<and> s = SERVED \<or> op_target x \<noteq> PENDING \<and> active s \<and> s < op_target x))"
  proof (cases x)
    case (SetStatus item_id to actor rid now)
    with assms have run: "run_db (set_status item_id to actor rid now d) = Some d'" by simp
    from set_status_cas.run_from [OF assms(1) run] obtain s
      where "s \<in> allowed_from_set to" and s: "item_status item_id d = Some s" by auto
    then have "to = PENDING \<and> s = SERVED \<or> to \<noteq> PENDING \<and> active s \<and> s < to"
      by (cases to; cases s) (simp_all add: status_order)
    with s set_status_cas.run_inv [OF assms(1) run] set_status_cas.run_target [OF assms(1) run] SetStatus
    show ?thesis by simp
  next
    case (CustomerCancel item_id rid reason now)
    with assms have run: "run_db (cancel_item item_id BY_CUSTOMER rid [PENDING] reason now d) = Some d'" by simp
    from cancel_item_cas.run_from [OF assms(1) run] cancel_item_cas.run_inv [OF assms(1) run]
      cancel_item_cas.run_target [OF assms(1) run] CustomerCancel
    show ?thesis by (auto simp: status_order)
  next
    case (StaffCancel item_id rid reason now)
    with assms have run: "run_db (cancel_item item_id BY_STAFF rid [PENDING, COOKING, READY] reason now d) = Some d'"
      by simp
    from cancel_item_cas.run_from [OF assms(1) run] cancel_item_cas.run_inv [OF assms(1) run]
      cancel_item_cas.run_target [OF assms(1) run] StaffCancel
    show ?thesis by (auto simp: status_order)
  qed
  then show "keys_ok d'" and "item_status (op_item x) d' = Some (op_target x)"
    and "\<exists>s. item_status (op_item x) d = Some s
      \<and> (op_target x = PENDING \<and> s = SERVED \<or> op_target x \<noteq> PENDING \<and> active s \<and> s < op_target x)"
    by blast+
qed

lemma filter_other_update:
  assumes "\<And>i. P i \<Longrightarrow> oi_id i \<noteq> k" and "\<And>i. oi_id (f i) = oi_id i"
  shows "filter (\<lambda>i. oi_id i = k) (sql_update P f rows) = filter (\<lambda>i. oi_id i = k) rows"
  by (induction rows) (auto simp: sql_update_def assms dest: assms(1))

lemma item_status_cas_other:
  assumes "cas_item P f now d = Some (row, d')" and "\<And>i. P i \<Longrightarrow> oi_id i \<noteq> k" and "\<And>i. oi_id (f i) = oi_id i"
  shows "item_status k d' = item_status k d"
  using assms(1)
proof (rule cas_item_Some)
  assume "order_items d' = sql_update P f (order_items d)"
  then show ?thesis by (simp add: item_status_def filter_other_update [OF assms(2,3)])
qed

lemma apply_op_other:
  assumes "apply_op x d = Some d'" and "op_item x \<noteq> k"
  shows "item_status k d' = item_status k d"
proof (cases x)
  case (SetStatus item_id to actor rid now)
  with assms(1) obtain row where "set_status item_id to actor rid now d = Inr (row, d')" by auto
  then obtain allowed where "cas_item (set_status_where item_id to rid allowed now) (set_status_set to actor now) now d
      = Some (row, d')" by (rule set_status_Inr)
  from item_status_cas_other [OF this] show ?thesis
    using assms(2) SetStatus by (auto simp: set_status_where_def set_status_set_def)
next
  case (CustomerCancel item_id rid reason now)
  with assms(1) obtain row where "cancel_item item_id BY_CUSTOMER rid [PENDING] reason now d = Inr (row, d')" by auto
  then have "cas_item (cancel_where item_id rid [PENDING]) (cancel_set BY_CUSTOMER reason now) now d = Some (row, d')"
    by (rule cancel_item_Inr)
  from item_status_cas_other [OF this] show ?thesis
    using assms(2) CustomerCancel by (auto simp: cancel_where_def cancel_set_def)
next
  case (StaffCancel item_id rid reason now)
  with assms(1) obtain row where
    "cancel_item item_id BY_STAFF rid [PENDING, COOKING, READY] reason now d = Inr (row, d')" by auto
  then have "cas_item (cancel_where item_id rid [PENDING, COOKING, READY]) (cancel_set BY_STAFF reason now) now d
      = Some (row, d')" by (rule cancel_item_Inr)
  from item_status_cas_other [OF this] show ?thesis
    using assms(2) StaffCancel by (auto simp: cancel_where_def cancel_set_def)
qed

text \<open>What an operation costs of the potential of an item.\<close>

lemma potential_step:
  assumes "keys_ok d" and "apply_op x d = Some d'"
  shows "if op_item x \<noteq> k then potential k d' = potential k d
    else if op_target x = PENDING then potential k d' = 3 else potential k d' < potential k d"
proof (cases "op_item x = k")
  case False
  with apply_op_other [OF assms(2) False] show ?thesis by (simp add: potential_def)
next
  case True
  from apply_op_cases(3) [OF assms] obtain s where "item_status k d = Some s"
    and "op_target x = PENDING \<and> s = SERVED \<or> op_target x \<noteq> PENDING \<and> active s \<and> s < op_target x"
    by (auto simp: True)
  with apply_op_cases(2) [OF assms] True show ?thesis
    by (cases "op_target x"; cases s) (simp_all add: potential_def status_order)
qed

section \<open>Properties\<close>

lemma changes_bounded:
  "keys_ok d \<Longrightarrow> length (changes_of k (effective ops d))
     \<le> potential k d + 4 * length (undos (changes_of k (effective ops d)))"
proof (induction ops arbitrary: d)
  case (Cons x ops)
  show ?case
  proof (cases "apply_op x d")
    case None
    with Cons show ?thesis by simp
  next
    case (Some d')
    with Cons.IH [OF apply_op_cases(1) [OF Cons.prems Some]] potential_step [OF Cons.prems Some, of k]
    show ?thesis by (auto simp: changes_of_def undos_def split: if_splits)
  qed
qed (simp add: changes_of_def)

text \<open>
  C28 (the work ends). However the kitchen, the staff and the guests interleave their requests, and whatever items
  they are on, an item changes at most three times, and at most four times more for each undo of its serving.
  In particular, without an undo at most three of any number of requests on an item succeed.
\<close>

theorem item_work_ends:
  assumes "db_inv d"
  shows "length (changes_of item_id (effective ops d))
    \<le> 3 + 4 * length (undos (changes_of item_id (effective ops d)))"
proof -
  have "potential item_id d \<le> 3" by (simp add: potential_def steps_left_le split: option.split)
  with changes_bounded [OF db_invD(1) [OF assms], of item_id ops] show ?thesis by linarith
qed

lemma item_work_ends_witness:
  "(let ops = [SetStatus 71 READY None 1 (seconds 1000), SetStatus 71 COOKING None 1 (seconds 1001),
               SetStatus 71 SERVED (Some 10) 1 (seconds 1002), SetStatus 71 PENDING None 1 (seconds 1010),
               StaffCancel 71 1 None (seconds 1020), SetStatus 71 SERVED (Some 10) 1 (seconds 1030)]
    in changes_of 71 (effective ops demo)
        = [SetStatus 71 READY None 1 (seconds 1000), SetStatus 71 SERVED (Some 10) 1 (seconds 1002),
           SetStatus 71 PENDING None 1 (seconds 1010), StaffCancel 71 1 None (seconds 1020)]
      \<and> length (changes_of 71 (effective ops demo)) \<le> 3 + 4 * length (undos (changes_of 71 (effective ops demo))))"
  unfolding Let_def by (rule conjI, code_simp, rule item_work_ends [OF demo_inv])

end
