(* ===== verification/Scheduler.thy ===== *)
theory Scheduler imports Sessions begin

text \<open>
  \<^verbatim>\<open>qorder_api/scheduler/__init__.py\<close>: the sweep that abandons stale sessions, the report loop and
  the Redis lock around both. Redis is not under the sources: its \<^verbatim>\<open>SET NX EX\<close>, \<^verbatim>\<open>GET\<close> and \<^verbatim>\<open>DEL\<close>
  are the fields of a \<open>redis_api\<close> over an arbitrary store type, with what the code relies on as the
  predicate \<open>redis_laws\<close>. What the other instances do to the store (and the expiry of the lock) is
  \<open>gap 0\<close> during the job and \<open>gap 1\<close> between \<^verbatim>\<open>GET\<close> and \<^verbatim>\<open>DEL\<close>. A connection that fails while a
  session is processed is \<open>fails\<close>. The \<open>k\<close>-th session of a sweep has its own environment \<open>es k\<close>:
  the time of its transaction, and what others commit before it.
\<close>

section \<open>Abandoning one session\<close>

definition abandon_set :: "timestamp \<Rightarrow> TableSession \<Rightarrow> TableSession" where
  "abandon_set now s =
     s\<lparr>ts_status := ABANDONED, ts_abandoned_at := Some now, ts_total_amount := None\<rparr>"

definition abandon_payload :: "uuid \<Rightarrow> uuid \<Rightarrow> (string \<times> payload) list" where
  "abandon_payload session_id restaurant_id =
     [(''session_id'', PId session_id), (''restaurant_id'', PId restaurant_id)]"

definition abandon_session :: "env \<Rightarrow> uuid \<Rightarrow> uuid \<Rightarrow> world \<Rightarrow> world" where
  "abandon_session e session_id restaurant_id w =
     (case cas_session (\<lambda>s. ts_id s = session_id \<and> ts_status s = OPEN) (abandon_set (t_db e)) (db w) of
        None \<Rightarrow> w
      | Some (_, d1) \<Rightarrow>
          publish_both e restaurant_id session_id SESSION_ABANDONED
            (abandon_payload session_id restaurant_id)
            (w\<lparr>db := snd (dismiss_pending session_id restaurant_id (t_db e)
                (auto_cancel ''session_abandoned'' session_id (t_db e) d1))\<rparr>))"

section \<open>The sweep\<close>

text \<open>The smallest \<^verbatim>\<open>timestamptz\<close>, 24 November 4714 BC; below it the subtraction raises.\<close>

definition MIN_TIMESTAMP :: timestamp where
  "MIN_TIMESTAMP = -210866803200000000"

definition open_with_settings :: "database \<Rightarrow> (TableSession \<times> RestaurantSettings) list" where
  "open_with_settings d =
     [(s, st). s \<leftarrow> table_sessions d, st \<leftarrow> restaurant_settings d,
        rs_restaurant_id st = ts_restaurant_id s \<and> ts_status s = OPEN]"

definition stale_sessions :: "timestamp \<Rightarrow> database \<Rightarrow> (uuid \<times> uuid) list result" where
  "stale_sessions now d =
     (if \<exists>(s, st) \<in> set (open_with_settings d).
           now - hours (rs_session_timeout_hours st) < MIN_TIMESTAMP
      then Inl (DBAPIError ''timestamp out of range'')
      else Inr (map (\<lambda>(s, st). (ts_id s, ts_restaurant_id s))
             (filter (\<lambda>(s, st). ts_last_activity_at s < now - hours (rs_session_timeout_hours st))
               (open_with_settings d))))"

fun sweep_rows :: "(nat \<Rightarrow> env) \<Rightarrow> (uuid \<Rightarrow> bool) \<Rightarrow> nat \<Rightarrow> (uuid \<times> uuid) list \<Rightarrow> world \<Rightarrow> world" where
  "sweep_rows es fails k [] w = w"
| "sweep_rows es fails k ((session_id, restaurant_id) # rows) w =
     (let w1 = w\<lparr>db := others (es k) 3 (db w)\<rparr>
      in sweep_rows es fails (Suc k) rows
           (if fails session_id then w1
            else abandon_session (es k) session_id restaurant_id w1))"

definition run_sweep :: "(nat \<Rightarrow> env) \<Rightarrow> (uuid \<Rightarrow> bool) \<Rightarrow> timestamp \<Rightarrow> world \<Rightarrow> unit result \<times> world" where
  "run_sweep es fails now w =
     (case stale_sessions now (db w) of
        Inl x \<Rightarrow> (Inl x, w)
      | Inr rows \<Rightarrow> if rows = [] then (Inr (), w) else (Inr (), sweep_rows es fails 0 rows w))"

section \<open>The lock\<close>

record 'r redis_api =
  set_nx_ex :: "string \<Rightarrow> string \<Rightarrow> int \<Rightarrow> 'r \<Rightarrow> bool \<times> 'r"
  get_key :: "string \<Rightarrow> 'r \<Rightarrow> string option"
  delete_key :: "string \<Rightarrow> 'r \<Rightarrow> 'r"

definition LOCK_KEY :: string where "LOCK_KEY = ''lock:job:abandon_sweep''"
definition REPORT_LOCK_KEY :: string where "REPORT_LOCK_KEY = ''lock:job:report_sync''"

text \<open>Both jobs have this frame. The exception of the body is logged and dropped, after the
  \<^verbatim>\<open>finally\<close> that releases the lock.\<close>

definition with_lock :: "'r redis_api \<Rightarrow> (nat \<Rightarrow> 'r \<Rightarrow> 'r) \<Rightarrow> string \<Rightarrow> string \<Rightarrow> int
    \<Rightarrow> ('w \<Rightarrow> unit result \<times> 'w) \<Rightarrow> 'r \<Rightarrow> 'w \<Rightarrow> 'r \<times> 'w" where
  "with_lock api gap key instance_id lock_ttl body r w =
     (case set_nx_ex api key instance_id lock_ttl r of
        (acquired, r1) \<Rightarrow>
          if \<not> acquired then (r1, w)
          else (case body w of (_, w1) \<Rightarrow>
            (let r2 = gap 0 r1
             in if get_key api key r2 = Some instance_id
                then (delete_key api key (gap 1 r2), w1)
                else (r2, w1))))"

definition sweep_abandoned_sessions :: "'r redis_api \<Rightarrow> (nat \<Rightarrow> 'r \<Rightarrow> 'r) \<Rightarrow> string \<Rightarrow> int
    \<Rightarrow> (nat \<Rightarrow> env) \<Rightarrow> (uuid \<Rightarrow> bool) \<Rightarrow> timestamp \<Rightarrow> 'r \<Rightarrow> world \<Rightarrow> 'r \<times> world" where
  "sweep_abandoned_sessions api gap instance_id lock_ttl es fails now r w =
     with_lock api gap LOCK_KEY instance_id lock_ttl (run_sweep es fails now) r w"

section \<open>The report loop\<close>

text \<open>\<open>sync\<close> is \<^verbatim>\<open>ReportSyncService.sync\<close>; a failure of one restaurant does not stop the others.\<close>

fun sync_each :: "(uuid \<Rightarrow> 'w \<Rightarrow> unit result \<times> 'w) \<Rightarrow> uuid list \<Rightarrow> 'w \<Rightarrow> 'w" where
  "sync_each sync [] w = w"
| "sync_each sync (rid # rids) w = sync_each sync rids (snd (sync rid w))"

definition report_restaurants :: "database \<Rightarrow> uuid list" where
  "report_restaurants d =
     map rs_restaurant_id (filter (\<lambda>st. rs_report_sheet_id st \<noteq> None) (restaurant_settings d))"

definition run_report_sync :: "database \<Rightarrow> (uuid \<Rightarrow> 'w \<Rightarrow> unit result \<times> 'w) \<Rightarrow> 'w \<Rightarrow> unit result \<times> 'w" where
  "run_report_sync d sync w =
     (let restaurant_ids = report_restaurants d
      in if restaurant_ids = [] then (Inr (), w) else (Inr (), sync_each sync restaurant_ids w))"

definition sync_reports :: "'r redis_api \<Rightarrow> (nat \<Rightarrow> 'r \<Rightarrow> 'r) \<Rightarrow> string \<Rightarrow> int \<Rightarrow> database
    \<Rightarrow> (uuid \<Rightarrow> 'w \<Rightarrow> unit result \<times> 'w) \<Rightarrow> 'r \<Rightarrow> 'w \<Rightarrow> 'r \<times> 'w" where
  "sync_reports api gap instance_id lock_ttl d sync r w =
     with_lock api gap REPORT_LOCK_KEY instance_id lock_ttl (run_report_sync d sync) r w"

section \<open>What abandoning does\<close>

definition abandoned :: "uuid \<Rightarrow> uuid \<Rightarrow> timestamp \<Rightarrow> database \<Rightarrow> database" where
  "abandoned session_id restaurant_id now d =
     d\<lparr>table_sessions := sql_update (\<lambda>s. ts_id s = session_id) (abandon_set now) (table_sessions d),
       order_items := sql_update (unserved session_id d)
          (cancel_set BY_SYSTEM (Some ''session_abandoned'') now) (order_items d),
       staff_calls := sql_update (dismiss_where session_id restaurant_id)
          (\<lambda>c. c\<lparr>sc_status := CALL_ACKNOWLEDGED, sc_acknowledged_at := Some now\<rparr>)
          (staff_calls d)\<rparr>"

lemma keeps_abandon_set: "keeps_session (abandon_set now)"
  by (simp add: keeps_defs abandon_set_def)

lemma abandon_session_existing:
  assumes key: "unique_by ts_id (table_sessions (db w))" and s: "s \<in> set (table_sessions (db w))"
  shows "abandon_session e (ts_id s) rid w =
    (if ts_status s \<noteq> OPEN then w
     else publish_both e rid (ts_id s) SESSION_ABANDONED (abandon_payload (ts_id s) rid)
            (w\<lparr>db := abandoned (ts_id s) rid (t_db e) (db w)\<rparr>))"
proof -
  let ?P = "\<lambda>x. ts_id x = ts_id s \<and> ts_status x = OPEN"
  have uniq: "x = s" if "x \<in> set (table_sessions (db w))" "ts_id x = ts_id s" for x
    using unique_byD [OF key that(1) s that(2)] .
  show ?thesis
  proof (cases "ts_status s = OPEN")
    case False
    then have "cas_session ?P f (db w) = None" for f
      using uniq by (auto simp: cas_session_None_iff)
    with False show ?thesis by (simp add: abandon_session_def)
  next
    case True
    then have "cas_session ?P f (db w) = Some (f s, (db w)\<lparr>table_sessions :=
        sql_update ?P f (table_sessions (db w))\<rparr>)" for f
      by (intro cas_session_unique [OF key _ s]) simp_all
    moreover have "sql_update ?P f (table_sessions (db w))
        = sql_update (\<lambda>x. ts_id x = ts_id s) f (table_sessions (db w))" for f
      using True uniq by (auto simp: sql_update_def)
    ultimately show ?thesis using True
      by (simp add: abandon_session_def abandoned_def auto_cancel_def dismiss_pending_def frame)
  qed
qed

lemma abandon_session_missing:
  assumes "\<And>s. s \<in> set (table_sessions (db w)) \<Longrightarrow> ts_id s \<noteq> sid"
  shows "abandon_session e sid rid w = w"
proof -
  have "cas_session (\<lambda>s. ts_id s = sid \<and> ts_status s = OPEN) f (db w) = None" for f
    using assms by (auto simp: cas_session_None_iff)
  then show ?thesis by (simp add: abandon_session_def)
qed

lemma db_inv_abandoned:
  assumes inv: "db_inv d" and s: "s \<in> set (table_sessions d)" "ts_status s = OPEN"
  shows "db_inv (abandoned (ts_id s) rid now d)"
proof -
  let ?d1 = "d\<lparr>table_sessions := sql_update (\<lambda>x. ts_id x = ts_id s) (abandon_set now) (table_sessions d)\<rparr>"
  let ?d2 = "?d1\<lparr>order_items := sql_update (unserved (ts_id s) d)
      (cancel_set BY_SYSTEM (Some ''session_abandoned'') now) (order_items ?d1)\<rparr>"
  have "session_shape (abandon_set now x)"
    if "x \<in> set (table_sessions d)" "ts_id x = ts_id s" "session_shape x" for x
    using unique_byD [OF keys_okD(8) [OF db_invD(1) [OF inv]] that(1) s(1) that(2)] s(2) that(3)
    by (simp add: session_shape_def abandon_set_def)
  moreover have "distinct (open_tables ?d1)"
    using db_invD(2) [OF inv]
    by (intro distinct_open_tables_close keeps_abandon_set)
      (simp_all add: one_open_session_per_table_def abandon_set_def)
  ultimately have "db_inv ?d1" by (intro db_inv_update_sessions [OF inv keeps_abandon_set]) simp_all
  then have "db_inv ?d2"
    by (rule db_inv_update_items)
      (simp_all add: keeps_cancel_set unserved_active item_shape_cancel)
  moreover have "abandoned (ts_id s) rid now d = snd (dismiss_pending (ts_id s) rid now ?d2)"
    by (simp add: abandoned_def dismiss_pending_def)
  ultimately show ?thesis by (simp add: db_inv_dismiss_pending)
qed

lemma abandon_session_cases:
  assumes inv: "db_inv (db w)"
  shows "abandon_session e sid rid w = w
    \<or> (\<exists>s \<in> set (table_sessions (db w)). ts_id s = sid \<and> ts_status s = OPEN
        \<and> db (abandon_session e sid rid w) = abandoned sid rid (t_db e) (db w))"
proof (cases "\<exists>s \<in> set (table_sessions (db w)). ts_id s = sid")
  case True
  then obtain s where "s \<in> set (table_sessions (db w))" "ts_id s = sid" by blast
  with abandon_session_existing [OF keys_okD(8) [OF db_invD(1) [OF inv]], of s e rid]
  show ?thesis by auto
qed (use abandon_session_missing [of w sid e rid] in auto)

lemma db_inv_abandon_session:
  assumes "db_inv (db w)"
  shows "db_inv (db (abandon_session e sid rid w))"
  using abandon_session_cases [OF assms, of e sid rid] assms by (auto simp: db_inv_abandoned)

lemma db_inv_sweep_rows:
  assumes "db_inv (db w)" and e: "\<And>k. good_env (es k)"
  shows "db_inv (db (sweep_rows es fails k rows w))"
  using assms(1)
proof (induction rows arbitrary: k w)
  case (Cons row rows)
  have "db_inv (others (es k) 3 (db w))" using good_envD(1) [OF e Cons.prems] .
  then show ?case by (cases row) (auto simp: Let_def intro!: Cons.IH db_inv_abandon_session)
qed simp

lemma db_inv_run_sweep:
  assumes "db_inv (db w)" and "\<And>k. good_env (es k)"
  shows "db_inv (db (snd (run_sweep es fails now w)))"
  using assms db_inv_sweep_rows [OF assms] by (simp add: run_sweep_def split: sum.splits)

section \<open>Abandoning against checking out\<close>

definition run_abandon :: "env \<Rightarrow> uuid \<Rightarrow> uuid \<Rightarrow> world \<Rightarrow> database option" where
  "run_abandon e sid rid w =
     (case cas_session (\<lambda>s. ts_id s = sid \<and> ts_status s = OPEN) (abandon_set (t_db e)) (db w) of
        None \<Rightarrow> None
      | Some _ \<Rightarrow> Some (db (abandon_session e sid rid w)))"

lemma run_abandon_Some:
  assumes inv: "db_inv (db w)" and r: "run_abandon e sid rid w = Some d'"
  shows "\<exists>s \<in> set (table_sessions (db w)). ts_id s = sid \<and> ts_status s = OPEN
    \<and> d' = abandoned sid rid (t_db e) (db w)"
proof -
  from r have "cas_session (\<lambda>s. ts_id s = sid \<and> ts_status s = OPEN) (abandon_set (t_db e)) (db w) \<noteq> None"
    and d': "d' = db (abandon_session e sid rid w)"
    by (auto simp: run_abandon_def split: option.splits)
  then obtain s where "s \<in> set (table_sessions (db w))" "ts_id s = sid" "ts_status s = OPEN"
    by (auto simp: cas_session_None_iff)
  with abandon_session_existing [OF keys_okD(8) [OF db_invD(1) [OF inv]], of s e rid] d'
  show ?thesis by auto
qed

lemma abandoned_status:
  assumes "db_inv d" and "s \<in> set (table_sessions d)"
  shows "session_status (ts_id s) (abandoned (ts_id s) rid now d) = Some ABANDONED"
  by (subst session_status_updated [OF keys_okD(8) [OF db_invD(1) [OF assms(1)]] assms(2)
        keeps_abandon_set [of now]])
    (simp_all add: abandoned_def abandon_set_def)

interpretation abandon_cas: status_cas db_inv "\<lambda>d. run_abandon e sid rid (w\<lparr>db := d\<rparr>)"
  "session_status sid" "{OPEN}" ABANDONED for e sid rid w
proof (unfold_locales, goal_cases)
  case (1 d d')
  then show ?case using run_abandon_Some [of "w\<lparr>db := d\<rparr>" e sid rid d']
    by (auto simp: db_inv_abandoned)
next
  case (2 d d')
  then show ?case using run_abandon_Some [of "w\<lparr>db := d\<rparr>" e sid rid d']
    session_status_eq [OF keys_okD(8) [OF db_invD(1) [OF 2(1)]]] by auto
next
  case (3 d d')
  then show ?case using run_abandon_Some [of "w\<lparr>db := d\<rparr>" e sid rid d'] abandoned_status by auto
qed

interpretation abandon_then_checkout: cas_race db_inv "\<lambda>d. run_abandon e sid rid (w\<lparr>db := d\<rparr>)"
  "session_status sid" "{OPEN}" ABANDONED "run_checkout im sid rid' now'" "{OPEN}" CLOSED
  for e sid rid w im rid' now'
  by unfold_locales simp

interpretation checkout_then_abandon: cas_race db_inv "run_checkout im sid rid' now'"
  "session_status sid" "{OPEN}" CLOSED "\<lambda>d. run_abandon e sid rid (w\<lparr>db := d\<rparr>)" "{OPEN}" ABANDONED
  for im sid rid' now' e rid w
  by unfold_locales simp

lemma run_abandon_None: "run_abandon e sid rid w = None \<Longrightarrow> abandon_session e sid rid w = w"
  by (auto simp: run_abandon_def abandon_session_def split: option.splits)

lemma run_checkout_None:
  "run_checkout im sid rid now d = None \<Longrightarrow>
    checkout im sid rid now d = Inr (None, d) \<or> (\<exists>x. checkout im sid rid now d = Inl x)"
  by (auto simp: run_checkout_def checkout_def split: sum.splits option.splits)

section \<open>What a sweep does\<close>

text \<open>No operation of a sweep makes an item active.\<close>

definition no_active :: "uuid \<Rightarrow> database \<Rightarrow> bool" where
  "no_active sid d \<longleftrightarrow> (\<forall>i \<in> set (order_items d). in_session sid d i \<longrightarrow> \<not> active (oi_status i))"

lemma abandoned_frame [frame]:
  "orders (abandoned sid rid now d) = orders d"
  "in_session sid' (abandoned sid rid now d) = in_session sid' d"
  by (simp_all add: abandoned_def in_session_def fun_eq_iff)

lemma no_active_abandoned:
  "no_active sid d \<Longrightarrow> no_active sid (abandoned sid' rid now d)"
  "no_active sid (abandoned sid rid now d)"
  by (simp_all add: no_active_def frame)
    (simp_all add: abandoned_def ball_sql_update cancel_set_def unserved_active)

lemma no_active_sweep_rows:
  assumes "db_inv (db w)" and q: "\<And>k. quiet_env (es k)" and "no_active sid (db w)"
  shows "no_active sid (db (sweep_rows es fails k rows w))"
  using assms(1,3)
proof (induction rows arbitrary: k w)
  case (Cons row rows)
  obtain x r where row: "row = (x, r)" by (cases row)
  have "no_active sid (db (abandon_session (es k) x r w))"
    using abandon_session_cases [OF Cons.prems(1), of "es k" x r] Cons.prems(2)
    by (auto simp: no_active_abandoned)
  then show ?case using Cons row quiet_others [OF q]
    by (simp add: Let_def db_inv_abandon_session)
qed simp

lemma session_kept_abandoned:
  assumes "x \<in> set (table_sessions d)" and "ts_id x \<noteq> sid"
  shows "x \<in> set (table_sessions (abandoned sid rid now d))"
  using assms by (auto simp: abandoned_def set_sql_update)

lemma abandon_session_keeps:
  assumes "db_inv (db w)" and "s \<in> set (table_sessions (db w))" and "\<not> (x = ts_id s \<and> ts_status s = OPEN)"
  shows "s \<in> set (table_sessions (db (abandon_session e x r w)))"
  using abandon_session_cases [OF assms(1), of e x r] assms(2,3)
    unique_byD [OF keys_okD(8) [OF db_invD(1) [OF assms(1)]] _ assms(2)] session_kept_abandoned [OF assms(2)] by metis

lemma sweep_rows_Cons:
  assumes "\<And>k. quiet_env (es k)"
  shows "sweep_rows es fails k ((x, r) # rows) w
    = sweep_rows es fails (Suc k) rows (if fails x then w else abandon_session (es k) x r w)"
  using quiet_others [OF assms] by simp

lemma sweep_rows_keeps:
  assumes "db_inv (db w)" and q: "\<And>k. quiet_env (es k)" and "s \<in> set (table_sessions (db w))"
    and "\<not> (ts_id s \<in> fst ` set rows \<and> \<not> fails (ts_id s) \<and> ts_status s = OPEN)"
  shows "s \<in> set (table_sessions (db (sweep_rows es fails k rows w)))"
  using assms(1,3,4)
proof (induction rows arbitrary: k w)
  case (Cons row rows)
  obtain x r where row: "row = (x, r)" by (cases row)
  let ?w = "if fails x then w else abandon_session (es k) x r w"
  have "db_inv (db ?w)" using Cons.prems(1) by (simp add: db_inv_abandon_session)
  moreover have "s \<in> set (table_sessions (db ?w))"
    using Cons.prems row by (auto intro: abandon_session_keeps)
  ultimately show ?case
    unfolding row sweep_rows_Cons [OF q] by (rule Cons.IH) (use Cons.prems(3) row in auto)
qed simp

lemma sweep_rows_abandons:
  assumes "db_inv (db w)" and q: "\<And>k. quiet_env (es k)" and "s \<in> set (table_sessions (db w))"
    and "ts_id s \<in> fst ` set rows" and ok: "\<not> fails (ts_id s)" and "ts_status s = OPEN"
  shows "session_status (ts_id s) (db (sweep_rows es fails k rows w)) = Some ABANDONED
    \<and> no_active (ts_id s) (db (sweep_rows es fails k rows w))"
  using assms(1,3,4)
proof (induction rows arbitrary: k w)
  case (Cons row rows)
  obtain x r where row: "row = (x, r)" by (cases row)
  let ?w = "abandon_session (es k) x r w"
  have inv: "db_inv (db ?w)" by (rule db_inv_abandon_session [OF Cons.prems(1)])
  show ?case
  proof (cases "x = ts_id s")
    case True
    let ?s = "abandon_set (t_db (es k)) s" and ?w' = "sweep_rows es fails (Suc k) rows ?w"
    have w1: "db ?w = abandoned (ts_id s) r (t_db (es k)) (db w)"
      using abandon_session_existing [OF keys_okD(8) [OF db_invD(1) [OF Cons.prems(1)]] Cons.prems(2)] True assms(6) by simp
    have "?s \<in> set (table_sessions (db ?w))"
      using Cons.prems(2) by (auto simp: w1 abandoned_def set_sql_update)
    then have "?s \<in> set (table_sessions (db ?w'))"
      by (rule sweep_rows_keeps [OF inv q]) (simp add: abandon_set_def)
    then have "session_status (ts_id s) (db ?w') = Some ABANDONED"
      using session_status_eq [OF keys_okD(8) [OF db_invD(1) [OF db_inv_sweep_rows [OF inv quiet_good [OF q]]]], of ?s]
      by (simp add: abandon_set_def)
    moreover have "no_active (ts_id s) (db ?w')"
      by (rule no_active_sweep_rows [OF inv q]) (simp add: w1 no_active_abandoned)
    ultimately show ?thesis unfolding row sweep_rows_Cons [OF q] using True ok by simp
  next
    case False
    then have "s \<in> set (table_sessions (db ?w))" by (intro abandon_session_keeps Cons.prems(1,2)) simp
    then show ?thesis
      unfolding row sweep_rows_Cons [OF q] using Cons.prems False row inv by (intro Cons.IH) auto
  qed
qed simp

lemma sweep_rows_effect:
  assumes "db_inv (db w)" and "\<And>k. quiet_env (es k)" and "s \<in> set (table_sessions (db w))"
  shows "if ts_id s \<in> fst ` set rows \<and> \<not> fails (ts_id s) \<and> ts_status s = OPEN
     then session_status (ts_id s) (db (sweep_rows es fails k rows w)) = Some ABANDONED
       \<and> no_active (ts_id s) (db (sweep_rows es fails k rows w))
     else s \<in> set (table_sessions (db (sweep_rows es fails k rows w)))"
  using sweep_rows_abandons [OF assms, where fails = fails and rows = rows and k = k]
    sweep_rows_keeps [OF assms, where fails = fails and rows = rows and k = k] by simp

section \<open>Properties\<close>

definition is_stale :: "timestamp \<Rightarrow> database \<Rightarrow> TableSession \<Rightarrow> bool" where
  "is_stale now d s \<longleftrightarrow> ts_status s = OPEN
     \<and> (\<exists>st \<in> set (restaurant_settings d). rs_restaurant_id st = ts_restaurant_id s
          \<and> ts_last_activity_at s < now - hours (rs_session_timeout_hours st))"

lemma stale_sessions_ids:
  assumes "unique_by ts_id (table_sessions d)" and "stale_sessions now d = Inr rows"
    and "s \<in> set (table_sessions d)"
  shows "ts_id s \<in> fst ` set rows \<longleftrightarrow> is_stale now d s"
proof -
  have mem: "p \<in> set (open_with_settings d) \<longleftrightarrow> fst p \<in> set (table_sessions d)
      \<and> snd p \<in> set (restaurant_settings d) \<and> rs_restaurant_id (snd p) = ts_restaurant_id (fst p)
      \<and> ts_status (fst p) = OPEN" for p
    by (cases p) (auto simp: open_with_settings_def)
  have "rows = map (\<lambda>p. (ts_id (fst p), ts_restaurant_id (fst p)))
      (filter (\<lambda>p. ts_last_activity_at (fst p) < now - hours (rs_session_timeout_hours (snd p)))
        (open_with_settings d))"
    using assms(2) by (auto simp: stale_sessions_def case_prod_unfold split: if_splits)
  then have "set rows = (\<lambda>p. (ts_id (fst p), ts_restaurant_id (fst p))) `
      {p. p \<in> set (open_with_settings d)
        \<and> ts_last_activity_at (fst p) < now - hours (rs_session_timeout_hours (snd p))}"
    by simp
  then have "fst ` set rows = ts_id ` fst ` {p. p \<in> set (open_with_settings d)
        \<and> ts_last_activity_at (fst p) < now - hours (rs_session_timeout_hours (snd p))}"
    by (simp add: image_image)
  also have "fst ` {p. p \<in> set (open_with_settings d)
        \<and> ts_last_activity_at (fst p) < now - hours (rs_session_timeout_hours (snd p))}
      = {x \<in> set (table_sessions d). is_stale now d x}"
    by (auto simp: mem is_stale_def image_iff) blast
  finally have "fst ` set rows = ts_id ` {x \<in> set (table_sessions d). is_stale now d x}" .
  then show ?thesis using assms(1,3) by (auto dest: unique_byD)
qed

text \<open>
  C5 (the sweep). When nothing else commits during it, a sweep that could read the stale sessions
  abandons exactly those: every open session whose last activity is older than its restaurant's
  timeout, except where the connection failed, is abandoned and has no active item left; every
  other session is as it was, so the failure of one session does not stop the others.
\<close>

theorem sweep_abandons_exactly_the_stale:
  assumes "db_inv (db w)" and "\<And>k. quiet_env (es k)"
    and "run_sweep es fails now w = (Inr (), w')"
  shows "db_inv (db w') \<and> (\<forall>s \<in> set (table_sessions (db w)).
      if is_stale now (db w) s \<and> \<not> fails (ts_id s)
      then session_status (ts_id s) (db w') = Some ABANDONED \<and> no_active (ts_id s) (db w')
      else s \<in> set (table_sessions (db w')))"
proof -
  from assms(3) obtain rows where rows: "stale_sessions now (db w) = Inr rows"
    by (auto simp: run_sweep_def split: sum.splits)
  then have w': "w' = sweep_rows es fails 0 rows w"
    using assms(3) by (auto simp: run_sweep_def split: if_splits)
  have "if is_stale now (db w) s \<and> \<not> fails (ts_id s)
      then session_status (ts_id s) (db w') = Some ABANDONED \<and> no_active (ts_id s) (db w')
      else s \<in> set (table_sessions (db w'))" if s: "s \<in> set (table_sessions (db w))" for s
  proof -
    note ids = stale_sessions_ids [OF keys_okD(8) [OF db_invD(1) [OF assms(1)]] rows s]
    have "is_stale now (db w) s \<Longrightarrow> ts_status s = OPEN" by (simp add: is_stale_def)
    with ids have "(ts_id s \<in> fst ` set rows \<and> \<not> fails (ts_id s) \<and> ts_status s = OPEN)
        = (is_stale now (db w) s \<and> \<not> fails (ts_id s))" by auto
    then show ?thesis using sweep_rows_effect [where rows = rows and fails = fails and k = 0, OF assms(1,2) s] w' by simp
  qed
  moreover have "db_inv (db w')"
    unfolding w' by (rule db_inv_sweep_rows [OF assms(1)]) (rule quiet_good [OF assms(2)])
  ultimately show ?thesis by blast
qed

lemma demo_stale: "stale_sessions (hours 7) demo = Inr [(50, 1)]"
  by (simp add: stale_sessions_def open_with_settings_def demo_def demo_rows time_units
      MIN_TIMESTAMP_def)

lemma sweep_abandons_exactly_the_stale_witness:
  "\<exists>w'. run_sweep (\<lambda>_. demo_env) (\<lambda>_. False) (hours 7) \<lparr>db = demo, bus = []\<rparr> = (Inr (), w')
    \<and> session_status 50 (db w') = Some ABANDONED \<and> no_active 50 (db w')"
proof -
  let ?s = "demo_session 50 20 OPEN None"
  obtain w' where r: "run_sweep (\<lambda>_. demo_env) (\<lambda>_. False) (hours 7) \<lparr>db = demo, bus = []\<rparr> = (Inr (), w')"
    using demo_stale by (auto simp: run_sweep_def)
  have "?s \<in> set (table_sessions demo)" by (simp add: demo_def)
  moreover have "is_stale (hours 7) demo ?s"
    by (simp add: is_stale_def demo_def demo_rows time_units)
  moreover have "ts_id ?s = 50" by (simp add: demo_session_def)
  ultimately show ?thesis
    using sweep_abandons_exactly_the_stale [of "\<lparr>db = demo, bus = []\<rparr>" "\<lambda>_. demo_env", OF _ _ r] r
    by (auto simp: quiet_env_def)
qed

text \<open>
  Checkout against the sweep: When a checkout and the sweep go for the same open session,
  whoever commits first wins, also if work that leaves its status alone comes in between: the other
  one changes nothing. A session never ends both billed and abandoned.
\<close>

theorem checkout_and_sweep_exclude_each_other:
  assumes "db_inv (db w1)" and "db_inv (db w2)"
    and "checkout im sid rid now (db w1) = Inr (Some r, d1)"
  shows "(session_status sid (db w2) = session_status sid d1 \<longrightarrow> abandon_session e sid rid' w2 = w2)
    \<and> (run_abandon e' sid rid' w1 = Some d2 \<longrightarrow> session_status sid (db w2) = session_status sid d2 \<longrightarrow>
        checkout im' sid rid now' (db w2) = Inr (None, db w2))"
proof (intro conjI impI)
  assume st: "session_status sid (db w2) = session_status sid d1"
  have "run_checkout im sid rid now (db w1) = Some d1" using assms(3) by (simp add: run_checkout_def)
  from checkout_then_abandon.second_loses_later [OF assms(1) this assms(2) st, of e rid' w2]
  show "abandon_session e sid rid' w2 = w2" by (simp add: run_abandon_None)
next
  assume a: "run_abandon e' sid rid' w1 = Some d2"
    and st: "session_status sid (db w2) = session_status sid d2"
  have "session_status sid (db w2) = Some ABANDONED"
    using abandon_cas.run_target [OF assms(1), of e' sid rid' w1] a st by simp
  then have "\<not> session_where sid rid OPEN s" if "s \<in> set (table_sessions (db w2))" for s
    using session_status_eq [OF keys_okD(8) [OF db_invD(1) [OF assms(2)]] that]
    by (auto simp: session_where_def)
  then have "cas_session (session_where sid rid OPEN) (close_set now') (db w2) = None"
    by (simp add: cas_session_None_iff)
  then show "checkout im' sid rid now' (db w2) = Inr (None, db w2)" by (simp add: checkout_def)
qed

lemma checkout_and_sweep_exclude_each_other_witness:
  "\<exists>r d1. checkout Map.empty 50 1 (hours 7) demo = Inr (Some r, d1)
     \<and> abandon_session demo_env 50 1 \<lparr>db = d1, bus = []\<rparr> = \<lparr>db = d1, bus = []\<rparr>"
proof -
  have s: "demo_session 50 20 OPEN None \<in> set (table_sessions demo)" by (simp add: demo_def)
  have "served_total 50 demo = 9000000"
    by (simp add: served_total_def in_session_def demo_def demo_rows)
  then obtain r d1 where r: "checkout Map.empty 50 1 (hours 7) demo = Inr (Some r, d1)"
    using checkout_existing [OF keys_okD(8) [OF demo_keys] s, of Map.empty "hours 7"]
    by (simp add: demo_session_def fits_numeric_12_2_def)
  moreover have "db_inv d1" using db_inv_checkout [OF demo_inv r] .
  ultimately show ?thesis
    using checkout_and_sweep_exclude_each_other
      [of "\<lparr>db = demo, bus = []\<rparr>" "\<lparr>db = d1, bus = []\<rparr>" Map.empty 50 1 "hours 7" r d1] by auto
qed

text \<open>
  One restaurant's timeout stops every sweep: The timeout has a lower bound but no upper one.
  If one restaurant with an open session sets it so high that the time it leads to is before the
  first timestamp the database can represent, the one query of the sweep raises, and no session of
  any restaurant is abandoned.
\<close>

theorem huge_timeout_stops_the_sweep:
  assumes "s \<in> set (table_sessions (db w))" and "ts_status s = OPEN"
    and "st \<in> set (restaurant_settings (db w))" and "rs_restaurant_id st = ts_restaurant_id s"
    and "now - hours (rs_session_timeout_hours st) < MIN_TIMESTAMP"
  shows "run_sweep es fails now w = (Inl (DBAPIError ''timestamp out of range''), w)"
proof -
  have "(s, st) \<in> set (open_with_settings (db w))"
    using assms(1-4) by (auto simp: open_with_settings_def)
  with assms(5) have "stale_sessions now (db w) = Inl (DBAPIError ''timestamp out of range'')"
    by (auto simp: stale_sessions_def)
  then show ?thesis by (simp add: run_sweep_def)
qed

lemma huge_timeout_stops_the_sweep_witness:
  "run_sweep (\<lambda>_. demo_env) (\<lambda>_. False) (seconds 1700000000)
     \<lparr>db = demo\<lparr>restaurant_settings := [(demo_settings 1)\<lparr>rs_session_timeout_hours := 2000000000\<rparr>]\<rparr>,
      bus = []\<rparr>
   = (Inl (DBAPIError ''timestamp out of range''),
     \<lparr>db = demo\<lparr>restaurant_settings := [(demo_settings 1)\<lparr>rs_session_timeout_hours := 2000000000\<rparr>]\<rparr>,
      bus = []\<rparr>)"
  by (rule huge_timeout_stops_the_sweep [of "demo_session 50 20 OPEN None" _
        "(demo_settings 1)\<lparr>rs_session_timeout_hours := 2000000000\<rparr>"])
    (simp_all add: demo_def demo_rows time_units MIN_TIMESTAMP_def)

text \<open>What the jobs rely on of Redis: \<^verbatim>\<open>SET NX\<close> stores the value exactly if the key is absent.\<close>

definition redis_laws :: "'r redis_api \<Rightarrow> bool" where
  "redis_laws api \<longleftrightarrow>
     (\<forall>k v t r. fst (set_nx_ex api k v t r) = (get_key api k r = None))
     \<and> (\<forall>k v t r. get_key api k (snd (set_nx_ex api k v t r))
          = (if get_key api k r = None then Some v else get_key api k r))
     \<and> (\<forall>k r. get_key api k (delete_key api k r) = None)"

definition map_redis :: "(string \<rightharpoonup> string) redis_api" where
  "map_redis = \<lparr>set_nx_ex = (\<lambda>k v t m. if m k = None then (True, m(k \<mapsto> v)) else (False, m)),
     get_key = (\<lambda>k m. m k), delete_key = (\<lambda>k m. m(k := None))\<rparr>"

lemma map_redis_laws: "redis_laws map_redis"
  by (auto simp: redis_laws_def map_redis_def)

text \<open>
  The lock: While another instance holds the sweep's key, a sweep changes nothing. Otherwise
  it runs; afterwards the key is free again if nobody touched it, and a key that expired and was
  taken by another instance before the \<^verbatim>\<open>GET\<close> is left to that instance.
\<close>

theorem sweep_respects_lock:
  assumes "redis_laws api"
    and "sweep_abandoned_sessions api gap inst ttl es fails now r w = (r', w')"
  shows "(get_key api LOCK_KEY r \<noteq> None \<longrightarrow> w' = w
        \<and> get_key api LOCK_KEY r' = get_key api LOCK_KEY r)
    \<and> (get_key api LOCK_KEY r = None \<longrightarrow> w' = snd (run_sweep es fails now w)
        \<and> ((\<forall>k x. gap k x = x) \<longrightarrow> get_key api LOCK_KEY r' = None)
        \<and> (\<forall>other. other \<noteq> inst \<longrightarrow> (\<forall>x. get_key api LOCK_KEY (gap 0 x) = Some other) \<longrightarrow>
             get_key api LOCK_KEY r' = Some other))"
proof -
  obtain ok r1 where s: "set_nx_ex api LOCK_KEY inst ttl r = (ok, r1)" by fastforce
  obtain res w1 where b: "run_sweep es fails now w = (res, w1)" by fastforce
  from assms(1) have "fst (set_nx_ex api LOCK_KEY inst ttl r) = (get_key api LOCK_KEY r = None)"
    and "get_key api LOCK_KEY (snd (set_nx_ex api LOCK_KEY inst ttl r))
      = (if get_key api LOCK_KEY r = None then Some inst else get_key api LOCK_KEY r)"
    and del: "\<And>x. get_key api LOCK_KEY (delete_key api LOCK_KEY x) = None"
    by (simp_all add: redis_laws_def)
  then show ?thesis using assms(2) s b del
    by (auto simp: sweep_abandoned_sessions_def with_lock_def Let_def split: if_splits)
qed

lemma sweep_respects_lock_witness:
  "snd (sweep_abandoned_sessions map_redis (\<lambda>_ m. m) ''me'' 300 (\<lambda>_. demo_env) (\<lambda>_. False)
     (hours 7) [LOCK_KEY \<mapsto> ''other''] \<lparr>db = demo, bus = []\<rparr>) = \<lparr>db = demo, bus = []\<rparr>"
proof -
  obtain r' w' where "sweep_abandoned_sessions map_redis (\<lambda>_ m. m) ''me'' 300 (\<lambda>_. demo_env)
      (\<lambda>_. False) (hours 7) [LOCK_KEY \<mapsto> ''other''] \<lparr>db = demo, bus = []\<rparr> = (r', w')" by fastforce
  with sweep_respects_lock [OF map_redis_laws this] show ?thesis by (simp add: map_redis_def)
qed

text \<open>
  The release is not atomic: The comparison of the holder and the deletion are two commands.
  If the lock expires between them and another instance takes it, the first instance deletes the
  lock of the other one, which is still running.
\<close>

theorem release_may_delete_anothers_lock:
  assumes "redis_laws api" and "get_key api LOCK_KEY r = None"
    and "\<And>x. gap 0 x = x" and "\<And>x. get_key api LOCK_KEY (gap 1 x) = Some other"
  shows "get_key api LOCK_KEY (fst (sweep_abandoned_sessions api gap inst ttl es fails now r w)) = None"
proof -
  obtain ok r1 where s: "set_nx_ex api LOCK_KEY inst ttl r = (ok, r1)" by fastforce
  obtain res w1 where b: "run_sweep es fails now w = (res, w1)" by fastforce
  from assms(1,2) have "fst (set_nx_ex api LOCK_KEY inst ttl r)"
    and "get_key api LOCK_KEY (snd (set_nx_ex api LOCK_KEY inst ttl r)) = Some inst"
    and del: "\<And>x. get_key api LOCK_KEY (delete_key api LOCK_KEY x) = None"
    by (simp_all add: redis_laws_def)
  then show ?thesis using assms(3) s b del
    by (simp add: sweep_abandoned_sessions_def with_lock_def)
qed

lemma release_may_delete_anothers_lock_witness:
  "fst (sweep_abandoned_sessions map_redis (\<lambda>k m. if k = 1 then m(LOCK_KEY \<mapsto> ''other'') else m)
     ''me'' 300 (\<lambda>_. demo_env) (\<lambda>_. False) (hours 7) Map.empty \<lparr>db = demo, bus = []\<rparr>) LOCK_KEY = None"
  using release_may_delete_anothers_lock [OF map_redis_laws, of Map.empty
      "\<lambda>k m. if k = 1 then m(LOCK_KEY \<mapsto> ''other'') else m" "''other''" "''me''" 300
      "\<lambda>_. demo_env" "\<lambda>_. False" "hours 7" "\<lparr>db = demo, bus = []\<rparr>"]
  by (simp add: map_redis_def)

end
