(* ===== verification/Schemas.thy ===== *)
theory Schemas imports Models begin

text \<open>
  \<^verbatim>\<open>qorder_api/schemas/\<close>: the request bodies with their Pydantic constraints and the response
  models, one record each; \<open><name>_of\<close> is \<^verbatim>\<open>model_validate\<close> of the row (\<^verbatim>\<open>from_attributes\<close>).
\<close>

section \<open>Responses and requests\<close>

record CustomerMenuItemResponse =
  cmi_id :: uuid
  cmi_name :: string
  cmi_description :: "string option"
  cmi_price :: money
  cmi_prep_time_minutes :: int
  cmi_is_available :: bool
  cmi_image_url :: "string option"
  cmi_image_large_url :: "string option"
  cmi_is_featured :: bool
  cmi_category_id :: "uuid option"

definition customer_menu_item_of :: "MenuItem \<Rightarrow> CustomerMenuItemResponse" where
  "customer_menu_item_of x =
    \<lparr>cmi_id = mi_id x, cmi_name = mi_name x, cmi_description = mi_description x,
     cmi_price = mi_price x, cmi_prep_time_minutes = mi_prep_time_minutes x,
     cmi_is_available = mi_is_available x, cmi_image_url = mi_image_url x,
     cmi_image_large_url = mi_image_large_url x, cmi_is_featured = mi_is_featured x,
     cmi_category_id = mi_category_id x\<rparr>"

record CustomerMenuCategoryResponse =
  cmc_id :: uuid
  cmc_name :: string
  cmc_sort_order :: int
  cmc_items :: "CustomerMenuItemResponse list"

record QRRestaurantInfo =
  qri_name :: string
  qri_slug :: string
  qri_currency :: string
  qri_logo_url :: "string option"

record QRTableInfo =
  qti_id :: uuid
  qti_table_number :: string

definition qr_table_info_of :: "Table \<Rightarrow> QRTableInfo" where
  "qr_table_info_of x =
    \<lparr>qti_id = t_id x, qti_table_number = t_table_number x\<rparr>"

record QRResolveResponse =
  qrr_restaurant :: QRRestaurantInfo
  qrr_table :: QRTableInfo
  qrr_menu :: "CustomerMenuCategoryResponse list"

record CreateOrderItemRequest =
  cir_menu_item_id :: uuid
  cir_quantity :: int
  cir_note :: "string option"

record OrderItemResponse =
  oir_id :: uuid
  oir_menu_item_id :: uuid
  oir_name_snapshot :: string
  oir_price_snapshot :: money
  oir_prep_time_snapshot :: int
  oir_quantity :: int
  oir_note :: "string option"
  oir_status :: OrderItemStatus
  oir_requested_at :: timestamp

definition order_item_response_of :: "OrderItem \<Rightarrow> OrderItemResponse" where
  "order_item_response_of x =
    \<lparr>oir_id = oi_id x, oir_menu_item_id = oi_menu_item_id x,
     oir_name_snapshot = oi_name_snapshot x, oir_price_snapshot = oi_price_snapshot x,
     oir_prep_time_snapshot = oi_prep_time_snapshot x, oir_quantity = oi_quantity x,
     oir_note = oi_note x, oir_status = oi_status x,
     oir_requested_at = oi_requested_at x\<rparr>"

record CreateOrderResponse =
  cor_id :: uuid
  cor_table_session_id :: uuid
  cor_created_at :: timestamp
  cor_items :: "OrderItemResponse list"

record CancelledItemResponse =
  cdr_id :: uuid
  cdr_order_id :: uuid
  cdr_menu_item_id :: uuid
  cdr_name_snapshot :: string
  cdr_price_snapshot :: money
  cdr_prep_time_snapshot :: int
  cdr_quantity :: int
  cdr_note :: "string option"
  cdr_status :: OrderItemStatus
  cdr_requested_at :: timestamp
  cdr_cancelled_by :: "CancelledBy option"
  cdr_cancelled_at :: "timestamp option"
  cdr_cancel_reason :: "string option"

definition cancelled_item_of :: "OrderItem \<Rightarrow> CancelledItemResponse" where
  "cancelled_item_of x =
    \<lparr>cdr_id = oi_id x, cdr_order_id = oi_order_id x,
     cdr_menu_item_id = oi_menu_item_id x, cdr_name_snapshot = oi_name_snapshot x,
     cdr_price_snapshot = oi_price_snapshot x,
     cdr_prep_time_snapshot = oi_prep_time_snapshot x, cdr_quantity = oi_quantity x,
     cdr_note = oi_note x, cdr_status = oi_status x, cdr_requested_at = oi_requested_at x,
     cdr_cancelled_by = oi_cancelled_by x, cdr_cancelled_at = oi_cancelled_at x,
     cdr_cancel_reason = oi_cancel_reason x\<rparr>"

record KitchenOrderItemResponse =
  koi_id :: uuid
  koi_order_id :: uuid
  koi_menu_item_id :: uuid
  koi_name_snapshot :: string
  koi_price_snapshot :: money
  koi_prep_time_snapshot :: int
  koi_quantity :: int
  koi_note :: "string option"
  koi_status :: OrderItemStatus
  koi_requested_at :: timestamp
  koi_served_by :: "uuid option"
  koi_served_at :: "timestamp option"

definition kitchen_order_item_of :: "OrderItem \<Rightarrow> KitchenOrderItemResponse" where
  "kitchen_order_item_of x =
    \<lparr>koi_id = oi_id x, koi_order_id = oi_order_id x,
     koi_menu_item_id = oi_menu_item_id x, koi_name_snapshot = oi_name_snapshot x,
     koi_price_snapshot = oi_price_snapshot x,
     koi_prep_time_snapshot = oi_prep_time_snapshot x, koi_quantity = oi_quantity x,
     koi_note = oi_note x, koi_status = oi_status x, koi_requested_at = oi_requested_at x,
     koi_served_by = oi_served_by x, koi_served_at = oi_served_at x\<rparr>"

record KitchenBoardItemResponse =
  kbi_id :: uuid
  kbi_order_id :: uuid
  kbi_menu_item_id :: uuid
  kbi_name_snapshot :: string
  kbi_price_snapshot :: money
  kbi_prep_time_snapshot :: int
  kbi_quantity :: int
  kbi_note :: "string option"
  kbi_status :: OrderItemStatus
  kbi_requested_at :: timestamp
  kbi_overdue_level :: "nat option"

record OrderItemSnapshotResponse =
  ois_id :: uuid
  ois_order_id :: uuid
  ois_menu_item_id :: uuid
  ois_name_snapshot :: string
  ois_price_snapshot :: money
  ois_prep_time_snapshot :: int
  ois_quantity :: int
  ois_note :: "string option"
  ois_status :: OrderItemStatus
  ois_requested_at :: timestamp
  ois_served_at :: "timestamp option"
  ois_cancelled_at :: "timestamp option"
  ois_cancelled_by :: "CancelledBy option"
  ois_cancel_reason :: "string option"

definition order_item_snapshot_of :: "OrderItem \<Rightarrow> OrderItemSnapshotResponse" where
  "order_item_snapshot_of x =
    \<lparr>ois_id = oi_id x, ois_order_id = oi_order_id x,
     ois_menu_item_id = oi_menu_item_id x, ois_name_snapshot = oi_name_snapshot x,
     ois_price_snapshot = oi_price_snapshot x,
     ois_prep_time_snapshot = oi_prep_time_snapshot x, ois_quantity = oi_quantity x,
     ois_note = oi_note x, ois_status = oi_status x, ois_requested_at = oi_requested_at x,
     ois_served_at = oi_served_at x, ois_cancelled_at = oi_cancelled_at x,
     ois_cancelled_by = oi_cancelled_by x, ois_cancel_reason = oi_cancel_reason x\<rparr>"

record SessionResponse =
  sr_id :: uuid
  sr_restaurant_id :: uuid
  sr_table_id :: uuid
  sr_status :: SessionStatus
  sr_opened_by :: "uuid option"
  sr_opened_at :: timestamp
  sr_last_activity_at :: timestamp
  sr_closed_at :: "timestamp option"
  sr_abandoned_at :: "timestamp option"
  sr_total_amount :: "money option"

definition session_response_of :: "TableSession \<Rightarrow> SessionResponse" where
  "session_response_of x =
    \<lparr>sr_id = ts_id x, sr_restaurant_id = ts_restaurant_id x,
     sr_table_id = ts_table_id x, sr_status = ts_status x, sr_opened_by = ts_opened_by x,
     sr_opened_at = ts_opened_at x, sr_last_activity_at = ts_last_activity_at x,
     sr_closed_at = ts_closed_at x, sr_abandoned_at = ts_abandoned_at x,
     sr_total_amount = ts_total_amount x\<rparr>"

record SessionSnapshotResponse =
  ssr_id :: uuid
  ssr_restaurant_id :: uuid
  ssr_table_id :: uuid
  ssr_status :: SessionStatus
  ssr_opened_by :: "uuid option"
  ssr_opened_at :: timestamp
  ssr_last_activity_at :: timestamp
  ssr_closed_at :: "timestamp option"
  ssr_abandoned_at :: "timestamp option"
  ssr_total_amount :: "money option"
  ssr_items :: "OrderItemSnapshotResponse list"

record CancelledItemSummary =
  cis_id :: uuid
  cis_name_snapshot :: string
  cis_quantity :: int
  cis_status_before :: OrderItemStatus

record CheckoutResponse =
  chr_session :: SessionResponse
  chr_total_amount :: money
  chr_auto_cancelled_items :: "CancelledItemSummary list"
  chr_dismissed_calls_count :: nat

record RestoreResponse =
  rer_session :: SessionResponse
  rer_action :: string
  rer_total_amount :: "money option"
  rer_auto_cancelled_items :: "CancelledItemSummary list"
  rer_dismissed_calls_count :: nat

record StaffCallResponse =
  scr_id :: uuid
  scr_restaurant_id :: uuid
  scr_table_id :: uuid
  scr_table_session_id :: uuid
  scr_status :: StaffCallStatus
  scr_created_at :: timestamp
  scr_acknowledged_at :: "timestamp option"
  scr_acknowledged_by :: "uuid option"

definition staff_call_response_of :: "StaffCall \<Rightarrow> StaffCallResponse" where
  "staff_call_response_of x =
    \<lparr>scr_id = sc_id x, scr_restaurant_id = sc_restaurant_id x,
     scr_table_id = sc_table_id x, scr_table_session_id = sc_table_session_id x,
     scr_status = sc_status x, scr_created_at = sc_created_at x,
     scr_acknowledged_at = sc_acknowledged_at x,
     scr_acknowledged_by = sc_acknowledged_by x\<rparr>"

section \<open>Constraints of the requests\<close>

text \<open>\<^verbatim>\<open>CreateOrderRequest\<close>: at least one item, each with a positive quantity.\<close>

definition valid_create_order :: "CreateOrderItemRequest list \<Rightarrow> bool" where
  "valid_create_order items \<longleftrightarrow> items \<noteq> [] \<and> (\<forall>r \<in> set items. 0 < cir_quantity r)"

text \<open>
  Texts are UTF-8 bytes; \<^verbatim>\<open>min_length\<close> and \<^verbatim>\<open>max_length\<close> count characters, that is the bytes that do not continue one.
\<close>

definition characters :: "string \<Rightarrow> nat" where
  "characters s = length (filter (\<lambda>c. of_char c div 64 \<noteq> (2 :: nat)) s)"

text \<open>\<^verbatim>\<open>CancelItemRequest\<close>: the reason is optional, of at most 500 characters.\<close>

definition valid_cancel_reason :: "string option \<Rightarrow> bool" where
  "valid_cancel_reason reason \<longleftrightarrow> (case reason of None \<Rightarrow> True | Some r \<Rightarrow> characters r \<le> 500)"

lemmas response_defs = customer_menu_item_of_def qr_table_info_of_def order_item_response_of_def
  cancelled_item_of_def kitchen_order_item_of_def order_item_snapshot_of_def
  session_response_of_def staff_call_response_of_def

end
