(* ===== verification/Customer.thy ===== *)
theory Customer imports Sessions Schemas begin

text \<open>
  \<^verbatim>\<open>qorder_api/api/customer_router.py\<close>: what a customer can do with the QR code of a table. The
  five handlers start with the same two lookups (\<open>resolve_table\<close>). \<open>others e 3\<close> is what other
  connections commit between the last check of a handler and its first write, \<open>others e 4\<close>,
  \<open>others e 5\<close>, \<open>\<dots>\<close> what they commit before each of the refreshes that follow the commit of an order. After a rollback in
  \<open>get_or_open\<close>, reading \<^verbatim>\<open>restaurant.id\<close> or \<^verbatim>\<open>table.id\<close> raises (see \<^verbatim>\<open>Sessions\<close>). Rows with equal sort
  keys keep the order of the table, which SQL leaves open.
\<close>

section \<open>The lookups\<close>

definition resolve_table :: "string \<Rightarrow> database \<Rightarrow> (Table \<times> Restaurant) result" where
  "resolve_table qr_token d =
     (case scalar_one_or_none (filter (\<lambda>t. t_qr_token t = qr_token \<and> t_is_active t) (tables d)) of
        Inl x \<Rightarrow> Inl x
      | Inr None \<Rightarrow> Inl (HTTPException 404 InvalidQR)
      | Inr (Some table) \<Rightarrow>
          (case scalar_one_or_none (filter (\<lambda>r. r_id r = t_restaurant_id table \<and> r_is_active r)
                  (restaurants d)) of
             Inl x \<Rightarrow> Inl x
           | Inr None \<Rightarrow> Inl (HTTPException 404 RestaurantNotActive)
           | Inr (Some restaurant) \<Rightarrow> Inr (table, restaurant)))"

section \<open>GET /t/{qr_token}\<close>

definition settings_of :: "uuid \<Rightarrow> database \<Rightarrow> RestaurantSettings option" where
  "settings_of rid d = first_row (filter (\<lambda>s. rs_restaurant_id s = rid) (restaurant_settings d))"

definition customer_menu :: "uuid \<Rightarrow> database \<Rightarrow> CustomerMenuCategoryResponse list" where
  "customer_menu rid d =
     (let categories = sort_key mc_sort_order
            (filter (\<lambda>c. mc_restaurant_id c = rid \<and> mc_is_active c) (menu_categories d));
          items = sort_key mi_sort_order
            (filter (\<lambda>i. mi_restaurant_id i = rid \<and> mi_is_active i) (menu_items d))
      in map (\<lambda>cat. \<lparr>cmc_id = mc_id cat, cmc_name = mc_name cat, cmc_sort_order = mc_sort_order cat,
             cmc_items = map customer_menu_item_of
               (filter (\<lambda>i. mi_category_id i = Some (mc_id cat)) items)\<rparr>) categories)"

definition resolve_qr :: "string \<Rightarrow> database \<Rightarrow> QRResolveResponse result" where
  "resolve_qr qr_token d =
     (case resolve_table qr_token d of
        Inl x \<Rightarrow> Inl x
      | Inr (table, restaurant) \<Rightarrow>
          Inr \<lparr>qrr_restaurant = \<lparr>qri_name = r_name restaurant, qri_slug = r_slug restaurant,
                 qri_currency = (case settings_of (r_id restaurant) d of
                    None \<Rightarrow> ''VND'' | Some s \<Rightarrow> rs_currency s),
                 qri_logo_url = (case settings_of (r_id restaurant) d of
                    None \<Rightarrow> None | Some s \<Rightarrow> rs_logo_url s)\<rparr>,
               qrr_table = qr_table_info_of table,
               qrr_menu = customer_menu (r_id restaurant) d\<rparr>)"

section \<open>GET /t/{qr_token}/session\<close>

definition items_of_session :: "uuid \<Rightarrow> database \<Rightarrow> OrderItem list" where
  "items_of_session sid d =
     sort_key oi_requested_at (filter (in_session sid d) (order_items d))"

definition get_session_snapshot :: "env \<Rightarrow> string \<Rightarrow> world \<Rightarrow> SessionSnapshotResponse result \<times> world" where
  "get_session_snapshot e qr_token w =
     (case resolve_table qr_token (db w) of
        Inl x \<Rightarrow> (Inl x, w)
      | Inr (table, restaurant) \<Rightarrow>
          (case get_or_open e (t_id table) (r_id restaurant) None (db w) of
             (Inl x, d) \<Rightarrow> (Inl x, w\<lparr>db := d\<rparr>)
           | (Inr (s, _), d) \<Rightarrow>
               (Inr \<lparr>ssr_id = ts_id s, ssr_restaurant_id = ts_restaurant_id s,
                  ssr_table_id = ts_table_id s, ssr_status = ts_status s,
                  ssr_opened_by = ts_opened_by s, ssr_opened_at = ts_opened_at s,
                  ssr_last_activity_at = ts_last_activity_at s, ssr_closed_at = ts_closed_at s,
                  ssr_abandoned_at = ts_abandoned_at s, ssr_total_amount = ts_total_amount s,
                  ssr_items = map order_item_snapshot_of (items_of_session (ts_id s) d)\<rparr>,
                w\<lparr>db := d\<rparr>)))"

section \<open>POST /t/{qr_token}/orders\<close>

text \<open>Step e, the loop over the requested items: the first one that fails is reported.\<close>

fun validate_items :: "uuid \<Rightarrow> database \<Rightarrow> CreateOrderItemRequest list \<Rightarrow> MenuItem list result" where
  "validate_items rid d [] = Inr []"
| "validate_items rid d (req # reqs) =
     (case scalar_one_or_none (filter (\<lambda>m. mi_id m = cir_menu_item_id req
             \<and> mi_restaurant_id m = rid \<and> mi_is_active m) (menu_items d)) of
        Inl x \<Rightarrow> Inl x
      | Inr None \<Rightarrow> Inl (HTTPException 400 (MenuItemMissing (cir_menu_item_id req)))
      | Inr (Some menu_item) \<Rightarrow>
          if \<not> mi_is_available menu_item
          then Inl (HTTPException 400 (MenuItemSoldOut (mi_name menu_item)))
          else (case validate_items rid d reqs of
                  Inl x \<Rightarrow> Inl x
                | Inr ms \<Rightarrow> Inr (menu_item # ms)))"

text \<open>Step g: the order items with their snapshots, pending by the default of the column.\<close>

definition new_order_item :: "env \<Rightarrow> uuid \<Rightarrow> uuid \<Rightarrow> nat \<Rightarrow> CreateOrderItemRequest \<Rightarrow> MenuItem
    \<Rightarrow> OrderItem" where
  "new_order_item e rid order_id k req mi =
     \<lparr>oi_id = gen e (2 + k), oi_restaurant_id = rid, oi_order_id = order_id,
      oi_menu_item_id = mi_id mi, oi_name_snapshot = mi_name mi, oi_price_snapshot = mi_price mi,
      oi_prep_time_snapshot = mi_prep_time_minutes mi, oi_quantity = cir_quantity req,
      oi_note = cir_note req, oi_status = PENDING, oi_requested_at = t_py e, oi_served_by = None,
      oi_served_at = None, oi_cancelled_by = None, oi_cancelled_at = None,
      oi_cancel_reason = None\<rparr>"

fun new_order_items :: "env \<Rightarrow> uuid \<Rightarrow> uuid \<Rightarrow> nat \<Rightarrow> CreateOrderItemRequest list \<Rightarrow> MenuItem list
    \<Rightarrow> OrderItem list" where
  "new_order_items e rid oid k (req # reqs) (mi # mis) =
     new_order_item e rid oid k req mi # new_order_items e rid oid (Suc k) reqs mis"
| "new_order_items e rid oid k _ _ = []"

definition place_order :: "env \<Rightarrow> uuid \<Rightarrow> TableSession \<Rightarrow> CreateOrderItemRequest list \<Rightarrow> MenuItem list
    \<Rightarrow> database \<Rightarrow> (Order \<times> OrderItem list \<times> database) result" where
  "place_order e rid table_session items menu_items_found d =
     (let order = \<lparr>o_id = gen e 1, o_restaurant_id = rid,
            o_table_session_id = ts_id table_session, o_note = None, o_created_at = t_db e\<rparr>
      in case insert_order order d of
           Inl x \<Rightarrow> Inl x
         | Inr d1 \<Rightarrow>
             (let ois = new_order_items e rid (o_id order) 0 items menu_items_found
              in case insert_order_items ois d1 of
                   Inl x \<Rightarrow> Inl x
                 | Inr d2 \<Rightarrow> Inr (order, ois, touch_session (ts_id table_session) (t_py e) d2)))"

text \<open>
  Step i, after the commit: \<^verbatim>\<open>refresh(order)\<close> and \<^verbatim>\<open>refresh(oi)\<close> for each item read the rows back, one statement
  each, whatever became of them meanwhile.
\<close>

fun refresh_items :: "env \<Rightarrow> nat \<Rightarrow> OrderItem list \<Rightarrow> database \<Rightarrow> OrderItem list result \<times> database" where
  "refresh_items e k [] d = (Inr [], d)"
| "refresh_items e k (oi # ois) d =
     (let d1 = others e k d
      in case scalar_one (filter (\<lambda>i. oi_id i = oi_id oi) (order_items d1)) of
           Inl x \<Rightarrow> (Inl x, d1)
         | Inr row \<Rightarrow>
             (case refresh_items e (Suc k) ois d1 of
                (Inl x, d2) \<Rightarrow> (Inl x, d2)
              | (Inr rows, d2) \<Rightarrow> (Inr (row # rows), d2)))"

definition refresh_order :: "env \<Rightarrow> Order \<Rightarrow> OrderItem list \<Rightarrow> database
    \<Rightarrow> (Order \<times> OrderItem list) result \<times> database" where
  "refresh_order e order ois d =
     (let d1 = others e 4 d
      in case scalar_one (filter (\<lambda>r. o_id r = o_id order) (orders d1)) of
           Inl x \<Rightarrow> (Inl x, d1)
         | Inr row \<Rightarrow>
             (case refresh_items e 5 ois d1 of
                (Inl x, d2) \<Rightarrow> (Inl x, d2)
              | (Inr rows, d2) \<Rightarrow> (Inr (row, rows), d2)))"

definition order_payload :: "Order \<Rightarrow> OrderItem list \<Rightarrow> (string \<times> payload) list" where
  "order_payload order ois =
     [(''order'', PDict
        [(''id'', PId (o_id order)), (''table_session_id'', PId (o_table_session_id order)),
         (''items'', PList (map (\<lambda>oi. PDict
            [(''id'', PId (oi_id oi)), (''name_snapshot'', PStr (oi_name_snapshot oi)),
             (''quantity'', PInt (oi_quantity oi)),
             (''status'', PStr (item_status_value (oi_status oi)))]) ois))])]"

definition create_order :: "env \<Rightarrow> string \<Rightarrow> CreateOrderItemRequest list \<Rightarrow> world
    \<Rightarrow> CreateOrderResponse result \<times> world" where
  "create_order e qr_token items w =
     (if \<not> valid_create_order items then (Inl (HTTPException 422 ValidationFailed), w)
      else case resolve_table qr_token (db w) of
        Inl x \<Rightarrow> (Inl x, w)
      | Inr (table, restaurant) \<Rightarrow>
          (case get_or_open e (t_id table) (r_id restaurant) None (db w) of
             (Inl x, d) \<Rightarrow> (Inl x, w\<lparr>db := d\<rparr>)
           | (Inr (table_session, rolled_back), d) \<Rightarrow>
               if ts_status table_session \<noteq> OPEN
               then (Inl (HTTPException 400 SessionNotOpen), w\<lparr>db := d\<rparr>)
               else if rolled_back then (Inl MissingGreenlet, w\<lparr>db := d\<rparr>)
               else (case validate_items (r_id restaurant) d items of
                  Inl x \<Rightarrow> (Inl x, w\<lparr>db := d\<rparr>)
                | Inr mis \<Rightarrow>
                    (let d1 = others e 3 d
                     in case place_order e (r_id restaurant) table_session items mis d1 of
                          Inl x \<Rightarrow> (Inl x, w\<lparr>db := d1\<rparr>)
                        | Inr (order, ois, d2) \<Rightarrow>
                            (case refresh_order e order ois d2 of
                               (Inl x, d3) \<Rightarrow> (Inl x, w\<lparr>db := d3\<rparr>)
                             | (Inr (order, ois), d3) \<Rightarrow>
                                 (Inr \<lparr>cor_id = o_id order, cor_table_session_id = o_table_session_id order,
                                    cor_created_at = o_created_at order,
                                    cor_items = map order_item_response_of ois\<rparr>,
                                  publish_both e (r_id restaurant) (ts_id table_session) ORDER_CREATED
                                    (order_payload order ois) (w\<lparr>db := d3\<rparr>)))))))"

section \<open>POST /t/{qr_token}/items/{item_id}/cancel\<close>

definition customer_cancel_payload :: "OrderItem \<Rightarrow> (string \<times> payload) list" where
  "customer_cancel_payload i =
     [(''item'', PDict [(''id'', PId (oi_id i)), (''status'', PStr (item_status_value (oi_status i))),
        (''cancelled_by'', PStr ''customer'')])]"

definition cancel_item_customer :: "env \<Rightarrow> string \<Rightarrow> uuid \<Rightarrow> string option \<Rightarrow> world
    \<Rightarrow> CancelledItemResponse result \<times> world" where
  "cancel_item_customer e qr_token item_id reason w =
     (if \<not> valid_cancel_reason reason then (Inl (HTTPException 422 ValidationFailed), w)
      else case resolve_table qr_token (db w) of
        Inl x \<Rightarrow> (Inl x, w)
      | Inr (table, restaurant) \<Rightarrow>
          (case get_or_open e (t_id table) (r_id restaurant) None (db w) of
             (Inl x, d) \<Rightarrow> (Inl x, w\<lparr>db := d\<rparr>)
           | (Inr (table_session, rolled_back), d) \<Rightarrow>
               if rolled_back then (Inl MissingGreenlet, w\<lparr>db := d\<rparr>)
               else (case scalar_one_or_none (filter (\<lambda>i. oi_id i = item_id
                        \<and> in_session (ts_id table_session) d i
                        \<and> oi_restaurant_id i = r_id restaurant) (order_items d)) of
                  Inl x \<Rightarrow> (Inl x, w\<lparr>db := d\<rparr>)
                | Inr None \<Rightarrow> (Inl (HTTPException 404 ItemNotInSession), w\<lparr>db := d\<rparr>)
                | Inr (Some _) \<Rightarrow>
                    (let d1 = others e 3 d
                     in case cancel_item item_id BY_CUSTOMER (r_id restaurant) [PENDING] reason
                               (t_db e) d1 of
                          Inl (ConflictError msg) \<Rightarrow> (Inl (HTTPException 409 msg), w\<lparr>db := d1\<rparr>)
                        | Inl x \<Rightarrow> (Inl x, w\<lparr>db := d1\<rparr>)
                        | Inr (i, d2) \<Rightarrow>
                            (Inr (cancelled_item_of i),
                             publish_both e (r_id restaurant) (ts_id table_session) ITEM_CANCELLED
                               (customer_cancel_payload i) (w\<lparr>db := d2\<rparr>))))))"

section \<open>POST /t/{qr_token}/call\<close>

datatype CallStaffResponse = CallCreated StaffCallResponse | CallCooldown

definition call_staff :: "env \<Rightarrow> string \<Rightarrow> world \<Rightarrow> (nat \<times> CallStaffResponse) result \<times> world" where
  "call_staff e qr_token w =
     (case resolve_table qr_token (db w) of
        Inl x \<Rightarrow> (Inl x, w)
      | Inr (table, restaurant) \<Rightarrow>
          (case get_or_open e (t_id table) (r_id restaurant) None (db w) of
             (Inl x, d) \<Rightarrow> (Inl x, w\<lparr>db := d\<rparr>)
           | (Inr (table_session, rolled_back), d) \<Rightarrow>
               if rolled_back then (Inl MissingGreenlet, w\<lparr>db := d\<rparr>)
               else (case create_call e (t_id table) (ts_id table_session) (r_id restaurant)
                            (w\<lparr>db := d\<rparr>) of
                  (Inl x, w') \<Rightarrow> (Inl x, w')
                | (Inr None, w') \<Rightarrow> (Inr (200, CallCooldown), w')
                | (Inr (Some call), w') \<Rightarrow>
                    (Inr (201, CallCreated (staff_call_response_of call)), w'))))"

section \<open>What the steps do\<close>

lemma resolve_table_Inr:
  assumes "resolve_table qr d = Inr (table, restaurant)"
  shows "table \<in> set (tables d)" and "t_qr_token table = qr" and "t_is_active table"
    and "restaurant \<in> set (restaurants d)" and "t_restaurant_id table = r_id restaurant"
    and "r_is_active restaurant" and "table_of (r_id restaurant) (t_id table) d"
proof -
  from assms have t: "filter (\<lambda>t. t_qr_token t = qr \<and> t_is_active t) (tables d) = [table]"
    and r: "filter (\<lambda>r. r_id r = t_restaurant_id table \<and> r_is_active r) (restaurants d) = [restaurant]"
    by (auto simp: resolve_table_def scalar_one_or_none_Some_iff split: sum.splits option.splits)
  from filter_eq_SingletonD [OF t] filter_eq_SingletonD [OF r]
  show "table \<in> set (tables d)" "t_qr_token table = qr" "t_is_active table"
    "restaurant \<in> set (restaurants d)" "t_restaurant_id table = r_id restaurant"
    "r_is_active restaurant" by auto
  then show "table_of (r_id restaurant) (t_id table) d" by (auto simp: table_of_def)
qed

lemma resolve_table_existing:
  assumes "db_inv d" and "t \<in> set (tables d)" and "t_is_active t"
    and "r \<in> set (restaurants d)" and "r_id r = t_restaurant_id t" and "r_is_active r"
  shows "resolve_table (t_qr_token t) d = Inr (t, r)"
  using filter_unique [OF keys_okD(5) [OF db_invD(1) [OF assms(1)]] assms(2), of t_is_active]
    filter_unique [OF keys_okD(1) [OF db_invD(1) [OF assms(1)]] assms(4), of r_is_active] assms(3,5,6)
  by (simp add: resolve_table_def)

text \<open>An item that a customer may order.\<close>

definition orderable :: "uuid \<Rightarrow> database \<Rightarrow> CreateOrderItemRequest \<Rightarrow> MenuItem \<Rightarrow> bool" where
  "orderable rid d req m \<longleftrightarrow> m \<in> set (menu_items d) \<and> mi_id m = cir_menu_item_id req
     \<and> mi_restaurant_id m = rid \<and> mi_is_active m \<and> mi_is_available m"

lemma validate_items_Inr:
  "validate_items rid d reqs = Inr ms \<Longrightarrow> list_all2 (orderable rid d) reqs ms"
proof (induction reqs arbitrary: ms)
  case (Cons req reqs)
  then obtain m ms' where m: "filter (\<lambda>m. mi_id m = cir_menu_item_id req
        \<and> mi_restaurant_id m = rid \<and> mi_is_active m) (menu_items d) = [m]"
    and av: "mi_is_available m" "validate_items rid d reqs = Inr ms'" "ms = m # ms'"
    by (auto simp: scalar_one_or_none_Some_iff split: sum.splits option.splits if_splits)
  from filter_eq_SingletonD [OF m] av(1) have "orderable rid d req m" by (simp add: orderable_def)
  then show ?case using Cons.IH av by simp
qed simp

lemma validate_items_mem:
  assumes "validate_items rid d reqs = Inr ms" and "m \<in> set ms"
  shows "\<exists>req. orderable rid d req m"
  using validate_items_Inr [OF assms(1)] assms(2) by (induction rule: list_all2_induct) auto

lemma validate_items_Inl:
  assumes "db_inv d"
  shows "validate_items rid d reqs = Inl x \<Longrightarrow>
    (\<exists>req \<in> set reqs. (\<forall>m. \<not> orderable rid d req m)) \<and> (\<exists>msg. x = HTTPException 400 msg)"
proof (induction reqs)
  case (Cons req reqs)
  note key = keys_okD(7) [OF db_invD(1) [OF assms]]
  let ?Q = "\<lambda>m. mi_restaurant_id m = rid \<and> mi_is_active m"
  show ?case
    using key
  proof (cases rule: filter_key_cases [of mi_id "menu_items d" "cir_menu_item_id req" ?Q])
    case none
    then have "\<not> orderable rid d req m" for m by (auto simp: orderable_def)
    moreover have "x = HTTPException 400 (MenuItemMissing (cir_menu_item_id req))"
      using Cons.prems none(1) by (simp split: sum.splits)
    ultimately show ?thesis by auto
  next
    case (one m)
    have uniq: "m' = m" if "orderable rid d req m'" for m'
      using that unique_byD [OF key _ one(2)] one(3) by (simp add: orderable_def)
    show ?thesis
    proof (cases "mi_is_available m")
      case False
      then have "\<not> orderable rid d req m'" for m' using uniq [of m'] by (auto simp: orderable_def)
      moreover have "x = HTTPException 400 (MenuItemSoldOut (mi_name m))"
        using Cons.prems one(1) False by simp
      ultimately show ?thesis by auto
    next
      case True
      then have "validate_items rid d reqs = Inl x"
        using Cons.prems one(1) by (simp split: sum.splits)
      then show ?thesis using Cons.IH by auto
    qed
  qed
qed simp

lemma insert_order_items_Inr:
  "insert_order_items rs d = Inr d' \<Longrightarrow> d' = d\<lparr>order_items := order_items d @ rs\<rparr>"
proof (induction rs arbitrary: d d')
  case (Cons r rs)
  then obtain d1 where "insert_order_item r d = Inr d1" "insert_order_items rs d1 = Inr d'"
    by (auto split: sum.splits)
  with Cons.IH [of d1 d'] show ?case by (simp add: insert_Inr)
qed simp

lemma db_inv_insert_order_items:
  assumes "db_inv d" and "insert_order_items rs d = Inr d'"
    and "\<And>r. r \<in> set rs \<Longrightarrow> order_of (oi_restaurant_id r) (oi_order_id r) d
      \<and> menu_item_of (oi_restaurant_id r) (oi_menu_item_id r) d"
    and "\<And>r. r \<in> set rs \<Longrightarrow> oi_status r = PENDING \<and> oi_served_at r = None \<and> oi_served_by r = None
      \<and> oi_cancelled_at r = None \<and> oi_cancelled_by r = None \<and> oi_cancel_reason r = None"
  shows "db_inv d'"
  using assms
proof (induction rs arbitrary: d)
  case (Cons r rs)
  then obtain d1 where d1: "insert_order_item r d = Inr d1" "insert_order_items rs d1 = Inr d'"
    by (auto split: sum.splits)
  have "item_shape r" using d1(1) Cons.prems(4) [of r] by (simp add: insert_Inr item_shape_def)
  then have "db_inv d1" using db_inv_insert_order_item [OF Cons.prems(1) d1(1)] Cons.prems(3) [of r] by simp
  moreover have "order_of a b d1 = order_of a b d" "menu_item_of a b d1 = menu_item_of a b d" for a b
    using d1(1) by (simp_all add: insert_Inr of_defs)
  ultimately show ?case using Cons.IH [OF _ d1(2)] Cons.prems(3,4) by simp
qed simp

lemma new_order_items_set:
  assumes "i \<in> set (new_order_items e rid oid k reqs ms)"
  shows "\<exists>n req m. m \<in> set ms \<and> i = new_order_item e rid oid n req m"
  using assms by (induction e rid oid k reqs ms rule: new_order_items.induct) auto

lemma place_order_Inr:
  assumes "place_order e rid s reqs ms d = Inr (order, ois, d')"
  shows "order = \<lparr>o_id = gen e 1, o_restaurant_id = rid, o_table_session_id = ts_id s, o_note = None,
      o_created_at = t_db e\<rparr>"
    and "ois = new_order_items e rid (gen e 1) 0 reqs ms"
    and "d' = touch_session (ts_id s) (t_py e)
      (d\<lparr>orders := orders d @ [order], order_items := order_items d @ ois\<rparr>)"
  using assms
  by (auto simp: place_order_def Let_def insert_Inr split: sum.splits dest!: insert_order_items_Inr)

text \<open>What the other connections keep is kept by the refreshes, which write nothing.\<close>

lemma refresh_items_keeps:
  assumes "\<And>k d. P d \<Longrightarrow> P (others e k d)" and "P d"
  shows "P (snd (refresh_items e k ois d))"
  using assms(2)
proof (induction ois arbitrary: k d)
  case (Cons oi ois)
  from Cons.IH [OF assms(1) [OF Cons.prems], of "Suc k" k] assms(1) [OF Cons.prems, of k]
  show ?case by (auto simp: Let_def split: sum.split prod.split)
qed simp

lemma refresh_order_keeps:
  assumes "\<And>k d. P d \<Longrightarrow> P (others e k d)" and "P d"
  shows "P (snd (refresh_order e order ois d))"
  using refresh_items_keeps [of P e "others e 4 d" 5 ois, OF assms(1) assms(1) [OF assms(2)]]
    assms(1) [OF assms(2), of 4]
  by (auto simp: refresh_order_def Let_def split: sum.split prod.split)

lemma refresh_items_quiet:
  assumes "\<And>k d. k \<ge> 4 \<Longrightarrow> others e k d = d" and "unique_by oi_id (order_items d)"
    and "set ois \<subseteq> set (order_items d)" and "4 \<le> k"
  shows "refresh_items e k ois d = (Inr ois, d)"
  using assms(3,4)
proof (induction ois arbitrary: k)
  case (Cons oi ois)
  with filter_unique [OF assms(2), of oi "\<lambda>_. True"] show ?case by (simp add: assms(1))
qed simp

lemma refresh_order_quiet:
  assumes "\<And>k d. k \<ge> 4 \<Longrightarrow> others e k d = d" and "db_inv d"
    and "order \<in> set (orders d)" and "set ois \<subseteq> set (order_items d)"
  shows "refresh_order e order ois d = (Inr (order, ois), d)"
  using filter_unique [OF keys_okD(9) [OF db_invD(1) [OF assms(2)]] assms(3), of "\<lambda>_. True"]
    refresh_items_quiet [OF assms(1) keys_okD(10) [OF db_invD(1) [OF assms(2)]] assms(4), of 5]
  by (simp add: refresh_order_def assms(1))

lemma db_inv_place_order:
  assumes inv: "db_inv d" and p: "place_order e rid s reqs ms d = Inr (order, ois, d')"
    and s: "session_of rid (ts_id s) d" and ms: "\<And>m. m \<in> set ms \<Longrightarrow> menu_item_of rid (mi_id m) d"
  shows "db_inv d'"
proof -
  let ?o = "\<lparr>o_id = gen e 1, o_restaurant_id = rid, o_table_session_id = ts_id s, o_note = None,
      o_created_at = t_db e\<rparr>"
  from p obtain d1 d2 where d1: "insert_order ?o d = Inr d1"
    and d2: "insert_order_items (new_order_items e rid (gen e 1) 0 reqs ms) d1 = Inr d2"
    and d': "d' = touch_session (ts_id s) (t_py e) d2"
    by (auto simp: place_order_def Let_def split: sum.splits)
  have inv1: "db_inv d1" using db_inv_insert_order [OF inv d1] s by simp
  have "order_of rid (gen e 1) d1" "menu_item_of a b d1 = menu_item_of a b d" for a b
    using d1 by (auto simp: insert_Inr of_defs)
  then have "db_inv d2"
    using ms by (intro db_inv_insert_order_items [OF inv1 d2])
      (auto simp: new_order_item_def dest!: new_order_items_set)
  then show ?thesis by (simp add: d' db_inv_touch)
qed

lemma get_or_open_session_of:
  assumes inv: "db_inv d" and e: "good_env e" and t: "table_of rid tid d"
    and r: "get_or_open e tid rid by_user d = (Inr (s, rb), d')"
  shows "session_of rid (ts_id s) d'"
proof -
  have found: "session_of rid (ts_id x) d0"
    if "db_inv d0" "table_of rid tid d0" "find_open_session tid d0 = Inr (Some x)" for d0 x
  proof -
    note x = find_open_session_Some(1,2) [OF that(3)]
    from that(2) obtain t where "t \<in> set (tables d0)" "t_id t = tid" "t_restaurant_id t = rid"
      by (auto simp: table_of_def)
    moreover from db_inv_rowD(4) [OF that(1) x(1)] obtain t' where "t' \<in> set (tables d0)"
      "t_id t' = tid" "t_restaurant_id t' = ts_restaurant_id x" by (auto simp: table_of_def x(2))
    ultimately have "ts_restaurant_id x = rid"
      using unique_byD [OF keys_okD(4) [OF db_invD(1) [OF that(1)]], of t t'] by simp
    with x show ?thesis by (auto simp: session_of_def)
  qed
  have d1: "db_inv (others e 0 d)" "grows d (others e 0 d)" using good_envD [OF e inv] by simp_all
  have d2: "db_inv (others e 1 (others e 0 d))" "grows (others e 0 d) (others e 1 (others e 0 d))"
    using good_envD [OF e d1(1)] by simp_all
  let ?n = "new_session e tid rid by_user"
  have new: "session_of rid (ts_id s) d'"
    if i: "insert_session ?n (others e 0 d) = Inr d2" and d': "d' = others e 2 d2"
      and sel: "scalar_one (filter (\<lambda>s. ts_id s = gen e 0) (table_sessions d')) = Inr s" for d2
  proof -
    have "db_inv d2"
      using db_inv_insert_session [OF d1(1) i] session_shape_new growsD(1) [OF d1(2) t]
      by (simp add: new_session_def)
    moreover have "session_of rid (gen e 0) d2" using i by (simp add: insert_Inr session_of_def new_session_def)
    ultimately have "session_of rid (gen e 0) d'"
      unfolding d' using growsD(2) [OF good_envD(2) [OF e]] by blast
    moreover have "ts_id s = gen e 0"
      using sel filter_eq_SingletonD(2) by (fastforce simp: scalar_one_Inr_iff)
    ultimately show ?thesis by simp
  qed
  show ?thesis
    using r found [OF inv t] found [OF d2(1)] growsD(1) [OF d2(2) growsD(1) [OF d1(2) t]] new
    by (auto simp: get_or_open_def Let_def split: sum.splits option.splits exn.splits)
qed

lemma db_inv_placed:
  assumes inv: "db_inv (db w)" and e: "good_env e" and tr: "resolve_table qr (db w) = Inr (t, r)"
    and go: "get_or_open e (t_id t) (r_id r) None (db w) = (Inr (s, rb), d)"
    and ms: "validate_items (r_id r) d reqs = Inr ms"
    and p: "place_order e (r_id r) s reqs ms (others e 3 d) = Inr (ord, ois, d2)"
  shows "db_inv d2"
proof -
  note t = resolve_table_Inr(7) [OF tr]
  have d: "db_inv d" using db_inv_get_or_open [OF inv e t, of None] go by simp
  note d1 = good_envD [OF e d, of 3]
  have "menu_item_of (r_id r) (mi_id m) d" if "m \<in> set ms" for m
    using validate_items_mem [OF ms that] by (auto simp: orderable_def menu_item_of_def)
  then show ?thesis
    using db_inv_place_order [OF d1(1) p] get_or_open_session_of [OF inv e t go] growsD [OF d1(2)] by blast
qed

lemma db_inv_create_order:
  assumes inv: "db_inv (db w)" and e: "good_env e"
  shows "db_inv (db (snd (create_order e qr reqs w)))"
proof (cases "resolve_table qr (db w)")
  case (Inl x)
  with inv show ?thesis by (simp add: create_order_def)
next
  case (Inr p)
  obtain t r where p: "p = (t, r)" by (cases p)
  obtain res d where go: "get_or_open e (t_id t) (r_id r) None (db w) = (res, d)" by fastforce
  have d: "db_inv d" using db_inv_get_or_open [OF inv e resolve_table_Inr(7) [OF Inr [unfolded p]], of None] go by simp
  note d1 = good_envD(1) [OF e d]
  have "db_inv d3" if "place_order e (r_id r) s reqs ms (others e 3 d) = Inr (ord, ois, d2)"
    and "validate_items (r_id r) d reqs = Inr ms" and "res = Inr (s, rb)"
    and "refresh_order e ord ois d2 = (x, d3)" for s ms ord ois d2 rb x d3
    using refresh_order_keeps [of db_inv e d2 ord ois, OF good_envD(1) [OF e]] that(4)
      db_inv_placed [OF inv e Inr [unfolded p] _ that(2,1)] go that(3) by fastforce
  then show ?thesis using inv Inr p go d d1
    by (auto simp: create_order_def Let_def split: sum.splits prod.splits)
qed

section \<open>Properties\<close>

text \<open>The content of the menu.\<close>

lemma customer_menu_content:
  "{(cmc_id c, i) | c i. c \<in> set (customer_menu rid d) \<and> i \<in> set (cmc_items c)}
    = {(mc_id c, customer_menu_item_of i) | c i. c \<in> set (menu_categories d) \<and> mc_is_active c
        \<and> mc_restaurant_id c = rid \<and> i \<in> set (menu_items d) \<and> mi_is_active i
        \<and> mi_restaurant_id i = rid \<and> mi_category_id i = Some (mc_id c)}"
proof -
  define view where "view = (\<lambda>cat :: MenuCategory. \<lparr>cmc_id = mc_id cat, cmc_name = mc_name cat,
      cmc_sort_order = mc_sort_order cat, cmc_items = map customer_menu_item_of
        (filter (\<lambda>i. mi_category_id i = Some (mc_id cat)) (sort_key mi_sort_order
          (filter (\<lambda>i. mi_restaurant_id i = rid \<and> mi_is_active i) (menu_items d))))\<rparr>)"
  let ?K = "{c \<in> set (menu_categories d). mc_restaurant_id c = rid \<and> mc_is_active c}"
  let ?I = "\<lambda>cat. {i \<in> set (menu_items d). mi_restaurant_id i = rid \<and> mi_is_active i
      \<and> mi_category_id i = Some (mc_id cat)}"
  have S: "set (customer_menu rid d) = view ` ?K"
    by (simp add: customer_menu_def Let_def view_def)
  have view: "cmc_id (view cat) = mc_id cat"
    "set (cmc_items (view cat)) = customer_menu_item_of ` ?I cat" for cat
    by (auto simp: view_def)
  have "{(cmc_id c, i) | c i. c \<in> set (customer_menu rid d) \<and> i \<in> set (cmc_items c)}
      = (\<Union>c \<in> set (customer_menu rid d). Pair (cmc_id c) ` set (cmc_items c))" by blast
  also have "\<dots> = (\<Union>cat \<in> ?K. Pair (mc_id cat) ` customer_menu_item_of ` ?I cat)"
    by (simp add: S view)
  also have "\<dots> = {(mc_id c, customer_menu_item_of i) | c i. c \<in> ?K \<and> i \<in> ?I c}" by blast
  finally show ?thesis by (simp add: conj_ac)
qed

text \<open>
  C11 (the menu). The menu behind a QR code shows exactly the active items of the table's
  restaurant that belong to an active category of it, each in its category, and nothing of any
  other restaurant; categories are in ascending sort order.
\<close>

theorem menu_shows_exactly_the_active_items:
  assumes "resolve_qr qr d = Inr resp"
  shows "\<exists>t r. resolve_table qr d = Inr (t, r) \<and> qri_slug (qrr_restaurant resp) = r_slug r
    \<and> sorted (map cmc_sort_order (qrr_menu resp))
    \<and> {(cmc_id c, i) | c i. c \<in> set (qrr_menu resp) \<and> i \<in> set (cmc_items c)}
      = {(mc_id c, customer_menu_item_of i) | c i. c \<in> set (menu_categories d) \<and> mc_is_active c
          \<and> mc_restaurant_id c = r_id r \<and> i \<in> set (menu_items d) \<and> mi_is_active i
          \<and> mi_restaurant_id i = r_id r \<and> mi_category_id i = Some (mc_id c)}"
proof -
  from assms obtain t r where tr: "resolve_table qr d = Inr (t, r)"
    and slug: "qri_slug (qrr_restaurant resp) = r_slug r" and menu: "qrr_menu resp = customer_menu (r_id r) d"
    by (auto simp: resolve_qr_def split: sum.splits)
  have "map cmc_sort_order (customer_menu (r_id r) d) = map mc_sort_order (sort_key mc_sort_order
      (filter (\<lambda>c. mc_restaurant_id c = r_id r \<and> mc_is_active c) (menu_categories d)))"
    by (simp add: customer_menu_def Let_def comp_def)
  then have "sorted (map cmc_sort_order (customer_menu (r_id r) d))" by simp
  with tr slug show ?thesis unfolding menu by (simp add: customer_menu_content)
qed

lemma demo_resolve: "resolve_table ''qr-20'' demo
    = Inr (demo_table 20 1 ''B01'' ''qr-20'' True, demo_restaurant 1 ''pho'')"
  by (simp add: resolve_table_def demo_def demo_rows)

lemma menu_shows_exactly_the_active_items_witness:
  "\<exists>resp t r. resolve_qr ''qr-20'' demo = Inr resp \<and> resolve_table ''qr-20'' demo = Inr (t, r)
    \<and> qri_slug (qrr_restaurant resp) = r_slug r"
proof -
  obtain resp where r: "resolve_qr ''qr-20'' demo = Inr resp"
    using demo_resolve by (auto simp: resolve_qr_def)
  from menu_shows_exactly_the_active_items [OF this] r show ?thesis by blast
qed

lemma new_order_items_all2:
  "list_all2 P reqs ms \<Longrightarrow> list_all2 (\<lambda>req i. \<exists>n m. P req m \<and> i = new_order_item e rid oid n req m)
     reqs (new_order_items e rid oid k reqs ms)"
  by (induction e rid oid k reqs ms rule: new_order_items.induct) auto

text \<open>A request that got through, with no interference.\<close>

lemma create_order_Inr:
  assumes inv: "db_inv (db w)" and q: "quiet_env e" and c: "create_order e qr reqs w = (Inr resp, w')"
  obtains t r s d ms order ois where "resolve_table qr (db w) = Inr (t, r)"
    and "get_or_open e (t_id t) (r_id r) None (db w) = (Inr (s, False), d)"
    and "ts_status s = OPEN" and "validate_items (r_id r) d reqs = Inr ms"
    and "place_order e (r_id r) s reqs ms d = Inr (order, ois, db w')"
    and "resp = \<lparr>cor_id = o_id order, cor_table_session_id = o_table_session_id order,
          cor_created_at = o_created_at order, cor_items = map order_item_response_of ois\<rparr>"
proof -
  note quiet = quiet_others [OF q]
  from c obtain t r s d ms ord ois d2 x d3 where *: "resolve_table qr (db w) = Inr (t, r)"
    "get_or_open e (t_id t) (r_id r) None (db w) = (Inr (s, False), d)"
    "ts_status s = OPEN" "validate_items (r_id r) d reqs = Inr ms"
    "place_order e (r_id r) s reqs ms (others e 3 d) = Inr (ord, ois, d2)"
    and rf: "refresh_order e ord ois d2 = (Inr x, d3)" "d3 = db w'"
      "resp = \<lparr>cor_id = o_id (fst x), cor_table_session_id = o_table_session_id (fst x),
          cor_created_at = o_created_at (fst x), cor_items = map order_item_response_of (snd x)\<rparr>"
    by (fastforce simp: create_order_def Let_def split: if_splits sum.splits prod.splits)
  have "db_inv d2" by (rule db_inv_placed [OF inv quiet_good [OF q] *(1,2,4,5)])
  moreover have "ord \<in> set (orders d2)" "set ois \<subseteq> set (order_items d2)"
    by (simp_all add: place_order_Inr(3) [OF *(5)] frame)
  ultimately have "refresh_order e ord ois d2 = (Inr (ord, ois), d2)"
    by (intro refresh_order_quiet) (simp_all add: quiet)
  with rf show thesis using that [OF *(1-4), of ord ois] *(5) by (cases x) (auto simp: quiet)
qed

lemma get_or_open_frame:
  assumes "quiet_env e"
  shows "orders (snd (get_or_open e tid rid u d)) = orders d"
    and "order_items (snd (get_or_open e tid rid u d)) = order_items d"
    and "menu_items (snd (get_or_open e tid rid u d)) = menu_items d"
    and "staff_calls (snd (get_or_open e tid rid u d)) = staff_calls d"
  using quiet_others [OF assms]
  by (auto simp: get_or_open_def Let_def insert_Inr split: sum.splits option.splits exn.splits)

text \<open>
  C2 (an order is a snapshot). A successful order, with no interference, adds one order to the open
  session of the table and, in the order of the request, one pending item per requested line, with
  the requested quantity and note, and the name, price and preparation time that the menu item of
  this restaurant has at that moment; no existing item changes, and the session's activity time is
  renewed.
\<close>

theorem order_is_snapshot_of_menu:
  assumes "db_inv (db w)" and "quiet_env e" and "create_order e qr reqs w = (Inr resp, w')"
  shows "\<exists>t r ord ois. resolve_table qr (db w) = Inr (t, r)
    \<and> orders (db w') = orders (db w) @ [ord] \<and> o_id ord = cor_id resp
    \<and> order_items (db w') = order_items (db w) @ ois
    \<and> list_all2 (\<lambda>req i. \<exists>m. orderable (r_id r) (db w) req m \<and> oi_menu_item_id i = mi_id m
          \<and> oi_name_snapshot i = mi_name m \<and> oi_price_snapshot i = mi_price m
          \<and> oi_prep_time_snapshot i = mi_prep_time_minutes m \<and> oi_quantity i = cir_quantity req
          \<and> oi_note i = cir_note req \<and> oi_status i = PENDING \<and> oi_order_id i = o_id ord) reqs ois
    \<and> (\<exists>s \<in> set (table_sessions (db w')). ts_id s = o_table_session_id ord \<and> ts_table_id s = t_id t
          \<and> ts_status s = OPEN \<and> ts_last_activity_at s = t_py e)"
  using assms
proof (rule create_order_Inr)
  fix t r s d ms ord ois
  assume tr: "resolve_table qr (db w) = Inr (t, r)"
    and go: "get_or_open e (t_id t) (r_id r) None (db w) = (Inr (s, False), d)"
    and ms: "validate_items (r_id r) d reqs = Inr ms"
    and place: "place_order e (r_id r) s reqs ms d = Inr (ord, ois, db w')"
    and resp: "resp = \<lparr>cor_id = o_id ord, cor_table_session_id = o_table_session_id ord,
          cor_created_at = o_created_at ord, cor_items = map order_item_response_of ois\<rparr>"
  note frame_d = get_or_open_frame [OF assms(2), of "t_id t" "r_id r" None "db w", unfolded go snd_conv]
  have gap: "others e 2 = (\<lambda>d. d)" using quiet_others [OF assms(2)] by (simp add: fun_eq_iff)
  have s: "s \<in> set (table_sessions d)" "ts_table_id s = t_id t" "ts_status s = OPEN"
    using get_or_open_Inr [OF go gap] by auto
  note p = place_order_Inr [OF place]
  have orderable: "orderable (r_id r) d req m = orderable (r_id r) (db w) req m" for req m
    by (simp add: orderable_def frame_d)
  have "list_all2 (\<lambda>req i. \<exists>n m. orderable (r_id r) (db w) req m
      \<and> i = new_order_item e (r_id r) (gen e 1) n req m) reqs ois"
    using new_order_items_all2 [OF validate_items_Inr [OF ms]] by (simp add: p(2) orderable)
  then have "list_all2 (\<lambda>req i. \<exists>m. orderable (r_id r) (db w) req m \<and> oi_menu_item_id i = mi_id m
          \<and> oi_name_snapshot i = mi_name m \<and> oi_price_snapshot i = mi_price m
          \<and> oi_prep_time_snapshot i = mi_prep_time_minutes m \<and> oi_quantity i = cir_quantity req
          \<and> oi_note i = cir_note req \<and> oi_status i = PENDING \<and> oi_order_id i = o_id ord) reqs ois"
    by (rule list_all2_mono) (auto simp: new_order_item_def p(1))
  moreover have "s\<lparr>ts_last_activity_at := t_py e\<rparr> \<in> set (table_sessions (db w'))"
    using s(1) by (auto simp: p(3) touch_session_def set_sql_update)
  then have "\<exists>x \<in> set (table_sessions (db w')). ts_id x = o_table_session_id ord
      \<and> ts_table_id x = t_id t \<and> ts_status x = OPEN \<and> ts_last_activity_at x = t_py e"
    by (rule rev_bexI) (simp add: p(1) s)
  moreover have "orders (db w') = orders (db w) @ [ord]" "order_items (db w') = order_items (db w) @ ois"
    by (simp_all add: p(3) frame frame_d)
  moreover have "o_id ord = cor_id resp" by (simp add: resp)
  ultimately show ?thesis using tr by blast
qed

definition demo_request :: "CreateOrderItemRequest list" where
  "demo_request = [\<lparr>cir_menu_item_id = 40, cir_quantity = 2, cir_note = None\<rparr>]"

lemma demo_get_or_open:
  "get_or_open e 20 1 u demo = (Inr (demo_session 50 20 OPEN None, False), demo)"
  by (simp add: get_or_open_def find_open_session_def demo_def demo_session_def)

lemma demo_validate: "validate_items 1 demo demo_request = Inr [demo_menu_item 40 1 ''Pho bo'' 4500000 True]"
  by (simp add: demo_request_def demo_def demo_menu_item_def)

lemma demo_create_order:
  assumes "quiet_env e" and "place_order e 1 (demo_session 50 20 OPEN None) demo_request
      [demo_menu_item 40 1 ''Pho bo'' 4500000 True] demo = Inr (ord, ois, d')"
  shows "create_order e ''qr-20'' demo_request \<lparr>db = demo, bus = []\<rparr> =
    (Inr \<lparr>cor_id = o_id ord, cor_table_session_id = o_table_session_id ord,
       cor_created_at = o_created_at ord, cor_items = map order_item_response_of ois\<rparr>,
     publish_both e 1 50 ORDER_CREATED (order_payload ord ois) \<lparr>db = d', bus = []\<rparr>)"
proof -
  note quiet = quiet_others [OF assms(1)]
  have v: "valid_create_order demo_request" by (simp add: valid_create_order_def demo_request_def)
  have ids: "t_id (demo_table 20 1 n q a) = 20" "r_id (demo_restaurant 1 x) = 1"
    "ts_status (demo_session 50 20 OPEN None) = OPEN" "ts_id (demo_session 50 20 OPEN None) = 50" for n q a x
    by (simp_all add: demo_rows)
  have "db_inv d'"
    by (rule db_inv_placed [of "\<lparr>db = demo, bus = []\<rparr>" e "''qr-20''"
          "demo_table 20 1 ''B01'' ''qr-20'' True" "demo_restaurant 1 ''pho''" "demo_session 50 20 OPEN None" False demo
          demo_request "[demo_menu_item 40 1 ''Pho bo'' 4500000 True]" ord ois])
      (use assms(2) in \<open>simp_all add: quiet_good assms(1) demo_resolve ids demo_get_or_open demo_validate quiet\<close>)
  moreover have "ord \<in> set (orders d')" "set ois \<subseteq> set (order_items d')"
    by (simp_all add: place_order_Inr(3) [OF assms(2)] frame)
  ultimately have "refresh_order e ord ois d' = (Inr (ord, ois), d')"
    by (intro refresh_order_quiet) (simp_all add: quiet)
  with v assms(2) show ?thesis
    by (simp add: create_order_def demo_resolve demo_get_or_open demo_validate ids quiet)
qed

lemma demo_place_order:
  "\<exists>ord ois d'. place_order demo_env 1 (demo_session 50 20 OPEN None) demo_request
      [demo_menu_item 40 1 ''Pho bo'' 4500000 True] demo = Inr (ord, ois, d')"
  by (simp add: place_order_def Let_def insert_order_def insert_order_item_def fk_defs fits_int4_def
      demo_request_def new_order_item_def demo_def demo_rows)

lemma order_is_snapshot_of_menu_witness:
  "\<exists>resp w' ord. create_order demo_env ''qr-20'' demo_request \<lparr>db = demo, bus = []\<rparr> = (Inr resp, w')
     \<and> orders (db w') = orders demo @ [ord]"
proof -
  obtain resp w' where "create_order demo_env ''qr-20'' demo_request \<lparr>db = demo, bus = []\<rparr> = (Inr resp, w')"
    using demo_place_order demo_create_order [of demo_env] by (fastforce simp: quiet_env_def)
  with order_is_snapshot_of_menu [of "\<lparr>db = demo, bus = []\<rparr>" demo_env, OF _ _ this] show ?thesis
    by (auto simp: quiet_env_def)
qed

text \<open>
  C7 (all or nothing). If any requested line is not orderable (unknown, of another restaurant,
  retired or sold out), the whole order is refused with a 400 answer; and whenever an order is
  refused or fails, whatever the reason, no order, no item and no message of it exists. Nothing
  else commits in between.
\<close>

theorem order_is_all_or_nothing:
  assumes "db_inv (db w)" and "quiet_env e" and "create_order e qr reqs w = (res, w')"
  shows "(\<forall>x. res = Inl x \<longrightarrow> orders (db w') = orders (db w) \<and> order_items (db w') = order_items (db w)
            \<and> bus w' = bus w)
    \<and> (\<forall>t r s d req. valid_create_order reqs \<longrightarrow> resolve_table qr (db w) = Inr (t, r) \<longrightarrow>
          get_or_open e (t_id t) (r_id r) None (db w) = (Inr (s, False), d) \<longrightarrow>
          req \<in> set reqs \<longrightarrow> (\<forall>m. \<not> orderable (r_id r) (db w) req m) \<longrightarrow>
          (\<exists>msg. res = Inl (HTTPException 400 msg)))"
proof (intro conjI allI impI)
  fix x assume "res = Inl x"
  have frame_d: "orders d = orders (db w) \<and> order_items d = order_items (db w)"
    if "get_or_open e tid rid None (db w) = (r, d)" for tid rid r d
    using get_or_open_frame(1,2) [OF assms(2), of tid rid None "db w"] that by simp
  have "refresh_order e ord ois d2 = (Inr (ord, ois), d2)"
    if "resolve_table qr (db w) = Inr (t, r)" "get_or_open e (t_id t) (r_id r) None (db w) = (Inr (s, rb), d)"
      "validate_items (r_id r) d reqs = Inr ms" "place_order e (r_id r) s reqs ms d = Inr (ord, ois, d2)"
    for t r s rb d ms ord ois d2
  proof -
    have "db_inv d2"
      by (rule db_inv_placed [OF assms(1) quiet_good [OF assms(2)] that(1-3)])
        (simp add: quiet_others [OF assms(2)] that(4))
    then show ?thesis
      using quiet_others [OF assms(2)]
      by (intro refresh_order_quiet) (simp_all add: place_order_Inr(3) [OF that(4)] frame)
  qed
  then show "orders (db w') = orders (db w)" "order_items (db w') = order_items (db w)" "bus w' = bus w"
    using assms(3) \<open>res = Inl x\<close> quiet_others [OF assms(2)] frame_d
    by (auto simp: create_order_def Let_def split: if_splits sum.splits prod.splits)
next
  fix t r s d req
  assume v: "valid_create_order reqs" and tr: "resolve_table qr (db w) = Inr (t, r)"
    and go: "get_or_open e (t_id t) (r_id r) None (db w) = (Inr (s, False), d)"
    and req: "req \<in> set reqs" and no: "\<forall>m. \<not> orderable (r_id r) (db w) req m"
  have inv: "db_inv d"
    using db_inv_get_or_open [OF assms(1) quiet_good [OF assms(2)] resolve_table_Inr(7) [OF tr], of None] go
    by simp
  have "orderable (r_id r) d req m = orderable (r_id r) (db w) req m" for m
    using get_or_open_frame(3) [OF assms(2), of "t_id t" "r_id r" None "db w"] go
    by (simp add: orderable_def)
  then have "validate_items (r_id r) d reqs \<noteq> Inr ms" for ms
    using validate_items_Inr [of "r_id r" d reqs ms] req no
    by (auto simp: list_all2_conv_all_nth in_set_conv_nth)
  then obtain x where x: "validate_items (r_id r) d reqs = Inl x"
    by (cases "validate_items (r_id r) d reqs") auto
  with validate_items_Inl [OF inv this] show "\<exists>msg. res = Inl (HTTPException 400 msg)"
    using assms(3) v tr go by (auto simp: create_order_def split: if_splits)
qed

lemma order_is_all_or_nothing_witness:
  "\<exists>msg. fst (create_order demo_env ''qr-20'' [\<lparr>cir_menu_item_id = 41, cir_quantity = 1, cir_note = None\<rparr>]
     \<lparr>db = demo, bus = []\<rparr>) = Inl (HTTPException 400 msg)"
proof -
  let ?reqs = "[\<lparr>cir_menu_item_id = 41, cir_quantity = 1, cir_note = None\<rparr>] :: CreateOrderItemRequest list"
  obtain res w' where c: "create_order demo_env ''qr-20'' ?reqs \<lparr>db = demo, bus = []\<rparr> = (res, w')"
    by fastforce
  have "\<not> orderable 1 demo (hd ?reqs) m" for m
    by (auto simp: orderable_def demo_def demo_rows)
  moreover have "valid_create_order ?reqs" by (simp add: valid_create_order_def)
  moreover have "t_id (demo_table 20 1 n q a) = 20" "r_id (demo_restaurant 1 x) = 1" for n q a x
    by (simp_all add: demo_rows)
  ultimately show ?thesis
    using order_is_all_or_nothing [OF _ _ c] demo_resolve demo_get_or_open [of demo_env None] c
    by (simp add: quiet_env_def)
qed

text \<open>An order is placed in any database that has the same rows to refer to and the same keys.\<close>

lemma insert_order_items_transfer:
  assumes "insert_order_items rs d = Inr d'" and "oi_id ` set (order_items d2) = oi_id ` set (order_items d)"
    and "\<And>i. fk_restaurant i d2 = fk_restaurant i d" and "\<And>i. fk_order i d2 = fk_order i d"
    and "\<And>i. fk_menu_item i d2 = fk_menu_item i d"
  shows "insert_order_items rs d2 = Inr (d2\<lparr>order_items := order_items d2 @ rs\<rparr>)"
  using assms
proof (induction rs arbitrary: d d2)
  case (Cons r rs)
  let ?app = "\<lambda>d. d\<lparr>order_items := order_items d @ [r]\<rparr>"
  from Cons.prems(1) have r: "insert_order_item r d = Inr (?app d)" "insert_order_items rs (?app d) = Inr d'"
    by (auto simp: insert_order_item_Inr split: sum.splits)
  then have "insert_order_item r d2 = Inr (?app d2)"
    using Cons.prems(2-5) by (simp add: insert_order_item_Inr)
  moreover have "insert_order_items rs (?app d2) = Inr ((?app d2)\<lparr>order_items := order_items (?app d2) @ rs\<rparr>)"
    by (rule Cons.IH [OF r(2)]) (use Cons.prems(2-5) in \<open>simp_all add: fk_defs\<close>)
  ultimately show ?case by simp
qed simp

lemma place_order_transfer:
  assumes p: "place_order e rid s reqs ms d = Inr (ord, ois, d')"
    and same: "orders d2 = orders d" "restaurants d2 = restaurants d" "menu_items d2 = menu_items d"
    and keys: "ts_id ` set (table_sessions d2) = ts_id ` set (table_sessions d)"
      "oi_id ` set (order_items d2) = oi_id ` set (order_items d)"
  shows "place_order e rid s reqs ms d2 = Inr (ord, ois, touch_session (ts_id s) (t_py e)
      (d2\<lparr>orders := orders d2 @ [ord], order_items := order_items d2 @ ois\<rparr>))"
proof -
  let ?app = "\<lambda>d. d\<lparr>orders := orders d @ [ord]\<rparr>"
  note o = place_order_Inr [OF p]
  from p o(1) have ins: "insert_order ord d = Inr (?app d)"
    and "\<exists>d3. insert_order_items ois (?app d) = Inr d3"
    by (auto simp: place_order_def Let_def insert_order_Inr split: sum.splits)
  then obtain d3 where items: "insert_order_items ois (?app d) = Inr d3" by blast
  from ins have "insert_order ord d2 = Inr (?app d2)"
    using same keys(1) by (simp add: insert_order_Inr fk_defs)
  moreover have "insert_order_items ois (?app d2) = Inr ((?app d2)\<lparr>order_items := order_items (?app d2) @ ois\<rparr>)"
    by (rule insert_order_items_transfer [OF items]) (use same keys(2) in \<open>simp_all add: fk_defs\<close>)
  ultimately show ?thesis using o(1,2) by (simp add: place_order_def Let_def)
qed

lemma new_order_items_others [simp]:
  "new_order_items (e\<lparr>others := g\<rparr>) rid oid k reqs ms = new_order_items e rid oid k reqs ms"
  by (induction e rid oid k reqs ms rule: new_order_items.induct) (simp_all add: new_order_item_def)

lemma place_order_others [simp]: "place_order (e\<lparr>others := g\<rparr>) = place_order e"
  by (simp add: place_order_def fun_eq_iff Let_def cong: sum.case_cong)

lemma new_order_items_length:
  "length (new_order_items e rid oid k reqs ms) = min (length reqs) (length ms)"
  by (induction e rid oid k reqs ms rule: new_order_items.induct) simp_all

text \<open>
  C18 (ordering into a closed session). The check that the session is open and the insertion of the
  order are separate statements, and the insertion does not look at the session again. Take any order that
  succeeds when nothing else commits. If a checkout of the session commits between the check and the insertion, the order
  gets the same answer: all its items are in the closed session and pending, so the kitchen sees them, while the
  session's row is closed with the total of the bill that was settled without them; in the database this leaves, a checkout of the
  session has nothing to settle, a restore is refused, and neither changes anything.
\<close>

theorem order_into_closed_session:
  assumes "db_inv (db w)" and "quiet_env e" and "resolve_table qr (db w) = Inr (t, r)"
    and "s \<in> set (table_sessions (db w))" and "ts_table_id s = t_id t" and "ts_status s = OPEN"
    and "create_order e qr reqs w = (Inr resp, w')"
    and "checkout im (ts_id s) (r_id r) now (db w) = Inr (Some bill, d1)"
  shows "\<exists>w2 ois. create_order (e\<lparr>others := \<lambda>k d. if k = 3 then d1 else d\<rparr>) qr reqs w = (Inr resp, w2)
    \<and> order_items (db w2) = order_items d1 @ ois \<and> length ois = length reqs \<and> reqs \<noteq> []
    \<and> (\<forall>i \<in> set ois. oi_status i = PENDING \<and> in_session (ts_id s) (db w2) i)
    \<and> (\<exists>s2 \<in> set (table_sessions (db w2)). ts_id s2 = ts_id s \<and> ts_status s2 = CLOSED
          \<and> ts_total_amount s2 = Some (cr_total_amount bill))
    \<and> (\<forall>im now. checkout im (ts_id s) (r_id r) now (db w2) = Inr (None, db w2))
    \<and> (\<forall>e. restore e (ts_id s) (r_id r) (db w2) = (Inl (ValueError OnlyAbandoned), db w2))"
  using assms(1,2,7)
proof (rule create_order_Inr)
  fix t' r' s' d ms ord ois
  assume tr: "resolve_table qr (db w) = Inr (t', r')"
    and go: "get_or_open e (t_id t') (r_id r') None (db w) = (Inr (s', False), d)"
    and ms: "validate_items (r_id r') d reqs = Inr ms"
    and place: "place_order e (r_id r') s' reqs ms d = Inr (ord, ois, db w')"
    and resp: "resp = \<lparr>cor_id = o_id ord, cor_table_session_id = o_table_session_id ord,
          cor_created_at = o_created_at ord, cor_items = map order_item_response_of ois\<rparr>"
  let ?e = "e\<lparr>others := \<lambda>k d. if k = 3 then d1 else d\<rparr>"
  from tr assms(3) have [simp]: "t' = t" "r' = r" by simp_all
  have open_s: "get_or_open e (t_id t) (r_id r) None (db w) = (Inr (s, False), db w)" for e
    using select_open_session [OF assms(1,4-6)] by (simp add: get_or_open_def find_open_session_def)
  with go have [simp]: "s' = s" "d = db w" by simp_all
  obtain s0 where s0: "s0 \<in> set (table_sessions (db w))" "ts_id s0 = ts_id s" "ts_restaurant_id s0 = r_id r"
    and d1: "d1 = settled (ts_id s) (r_id r) now (db w)"
    and bill: "cr_total_amount bill = served_total (ts_id s) (db w)"
    using checkout_Some [OF assms(1,8)] by blast
  have rid: "ts_restaurant_id s = r_id r"
    using unique_byD [OF keys_okD(8) [OF db_invD(1) [OF assms(1)]] s0(1) assms(4) s0(2)] s0(3) by simp
  let ?d2 = "touch_session (ts_id s) (t_py e) (d1\<lparr>orders := orders d1 @ [ord], order_items := order_items d1 @ ois\<rparr>)"
  have p2: "place_order e (r_id r) s reqs ms d1 = Inr (ord, ois, ?d2)"
    by (rule place_order_transfer [OF place [simplified]])
      (simp_all add: d1 settled_def key_image_sql_update close_with_def cancel_set_def)
  have inv1: "db_inv d1" by (simp add: d1 db_inv_settled assms(1))
  have "close_with (served_total (ts_id s) (db w)) now s \<in> set (table_sessions d1)"
    unfolding d1 settled_def using assms(4) by (simp add: set_sql_update rev_image_eqI)
  then have sess: "session_of (r_id r) (ts_id s) d1"
    unfolding session_of_def by (rule rev_bexI) (simp add: close_with_def rid)
  have dishes: "menu_item_of (r_id r) (mi_id m) d1" if "m \<in> set ms" for m
    using validate_items_mem [OF ms that] by (auto simp: orderable_def menu_item_of_def d1 settled_def)
  have inv2: "db_inv ?d2" by (rule db_inv_place_order [OF inv1 p2 sess dishes])
  have rf: "refresh_order ?e ord ois ?d2 = (Inr (ord, ois), ?d2)"
    by (rule refresh_order_quiet [OF _ inv2]) (simp_all add: frame)
  have valid: "valid_create_order reqs" using assms(7) by (auto simp: create_order_def split: if_splits)
  define w2 where "w2 = publish_both e (r_id r) (ts_id s) ORDER_CREATED (order_payload ord ois) (w\<lparr>db := ?d2\<rparr>)"
  have w2: "db w2 = ?d2" by (simp add: w2_def)
  have pub: "publish_both ?e = publish_both e" by (simp add: publish_both_def publish_def fun_eq_iff)
  have c: "create_order ?e qr reqs w = (Inr resp, w2)"
    using valid assms(3,6) open_s [of ?e] ms p2 rf by (simp add: create_order_def resp w2_def pub)
  let ?s2 = "(close_with (served_total (ts_id s) (db w)) now s)\<lparr>ts_last_activity_at := t_py e\<rparr>"
  have s2: "?s2 \<in> set (table_sessions ?d2)" "ts_id ?s2 = ts_id s" "ts_restaurant_id ?s2 = r_id r"
    "ts_status ?s2 = CLOSED" "ts_total_amount ?s2 = Some (cr_total_amount bill)"
    using assms(4) rid by (force simp: touch_session_def d1 settled_def sql_update_def close_with_def bill)+
  note key = keys_okD(8) [OF db_invD(1) [OF inv2]]
  have "checkout im (ts_id s) (r_id r) now ?d2 = Inr (None, ?d2)" for im now
    using checkout_existing [OF key s2(1), of im now] s2(2-4) by simp
  moreover have "restore e (ts_id s) (r_id r) ?d2 = (Inl (ValueError OnlyAbandoned), ?d2)" for e
    using restore_refused [OF key s2(1), of e] s2(2-4) by simp
  moreover have "oi_status i = PENDING \<and> in_session (ts_id s) ?d2 i" if "i \<in> set ois" for i
    using that place_order_Inr(1,2) [OF p2] new_order_items_set [of i e "r_id r" "gen e 1" 0 reqs ms]
    by (auto simp: new_order_item_def in_session_iff frame)
  moreover have "length ois = length reqs"
    using list_all2_lengthD [OF validate_items_Inr [OF ms]] place_order_Inr(2) [OF p2]
    by (simp add: new_order_items_length)
  moreover have "reqs \<noteq> []" using valid by (simp add: valid_create_order_def)
  moreover have "\<exists>s2 \<in> set (table_sessions ?d2). ts_id s2 = ts_id s \<and> ts_status s2 = CLOSED
      \<and> ts_total_amount s2 = Some (cr_total_amount bill)"
    using s2 by (intro rev_bexI [OF s2(1)]) simp
  ultimately show ?thesis using c by (intro exI [of _ w2] exI [of _ ois]) (simp add: w2 frame)
qed

lemma order_into_closed_session_witness:
  "\<exists>bill d1 resp w2 i. checkout Map.empty 50 1 (hours 4) demo = Inr (Some bill, d1)
    \<and> create_order (demo_env\<lparr>others := (\<lambda>k d. if k = 3 then d1 else d)\<rparr>) ''qr-20'' demo_request
        \<lparr>db = demo, bus = []\<rparr> = (Inr resp, w2)
    \<and> i \<in> set (order_items (db w2)) \<and> in_session 50 (db w2) i \<and> oi_status i = PENDING"
proof -
  let ?s = "demo_session 50 20 OPEN None"
  have s: "?s \<in> set (table_sessions demo)" by (simp add: demo_def)
  have ids: "ts_id ?s = 50" "ts_restaurant_id ?s = 1" "ts_table_id ?s = 20" "ts_status ?s = OPEN"
    "t_id (demo_table 20 1 n q a) = 20" "r_id (demo_restaurant 1 x) = 1" for n q a x
    by (simp_all add: demo_rows)
  have "served_total 50 demo = 9000000"
    by (simp add: served_total_def in_session_def demo_def demo_rows)
  then obtain bill d1 where c: "checkout Map.empty 50 1 (hours 4) demo = Inr (Some bill, d1)"
    using checkout_existing [OF keys_okD(8) [OF demo_keys] s, of Map.empty "hours 4"] ids
    by (simp add: fits_numeric_12_2_def)
  obtain resp w' where "create_order demo_env ''qr-20'' demo_request \<lparr>db = demo, bus = []\<rparr> = (Inr resp, w')"
    using demo_place_order demo_create_order [of demo_env] by (fastforce simp: quiet_env_def)
  then obtain w2 ois where w2: "create_order (demo_env\<lparr>others := \<lambda>k d. if k = 3 then d1 else d\<rparr>) ''qr-20'' demo_request
        \<lparr>db = demo, bus = []\<rparr> = (Inr resp, w2)" "order_items (db w2) = order_items d1 @ ois"
      "length ois = length demo_request" "demo_request \<noteq> []"
      "\<forall>i \<in> set ois. oi_status i = PENDING \<and> in_session 50 (db w2) i"
    using order_into_closed_session [of "\<lparr>db = demo, bus = []\<rparr>" demo_env "''qr-20''"
        "demo_table 20 1 ''B01'' ''qr-20'' True" "demo_restaurant 1 ''pho''" ?s demo_request resp w' Map.empty "hours 4" bill d1]
      c s by (force simp: demo_resolve quiet_env_def ids)
  then obtain i where "i \<in> set ois" by (cases ois) auto
  with w2 c show ?thesis by auto
qed

text \<open>
  The loser of an opening race: Reading back the winner's session works, but the rollback
  before it has expired the restaurant and the table that the handler loaded: when \<^verbatim>\<open>get_or_open\<close> had
  to roll back, ordering, cancelling and calling all end with \<^verbatim>\<open>MissingGreenlet\<close> (a 500 answer)
  although the session is there, and do nothing else; the snapshot, which does not read them again,
  answers.
\<close>

theorem loser_of_opening_race_fails:
  assumes "resolve_table qr (db w) = Inr (t, r)"
    and "get_or_open e (t_id t) (r_id r) None (db w) = (Inr (s, True), d)"
    and "ts_status s = OPEN" and "valid_create_order reqs" and "valid_cancel_reason reason"
  shows "create_order e qr reqs w = (Inl MissingGreenlet, w\<lparr>db := d\<rparr>)
    \<and> cancel_item_customer e qr item_id reason w = (Inl MissingGreenlet, w\<lparr>db := d\<rparr>)
    \<and> call_staff e qr w = (Inl MissingGreenlet, w\<lparr>db := d\<rparr>)
    \<and> (\<exists>resp. get_session_snapshot e qr w = (Inr resp, w\<lparr>db := d\<rparr>) \<and> ssr_id resp = ts_id s)"
  using assms
  by (simp add: create_order_def cancel_item_customer_def call_staff_def get_session_snapshot_def)

lemma get_or_open_lost:
  assumes "find_open_session tid d = Inr None" and "others e 0 d = d1"
    and "\<exists>c. insert_session (new_session e tid rid u) d1 = Inl (IntegrityError c)"
    and "others e 1 d1 = d2" and "find_open_session tid d2 = Inr (Some x)"
  shows "get_or_open e tid rid u d = (Inr (x, True), d2)"
  using assms by (auto simp: get_or_open_def)

lemma loser_of_opening_race_fails_witness:
  "\<exists>e. fst (create_order e ''qr-21'' demo_request \<lparr>db = demo, bus = []\<rparr>) = Inl MissingGreenlet"
proof -
  let ?e = "demo_env\<lparr>others := (\<lambda>k d. if k = 0 then snd (get_or_open demo_env 21 1 None d) else d)\<rparr>"
  let ?n = "new_session demo_env 21 1 None"
  have first: "get_or_open demo_env 21 1 None demo = (Inr (?n, False),
      demo\<lparr>table_sessions := table_sessions demo @ [?n]\<rparr>)"
    by (rule get_or_open_fresh) (simp_all add: fun_eq_iff)
  have none: "find_open_session 21 demo = Inr None" by (simp add: find_open_session_None)
  have some: "find_open_session 21 (demo\<lparr>table_sessions := table_sessions demo @ [?n]\<rparr>) = Inr (Some ?n)"
    by (simp add: find_open_session_def new_session_def demo_def demo_session_def)
  have "21 \<in> set (open_tables (demo\<lparr>table_sessions := table_sessions demo @ [?n]\<rparr>))"
    by (simp add: open_tables_def new_session_def)
  then have "\<exists>c. insert_session (new_session ?e 21 1 None)
      (demo\<lparr>table_sessions := table_sessions demo @ [?n]\<rparr>) = Inl (IntegrityError c)"
    by (simp add: insert_session_def new_session_def)
  then have go: "get_or_open ?e 21 1 None demo = (Inr (?n, True),
      demo\<lparr>table_sessions := table_sessions demo @ [?n]\<rparr>)"
    by (intro get_or_open_lost [OF none _ _ _ some]) (simp_all add: first)
  have "resolve_table ''qr-21'' demo
      = Inr (demo_table 21 1 ''B02'' ''qr-21'' True, demo_restaurant 1 ''pho'')"
    by (simp add: resolve_table_def demo_def demo_rows)
  moreover have "t_id (demo_table 21 1 n q a) = 21" "r_id (demo_restaurant 1 x) = 1" for n q a x
    by (simp_all add: demo_rows)
  ultimately show ?thesis
    using loser_of_opening_race_fails [of "''qr-21''" "\<lparr>db = demo, bus = []\<rparr>" _ _ ?e ?n _ demo_request None] go
    by (intro exI [of _ ?e]) (simp add: new_session_def valid_create_order_def demo_request_def
        valid_cancel_reason_def)
qed

text \<open>
  Cancelling one's own pending items: With an open session of the table and no interference, a
  customer's cancellation succeeds exactly for a pending item of that session; then that item is
  cancelled by the customer with the given reason and no other item changes. An item that is not of
  the session answers 404, one that has left the pending status 409, and nothing changes.
\<close>

theorem customer_cancels_own_pending_items:
  assumes "db_inv (db w)" and "quiet_env e" and "valid_cancel_reason reason"
    and "resolve_table qr (db w) = Inr (t, r)"
    and "s \<in> set (table_sessions (db w))" and "ts_table_id s = t_id t" and "ts_status s = OPEN"
    and "cancel_item_customer e qr item_id reason w = (res, w')"
  shows "if \<exists>i \<in> set (order_items (db w)). oi_id i = item_id \<and> in_session (ts_id s) (db w) i
            \<and> oi_restaurant_id i = r_id r
     then \<exists>i \<in> set (order_items (db w)). oi_id i = item_id
        \<and> (if oi_status i = PENDING
            then res = Inr (cancelled_item_of (cancel_set BY_CUSTOMER reason (t_db e) i))
              \<and> order_items (db w') = map (\<lambda>x. if x = i then cancel_set BY_CUSTOMER reason (t_db e) i else x)
                   (order_items (db w))
            else res = Inl (HTTPException 409 CannotCancel) \<and> w' = w)
     else res = Inl (HTTPException 404 ItemNotInSession) \<and> w' = w"
proof -
  note key = keys_okD(10) [OF db_invD(1) [OF assms(1)]]
  have go: "get_or_open e (t_id t) (r_id r) None (db w) = (Inr (s, False), db w)"
    using assms(1)
  proof (cases rule: find_open_session_cases [of _ "t_id t"])
    case none
    with open_tableI [OF assms(5,7)] assms(6) show ?thesis by simp
  next
    case (some x)
    with find_open_session_Some(4) [OF some(1) assms(5-7)] show ?thesis
      by (simp add: get_or_open_def)
  qed
  let ?Q = "\<lambda>i. in_session (ts_id s) (db w) i \<and> oi_restaurant_id i = r_id r"
  show ?thesis
    using key
  proof (cases rule: filter_key_cases [of oi_id "order_items (db w)" item_id ?Q])
    case none
    with assms(3,4,8) go show ?thesis by (auto simp: cancel_item_customer_def)
  next
    case (one i)
    note c = cancel_item_existing [OF key one(2), of BY_CUSTOMER "[PENDING]" reason "t_db e"]
    have "if oi_status i = PENDING
        then res = Inr (cancelled_item_of (cancel_set BY_CUSTOMER reason (t_db e) i))
          \<and> order_items (db w') = map (\<lambda>x. if x = i then cancel_set BY_CUSTOMER reason (t_db e) i else x)
               (order_items (db w))
        else res = Inl (HTTPException 409 CannotCancel) \<and> w' = w"
      using assms(3,4,8) go one c quiet_others [OF assms(2)] sql_update_unique [OF key one(2)]
      by (auto simp: cancel_item_customer_def Let_def frame split: if_splits)
    then show ?thesis using one by auto
  qed
qed

lemma customer_cancels_own_pending_items_witness:
  "cancel_item_customer demo_env ''qr-20'' 71 None \<lparr>db = demo, bus = []\<rparr>
     = (Inl (HTTPException 409 CannotCancel), \<lparr>db = demo, bus = []\<rparr>)"
proof -
  obtain res w' where c: "cancel_item_customer demo_env ''qr-20'' 71 None \<lparr>db = demo, bus = []\<rparr> = (res, w')"
    by fastforce
  have i: "demo_item 71 60 1 COOKING \<in> set (order_items demo)" "oi_id (demo_item 71 60 1 COOKING) = 71"
    "in_session 50 demo (demo_item 71 60 1 COOKING)" "oi_restaurant_id (demo_item 71 60 1 COOKING) = 1"
    "oi_status (demo_item 71 60 1 COOKING) = COOKING"
    by (simp_all add: in_session_iff demo_def demo_rows)
  have only: "oi_status x = COOKING" if "x \<in> set (order_items demo)" "oi_id x = 71" for x
    using that i unique_byD [OF keys_okD(10) [OF demo_keys]] by metis
  have s: "demo_session 50 20 OPEN None \<in> set (table_sessions demo)" by (simp add: demo_def)
  have sel: "t_id (demo_table 20 1 n q a) = 20" "r_id (demo_restaurant 1 x) = 1"
    "ts_table_id (demo_session 50 20 OPEN None) = 20" "ts_id (demo_session 50 20 OPEN None) = 50"
    "ts_status (demo_session 50 20 OPEN None) = OPEN" for n q a x
    by (simp_all add: demo_rows)
  have "\<exists>i \<in> set (order_items demo). oi_id i = 71 \<and> in_session 50 demo i \<and> oi_restaurant_id i = 1"
    using i by blast
  then show ?thesis
    using customer_cancels_own_pending_items [OF _ _ _ _ _ _ _ c, of _ _ "demo_session 50 20 OPEN None"]
      demo_resolve s only i(5) c
    by (auto simp: sel quiet_env_def valid_cancel_reason_def)
qed

end
