(* ===== verification/Auth.thy ===== *)
theory Auth imports Customer begin

text \<open>
  \<^verbatim>\<open>qorder_api/auth/\<close>, \<^verbatim>\<open>qorder_api/api/auth_router.py\<close> and \<^verbatim>\<open>qorder_api/ws/gateway.py\<close>: access
  tokens, role guards, logins, one-shot tickets and the WebSocket gateway. \<^verbatim>\<open>python-jose\<close>, \<^verbatim>\<open>bcrypt\<close>,
  \<^verbatim>\<open>secrets\<close> and Redis are not under the sources: they are the fields of \<open>jwt_api\<close>, the arguments
  \<open>checkpw\<close> and \<open>fresh_ticket\<close>, and the fields of \<open>ticket_api\<close>; what the code relies on is stated by
  \<open>jwt_laws\<close> and \<open>ticket_laws\<close>. The text of a JSON payload is kept as the value it is made from.
  \<^verbatim>\<open>UUID(...)\<close> is modelled on digits without the signs, blanks and underscores that \<^verbatim>\<open>int(_, 16)\<close>
  would also take, and claims are texts or times: no token of the program contains anything else.
\<close>

section \<open>Reading a UUID\<close>

definition hex_value :: "char \<Rightarrow> nat option" where
  "hex_value c =
     (let n = of_char c :: nat
      in if 48 \<le> n \<and> n \<le> 57 then Some (n - 48)
         else if 97 \<le> n \<and> n \<le> 102 then Some (n - 87)
         else if 65 \<le> n \<and> n \<le> 70 then Some (n - 55) else None)"

fun parse_hex :: "nat \<Rightarrow> string \<Rightarrow> nat option" where
  "parse_hex v [] = Some v"
| "parse_hex v (c # cs) =
     (case hex_value c of None \<Rightarrow> None | Some n \<Rightarrow> parse_hex (16 * v + n) cs)"

text \<open>
  \<^verbatim>\<open>UUID(text)\<close> of Python: the marks \<^verbatim>\<open>urn:\<close> and \<^verbatim>\<open>uuid:\<close> are removed wherever they are, braces at the ends, and all
  dashes; 32 characters must be left, which \<^verbatim>\<open>int(text, 16)\<close> reads: blanks around, a sign, the prefix \<^verbatim>\<open>0x\<close>
  and single underscores between the digits are allowed (digits of other scripts, too, which are left out here).
\<close>

function remove_all :: "string \<Rightarrow> string \<Rightarrow> string" where
  "remove_all w [] = []"
| "remove_all w (c # cs) =
     (if w \<noteq> [] \<and> take (length w) (c # cs) = w then remove_all w (drop (length w) (c # cs)) else c # remove_all w cs)"
  by pat_completeness auto
termination by (relation "measure (length \<circ> snd)") auto

definition strip_chars :: "(char \<Rightarrow> bool) \<Rightarrow> string \<Rightarrow> string" where
  "strip_chars P s = rev (dropWhile P (rev (dropWhile P s)))"

definition py_blank :: "char \<Rightarrow> bool" where
  "py_blank c = (let n = of_char c :: nat in n = 32 \<or> 9 \<le> n \<and> n \<le> 13 \<or> 28 \<le> n \<and> n \<le> 31)"

fun parse_digits16 :: "bool \<Rightarrow> nat \<Rightarrow> string \<Rightarrow> nat option" where
  "parse_digits16 expected v [] = (if expected then None else Some v)"
| "parse_digits16 expected v (c # cs) =
     (if c = CHR ''_'' \<and> \<not> expected then parse_digits16 True v cs
      else (case hex_value c of None \<Rightarrow> None | Some n \<Rightarrow> parse_digits16 False (16 * v + n) cs))"

definition py_int16 :: "string \<Rightarrow> int option" where
  "py_int16 text =
     (let s = strip_chars py_blank text;
          signed = (s \<noteq> [] \<and> hd s \<in> {CHR ''+'', CHR ''-''});
          u = (if signed then tl s else s);
          prefixed = (take 2 u \<in> {''0x'', ''0X''});
          v = (if prefixed then drop 2 u else u)
      in map_option (\<lambda>n. if signed \<and> hd s = CHR ''-'' then - int n else int n) (parse_digits16 (\<not> prefixed) 0 v))"

definition py_UUID :: "string \<Rightarrow> uuid option" where
  "py_UUID s =
     (let h = remove_all ''uuid:'' (remove_all ''urn:'' s);
          h = filter (\<lambda>c. c \<noteq> CHR ''-'') (strip_chars (\<lambda>c. c \<in> {CHR ''{'', CHR ''}''}) h)
      in if length h \<noteq> 32 then None
         else (case py_int16 h of
             None \<Rightarrow> None
           | Some i \<Rightarrow> if 0 \<le> i \<and> i < 2 ^ 128 then Some (of_int i) else None))"

section \<open>Tokens\<close>

record TokenPayload =
  tp_sub :: uuid
  tp_restaurant_id :: uuid
  tp_role :: string

datatype claim = CStr string | CTime timestamp

type_synonym claims = "(string \<times> claim) list"

record jwt_api =
  jwt_encode :: "claims \<Rightarrow> string \<Rightarrow> string \<Rightarrow> string"
  jwt_decode :: "string \<Rightarrow> string \<Rightarrow> string list \<Rightarrow> timestamp \<Rightarrow> claims option"

record auth_settings =
  jwt_secret :: string
  jwt_algorithm :: string
  access_token_expire_minutes :: int

definition create_access_token :: "jwt_api \<Rightarrow> auth_settings \<Rightarrow> timestamp \<Rightarrow> uuid \<Rightarrow> string \<Rightarrow> uuid
    \<Rightarrow> string" where
  "create_access_token jwt st now user_id role restaurant_id =
     (let expire = now + seconds (60 * access_token_expire_minutes st);
          payload = [(''sub'', CStr (uuid_str user_id)), (''role'', CStr role),
            (''restaurant_id'', CStr (uuid_str restaurant_id)), (''exp'', CTime expire)]
      in jwt_encode jwt payload (jwt_secret st) (jwt_algorithm st))"

definition decode_raw :: "jwt_api \<Rightarrow> auth_settings \<Rightarrow> timestamp \<Rightarrow> string \<Rightarrow> claims result" where
  "decode_raw jwt st now token =
     (case jwt_decode jwt token (jwt_secret st) [jwt_algorithm st] now of
        None \<Rightarrow> Inl TokenError
      | Some payload \<Rightarrow> Inr payload)"

definition decode_access_token :: "jwt_api \<Rightarrow> auth_settings \<Rightarrow> timestamp \<Rightarrow> string
    \<Rightarrow> TokenPayload result" where
  "decode_access_token jwt st now token =
     (case decode_raw jwt st now token of
        Inl x \<Rightarrow> Inl x
      | Inr raw \<Rightarrow>
          (case (map_of raw ''sub'', map_of raw ''restaurant_id'', map_of raw ''role'') of
             (Some (CStr s), Some (CStr r), Some (CStr role)) \<Rightarrow>
               (case (py_UUID s, py_UUID r) of
                  (Some sub, Some rid) \<Rightarrow>
                    Inr \<lparr>tp_sub = sub, tp_restaurant_id = rid, tp_role = role\<rparr>
                | _ \<Rightarrow> Inl TokenError)
           | _ \<Rightarrow> Inl TokenError))"

section \<open>Guards\<close>

definition get_current_user :: "jwt_api \<Rightarrow> auth_settings \<Rightarrow> timestamp \<Rightarrow> string option
    \<Rightarrow> TokenPayload result" where
  "get_current_user jwt st now credentials =
     (case credentials of
        None \<Rightarrow> Inl (HTTPException 401 MissingCredentials)
      | Some token \<Rightarrow>
          (case decode_access_token jwt st now token of
             Inl _ \<Rightarrow> Inl (HTTPException 401 InvalidToken)
           | Inr payload \<Rightarrow> Inr payload))"

definition require_role :: "string list \<Rightarrow> TokenPayload \<Rightarrow> TokenPayload result" where
  "require_role roles user =
     (if tp_role user \<notin> set roles
      then Inl (HTTPException 403 (RoleNotAuthorized (tp_role user))) else Inr user)"

text \<open>The dependencies of a guarded router run before the handler.\<close>

definition guarded :: "jwt_api \<Rightarrow> auth_settings \<Rightarrow> timestamp \<Rightarrow> string option \<Rightarrow> string list
    \<Rightarrow> (TokenPayload \<Rightarrow> 'w \<Rightarrow> 'a result \<times> 'w) \<Rightarrow> 'w \<Rightarrow> 'a result \<times> 'w" where
  "guarded jwt st now credentials roles handler w =
     (case get_current_user jwt st now credentials of
        Inl x \<Rightarrow> (Inl x, w)
      | Inr user \<Rightarrow> (case require_role roles user of Inl x \<Rightarrow> (Inl x, w) | Inr u \<Rightarrow> handler u w))"

definition get_kitchen_pin_required :: "uuid \<Rightarrow> database \<Rightarrow> bool result" where
  "get_kitchen_pin_required rid d =
     (case scalar_one_or_none (map rs_kitchen_screen_requires_pin
             (filter (\<lambda>s. rs_restaurant_id s = rid) (restaurant_settings d))) of
        Inl x \<Rightarrow> Inl x
      | Inr None \<Rightarrow> Inr True
      | Inr (Some v) \<Rightarrow> Inr v)"

section \<open>Logins\<close>

definition active_staff :: "uuid \<Rightarrow> database \<Rightarrow> User list" where
  "active_staff rid d =
     filter (\<lambda>u. u_restaurant_id u = rid \<and> u_role u = STAFF \<and> u_is_active u) (users d)"

definition restaurant_by_slug :: "string \<Rightarrow> database \<Rightarrow> Restaurant result" where
  "restaurant_by_slug slug d =
     (case scalar_one_or_none (filter (\<lambda>r. r_slug r = slug) (restaurants d)) of
        Inl x \<Rightarrow> Inl x
      | Inr None \<Rightarrow> Inl (HTTPException 404 RestaurantMissing)
      | Inr (Some r) \<Rightarrow> if r_is_active r then Inr r else Inl (HTTPException 404 RestaurantMissing))"

definition staff_login :: "jwt_api \<Rightarrow> auth_settings \<Rightarrow> (string \<Rightarrow> string \<Rightarrow> bool) \<Rightarrow> timestamp \<Rightarrow> string
    \<Rightarrow> string \<Rightarrow> database \<Rightarrow> string result" where
  "staff_login jwt st checkpw now slug pin d =
     (case restaurant_by_slug slug d of
        Inl x \<Rightarrow> Inl x
      | Inr restaurant \<Rightarrow>
          (case scalar_one_or_none (active_staff (r_id restaurant) d) of
             Inl x \<Rightarrow> Inl x
           | Inr None \<Rightarrow> Inl (HTTPException 401 InvalidCredentials)
           | Inr (Some u) \<Rightarrow>
               (case u_pin_hash u of
                  None \<Rightarrow> Inl (HTTPException 401 InvalidCredentials)
                | Some h \<Rightarrow>
                    if \<not> checkpw pin h then Inl (HTTPException 401 InvalidCredentials)
                    else Inr (create_access_token jwt st now (u_id u) (role_value (u_role u))
                           (r_id restaurant)))))"

definition admin_login :: "jwt_api \<Rightarrow> auth_settings \<Rightarrow> (string \<Rightarrow> string \<Rightarrow> bool) \<Rightarrow> timestamp \<Rightarrow> string
    \<Rightarrow> string \<Rightarrow> database \<Rightarrow> string result" where
  "admin_login jwt st checkpw now email password d =
     (case scalar_one_or_none (filter (\<lambda>u. u_email u = Some email \<and> u_role u = ADMIN \<and> u_is_active u)
             (users d)) of
        Inl x \<Rightarrow> Inl x
      | Inr None \<Rightarrow> Inl (HTTPException 401 InvalidCredentials)
      | Inr (Some u) \<Rightarrow>
          (case u_password_hash u of
             None \<Rightarrow> Inl (HTTPException 401 InvalidCredentials)
           | Some h \<Rightarrow>
               if \<not> checkpw password h then Inl (HTTPException 401 InvalidCredentials)
               else Inr (create_access_token jwt st now (u_id u) (role_value (u_role u))
                      (u_restaurant_id u))))"

section \<open>One-shot tickets\<close>

record ticket_payload =
  tk_restaurant_id :: string
  tk_role :: string
  tk_user_id :: "string option"

record 'r ticket_api =
  set_ex :: "string \<Rightarrow> ticket_payload \<Rightarrow> int \<Rightarrow> 'r \<Rightarrow> 'r"
  getdel :: "string \<Rightarrow> 'r \<Rightarrow> ticket_payload option \<times> 'r"

definition ticket_key :: "string \<Rightarrow> string" where
  "ticket_key ticket = ''ws_ticket:'' @ ticket"

definition issue_ws_ticket :: "'r ticket_api \<Rightarrow> int \<Rightarrow> string \<Rightarrow> uuid \<Rightarrow> string \<Rightarrow> uuid option \<Rightarrow> 'r
    \<Rightarrow> string \<times> 'r" where
  "issue_ws_ticket api ttl fresh_ticket restaurant_id role user_id r =
     (fresh_ticket, set_ex api (ticket_key fresh_ticket)
        \<lparr>tk_restaurant_id = uuid_str restaurant_id, tk_role = role,
         tk_user_id = map_option uuid_str user_id\<rparr> ttl r)"

definition verify_ws_ticket :: "'r ticket_api \<Rightarrow> string \<Rightarrow> 'r \<Rightarrow> ticket_payload option \<times> 'r" where
  "verify_ws_ticket api ticket r = getdel api (ticket_key ticket) r"

definition lower_char :: "char \<Rightarrow> char" where
  "lower_char c = (let n = of_char c :: nat in if 65 \<le> n \<and> n \<le> 90 then char_of (n + 32) else c)"

text \<open>The token of an \<^verbatim>\<open>Authorization\<close> header: what follows its first blank.\<close>

definition bearer_token :: "string option \<Rightarrow> string option" where
  "bearer_token authorization =
     (case authorization of
        None \<Rightarrow> None
      | Some a \<Rightarrow> if take 7 (map lower_char a) = ''bearer '' then Some (drop 7 a) else None)"

definition create_ws_ticket :: "jwt_api \<Rightarrow> auth_settings \<Rightarrow> 'r ticket_api \<Rightarrow> int \<Rightarrow> string \<Rightarrow> timestamp
    \<Rightarrow> string \<Rightarrow> string option \<Rightarrow> database \<Rightarrow> 'r \<Rightarrow> string result \<times> 'r" where
  "create_ws_ticket jwt st api ttl fresh_ticket now slug authorization d r =
     (case restaurant_by_slug slug d of
        Inl x \<Rightarrow> (Inl x, r)
      | Inr restaurant \<Rightarrow>
          (let issue = (\<lambda>user_id. case issue_ws_ticket api ttl fresh_ticket (r_id restaurant) ''staff''
                 user_id r of (ticket, r') \<Rightarrow> (Inr ticket, r'))
           in case get_kitchen_pin_required (r_id restaurant) d of
                Inl x \<Rightarrow> (Inl x, r)
              | Inr False \<Rightarrow> issue None
              | Inr True \<Rightarrow>
                  (case bearer_token authorization of
                     None \<Rightarrow> (Inl (HTTPException 401 StaffJwtRequired), r)
                   | Some token \<Rightarrow>
                       (case decode_access_token jwt st now token of
                          Inl _ \<Rightarrow> (Inl (HTTPException 401 InvalidToken), r)
                        | Inr payload \<Rightarrow>
                            if tp_role payload \<notin> set [''staff'', ''admin'']
                            then (Inl (HTTPException 403 RoleRequired), r)
                            else if tp_restaurant_id payload \<noteq> r_id restaurant
                            then (Inl (HTTPException 403 TokenOfOtherRestaurant), r)
                            else issue (Some (tp_sub payload))))))"

section \<open>The WebSocket gateway\<close>

datatype ws_outcome = Closed nat | Subscribed string

definition WS_CLOSE_INVALID_TICKET :: nat where "WS_CLOSE_INVALID_TICKET = 4401"
definition WS_CLOSE_INVALID_QR :: nat where "WS_CLOSE_INVALID_QR = 4404"

text \<open>What the bridge sends to the client of the events that \<^verbatim>\<open>pubsub.listen()\<close> gives.\<close>

definition bridge_redis_to_ws :: "(string \<times> payload) list \<Rightarrow> payload list" where
  "bridge_redis_to_ws events = map snd (filter (\<lambda>(kind, _). kind = ''message'') events)"

definition ws_kitchen :: "'r ticket_api \<Rightarrow> string option \<Rightarrow> 'r \<Rightarrow> ws_outcome \<times> 'r" where
  "ws_kitchen api ticket r =
     (case ticket of
        None \<Rightarrow> (Closed WS_CLOSE_INVALID_TICKET, r)
      | Some t \<Rightarrow>
          if t = [] then (Closed WS_CLOSE_INVALID_TICKET, r)
          else (case verify_ws_ticket api t r of
                  (None, r') \<Rightarrow> (Closed WS_CLOSE_INVALID_TICKET, r')
                | (Some payload, r') \<Rightarrow>
                    (Subscribed (''rt:'' @ tk_restaurant_id payload @ '':kitchen''), r')))"

definition resolve_qr_token :: "string \<Rightarrow> database \<Rightarrow> (Table \<times> uuid) option result" where
  "resolve_qr_token qr_token d =
     (case scalar_one_or_none (filter (\<lambda>t. t_qr_token t = qr_token \<and> t_is_active t) (tables d)) of
        Inl x \<Rightarrow> Inl x
      | Inr None \<Rightarrow> Inr None
      | Inr (Some table) \<Rightarrow>
          (case scalar_one_or_none (map r_id (filter (\<lambda>r. r_id r = t_restaurant_id table \<and> r_is_active r)
                  (restaurants d))) of
             Inl x \<Rightarrow> Inl x
           | Inr None \<Rightarrow> Inr None
           | Inr (Some rid) \<Rightarrow> Inr (Some (table, rid))))"

definition ws_customer :: "env \<Rightarrow> string \<Rightarrow> database \<Rightarrow> ws_outcome result \<times> database" where
  "ws_customer e qr_token d =
     (case resolve_qr_token qr_token d of
        Inl x \<Rightarrow> (Inl x, d)
      | Inr None \<Rightarrow> (Inr (Closed WS_CLOSE_INVALID_QR), d)
      | Inr (Some (table, rid)) \<Rightarrow>
          (case get_or_open e (t_id table) rid None d of
             (Inl x, d') \<Rightarrow> (Inl x, d')
           | (Inr (s, _), d') \<Rightarrow> (Inr (Subscribed (session_channel rid (ts_id s))), d')))"

section \<open>The text of a UUID is read back\<close>

lemma hex_value_digit: "n < 16 \<Longrightarrow> hex_value (hex_digit n) = Some n"
proof -
  have "\<forall>n \<in> set [0..<16]. hex_value (hex_digit n) = Some n" by code_simp
  then show "n < 16 \<Longrightarrow> hex_value (hex_digit n) = Some n" by simp
qed

lemma parse_hex_snoc:
  "parse_hex a (xs @ [c]) = (case parse_hex a xs of None \<Rightarrow> None
     | Some v \<Rightarrow> map_option (\<lambda>n. 16 * v + n) (hex_value c))"
  by (induction xs arbitrary: a) (auto split: option.splits)

lemma parse_hex_digits: "v < 16 ^ n \<Longrightarrow> parse_hex 0 (hex_digits n v) = Some v"
proof (induction n arbitrary: v)
  case (Suc n)
  then have "v div 16 < 16 ^ n" by (simp add: less_mult_imp_div_less)
  with Suc.IH show ?case by (simp add: parse_hex_snoc hex_value_digit)
qed simp

lemma hex_digit_not_dash: "n < 16 \<Longrightarrow> hex_digit n \<noteq> CHR ''-''"
  using hex_value_digit [of n] by (auto simp: hex_value_def)

lemma hex_digits_no_dash: "CHR ''-'' \<notin> set (hex_digits n v)"
proof (induction n arbitrary: v)
  case (Suc n)
  then show ?case using hex_digit_not_dash [of "v mod 16"] by auto
qed simp

lemma undash:
  assumes "CHR ''-'' \<notin> set h"
  shows "filter (\<lambda>c. c \<noteq> CHR ''-'') (dashed h) = h"
proof -
  have keep: "filter (\<lambda>c. c \<noteq> CHR ''-'') xs = xs" if "set xs \<subseteq> set h" for xs
    using assms that by (auto simp: filter_id_conv)
  have "take 4 (drop m h) @ drop (m + 4) h = drop m h" for m
    by (metis append_take_drop_id drop_drop add.commute)
  from this [of 8] this [of 12] this [of 16]
  have parts: "take 8 h @ take 4 (drop 8 h) @ take 4 (drop 12 h) @ take 4 (drop 16 h) @ drop 20 h = h"
    by simp
  have "set (take n (drop m h)) \<subseteq> set h" "set (drop m h) \<subseteq> set h" "set (take n h) \<subseteq> set h" for n m
    by (meson set_take_subset set_drop_subset subset_trans)+
  then have "filter (\<lambda>c. c \<noteq> CHR ''-'') (dashed h)
      = take 8 h @ take 4 (drop 8 h) @ take 4 (drop 12 h) @ take 4 (drop 16 h) @ drop 20 h"
    by (simp add: dashed_def keep)
  then show ?thesis by (simp only: parts)
qed

lemma hex_digits_hex: "c \<in> set (hex_digits n v) \<Longrightarrow> hex_value c \<noteq> None"
proof (induction n arbitrary: v)
  case (Suc n)
  then show ?case using hex_value_digit [of "v mod 16"] by auto
qed simp

lemma hex_not_mark:
  "hex_value c \<noteq> None \<Longrightarrow>
    c \<notin> {CHR ''u'', CHR ''{'', CHR ''}'', CHR ''+'', CHR ''-'', CHR ''x'', CHR ''X'', CHR ''_''} \<and> \<not> py_blank c"
  by (auto simp: hex_value_def py_blank_def Let_def split: if_splits)

lemma remove_all_none: "w = c # w' \<Longrightarrow> c \<notin> set s \<Longrightarrow> remove_all w s = s"
  by (induction w s rule: remove_all.induct) auto

lemma strip_chars_none: "(\<And>c. c \<in> set s \<Longrightarrow> \<not> P c) \<Longrightarrow> strip_chars P s = s"
proof -
  assume none: "\<And>c. c \<in> set s \<Longrightarrow> \<not> P c"
  have keep: "dropWhile P r = r" if "set r = set s" for r
    using that none by (cases r) auto
  show ?thesis by (simp add: strip_chars_def keep)
qed

lemma parse_digits16_hex:
  "(\<And>c. c \<in> set s \<Longrightarrow> hex_value c \<noteq> None) \<Longrightarrow> s \<noteq> [] \<or> \<not> expected \<Longrightarrow> parse_digits16 expected v s = parse_hex v s"
proof (induction s arbitrary: expected v)
  case (Cons c s)
  then obtain n where n: "hex_value c = Some n" by fastforce
  then have "c \<noteq> CHR ''_''" using hex_not_mark [of c] by auto
  with n Cons show ?case by simp
qed simp

lemma py_int16_hex:
  assumes "\<And>c. c \<in> set s \<Longrightarrow> hex_value c \<noteq> None" and "s \<noteq> []"
  shows "py_int16 s = map_option int (parse_hex 0 s)"
proof -
  have "strip_chars py_blank s = s" by (rule strip_chars_none) (use assms(1) hex_not_mark in blast)
  moreover have "hd s \<notin> {CHR ''+'', CHR ''-''}" using assms hex_not_mark [of "hd s"] by auto
  moreover have "take 2 s \<notin> {''0x'', ''0X''}"
  proof
    assume "take 2 s \<in> {''0x'', ''0X''}"
    then have "CHR ''x'' \<in> set (take 2 s) \<or> CHR ''X'' \<in> set (take 2 s)" by auto
    then show False using assms(1) hex_not_mark set_take_subset by fastforce
  qed
  ultimately show ?thesis
    using assms parse_digits16_hex [OF assms(1), where expected = True and v = 0] by (simp add: py_int16_def Let_def)
qed

lemma set_dashed: "set (dashed h) \<subseteq> insert (CHR ''-'') (set h)"
  unfolding dashed_def by (auto dest: in_set_takeD in_set_dropD)

lemma py_UUID_uuid_str [simp]: "py_UUID (uuid_str u) = Some u"
proof -
  let ?h = "hex_digits 32 (unat u)"
  have marks: "c \<notin> {CHR ''u'', CHR ''{'', CHR ''}''}" if "c \<in> set (dashed ?h)" for c
    using that set_dashed [of ?h] hex_not_mark hex_digits_hex [of c 32 "unat u"] by auto
  then have "CHR ''u'' \<notin> set (dashed ?h)" by blast
  then have "remove_all ''uuid:'' (remove_all ''urn:'' (dashed ?h)) = dashed ?h" by (simp add: remove_all_none)
  moreover have "strip_chars (\<lambda>c. c \<in> {CHR ''{'', CHR ''}''}) (dashed ?h) = dashed ?h"
    by (rule strip_chars_none) (use marks in blast)
  moreover have "unat u < 16 ^ 32" using unsigned_less [of u] by simp
  moreover have "py_int16 ?h = map_option int (parse_hex 0 ?h)"
    by (rule py_int16_hex) (use hex_digits_hex length_hex_digits [of 32 "unat u"] in \<open>auto simp del: length_hex_digits\<close>)
  moreover have "uint u < 2 ^ 128" using unsigned_less [of u] by simp
  ultimately show ?thesis
    by (simp add: py_UUID_def uuid_str_def undash hex_digits_no_dash parse_hex_digits Let_def)
qed

section \<open>Properties\<close>

text \<open>What the code relies on of \<^verbatim>\<open>python-jose\<close>: with the same key and algorithm a token gives its
  claims back until the whole second of its expiry has passed, and then an error.\<close>

definition jwt_expired :: "timestamp \<Rightarrow> timestamp \<Rightarrow> bool" where
  "jwt_expired now expiry \<longleftrightarrow> expiry div 1000000 < now div 1000000"

definition jwt_laws :: "jwt_api \<Rightarrow> bool" where
  "jwt_laws jwt \<longleftrightarrow> (\<forall>sub role rid t key alg now.
     let claims = [(''sub'', CStr sub), (''role'', CStr role), (''restaurant_id'', CStr rid),
           (''exp'', CTime t)]
     in jwt_decode jwt (jwt_encode jwt claims key alg) key [alg] now
       = (if jwt_expired now t then None else Some claims))"

text \<open>A concrete library for the witnesses: every text is written with a mark before each of its
  characters and another one at its end, a time as a sign and a unary number.\<close>

fun put_text :: "string \<Rightarrow> string" where
  "put_text [] = ''0''"
| "put_text (c # cs) = CHR ''1'' # c # put_text cs"

fun get_text :: "string \<Rightarrow> string \<times> string" where
  "get_text (m # c # s) =
     (if m = CHR ''1'' then (case get_text s of (t, rest) \<Rightarrow> (c # t, rest)) else ([], c # s))"
| "get_text [m] = ([], [])"
| "get_text [] = ([], [])"

lemma get_put_text [simp]: "get_text (put_text t @ rest) = (t, rest)"
proof (induction t)
  case Nil
  then show ?case by (cases rest) simp_all
qed simp

definition int_text :: "int \<Rightarrow> string" where
  "int_text n = (if n < 0 then CHR ''-'' else CHR ''+'') # replicate (nat \<bar>n\<bar>) CHR ''i''"

definition text_int :: "string \<Rightarrow> int" where
  "text_int s = (if take 1 s = ''-'' then - int (length (tl s)) else int (length (tl s)))"

lemma text_int_text [simp]: "text_int (int_text n) = n"
  by (simp add: text_int_def int_text_def)

fun plain_encode :: "claims \<Rightarrow> string \<Rightarrow> string \<Rightarrow> string" where
  "plain_encode [(_, CStr sub), (_, CStr role), (_, CStr rid), (_, CTime t)] key alg =
     put_text sub @ put_text role @ put_text rid @ put_text (int_text t) @ put_text key @ put_text alg"
| "plain_encode _ key alg = []"

definition plain_decode :: "string \<Rightarrow> string \<Rightarrow> string list \<Rightarrow> timestamp \<Rightarrow> claims option" where
  "plain_decode tok key algs now =
     (let (sub, s1) = get_text tok; (role, s2) = get_text s1; (rid, s3) = get_text s2;
          (t, s4) = get_text s3; (key', s5) = get_text s4; (alg, _) = get_text s5
      in if key' = key \<and> alg \<in> set algs \<and> \<not> jwt_expired now (text_int t)
         then Some [(''sub'', CStr sub), (''role'', CStr role), (''restaurant_id'', CStr rid),
           (''exp'', CTime (text_int t))] else None)"

definition plain_jwt :: jwt_api where
  "plain_jwt = \<lparr>jwt_encode = plain_encode, jwt_decode = plain_decode\<rparr>"

lemma plain_jwt_laws: "jwt_laws plain_jwt"
  using get_put_text [of _ "[]"]
  by (simp add: jwt_laws_def plain_jwt_def plain_decode_def Let_def)

lemma decode_created:
  assumes "jwt_laws jwt"
  shows "decode_access_token jwt st t (create_access_token jwt st now u role r)
    = (if (now + seconds (60 * access_token_expire_minutes st)) div 1000000 < t div 1000000
       then Inl TokenError else Inr \<lparr>tp_sub = u, tp_restaurant_id = r, tp_role = role\<rparr>)"
  using assms
  by (simp add: decode_access_token_def decode_raw_def create_access_token_def Let_def jwt_laws_def
      jwt_expired_def)

lemma restaurant_by_slug_Inr:
  assumes "db_inv d"
  shows "restaurant_by_slug slug d = Inr r \<longleftrightarrow> r \<in> set (restaurants d) \<and> r_slug r = slug \<and> r_is_active r"
proof
  assume "restaurant_by_slug slug d = Inr r"
  then show "r \<in> set (restaurants d) \<and> r_slug r = slug \<and> r_is_active r"
    using filter_eq_SingletonD [of "\<lambda>r. r_slug r = slug" "restaurants d" r]
    by (auto simp: restaurant_by_slug_def scalar_one_or_none_Some_iff split: sum.splits option.splits if_splits)
next
  assume r: "r \<in> set (restaurants d) \<and> r_slug r = slug \<and> r_is_active r"
  then have "filter (\<lambda>x. r_slug x = slug) (restaurants d) = [r]"
    using filter_unique [OF keys_okD(12) [OF db_invD(1) [OF assms]], of r "\<lambda>_. True"] by auto
  with r show "restaurant_by_slug slug d = Inr r" by (simp add: restaurant_by_slug_def)
qed

text \<open>
  C14 (tokens). A token that the program issued gives back exactly the user, the restaurant and the
  role it was issued for until the configured number of minutes has passed, and is refused with a
  401 answer from then on; a guarded route lets it in exactly if the role is among the allowed ones
  and answers 403 otherwise, without running the handler.
\<close>

theorem issued_token_opens_routes_of_its_role:
  assumes "jwt_laws jwt"
    and "tok = create_access_token jwt st now u role r"
  shows "guarded jwt st t (Some tok) roles handler w =
    (if (now + seconds (60 * access_token_expire_minutes st)) div 1000000 < t div 1000000
     then (Inl (HTTPException 401 InvalidToken), w)
     else if role \<in> set roles then handler \<lparr>tp_sub = u, tp_restaurant_id = r, tp_role = role\<rparr> w
     else (Inl (HTTPException 403 (RoleNotAuthorized role)), w))"
  using decode_created [OF assms(1), of st t now u role r] assms(2)
  by (simp add: guarded_def get_current_user_def require_role_def)

definition demo_auth :: auth_settings where
  "demo_auth = \<lparr>jwt_secret = ''key'', jwt_algorithm = ''HS256'', access_token_expire_minutes = 480\<rparr>"

lemma issued_token_opens_routes_of_its_role_witness:
  "guarded plain_jwt demo_auth (hours 1) (Some (create_access_token plain_jwt demo_auth 0 10 ''staff'' 1))
     [''staff'', ''admin''] (\<lambda>u w. (Inr (tp_sub u, tp_restaurant_id u), w)) () = (Inr (10, 1), ())"
  using issued_token_opens_routes_of_its_role [OF plain_jwt_laws refl, of demo_auth "hours 1" 0 10 "''staff''" 1
      "[''staff'', ''admin'']" "\<lambda>u w. (Inr (tp_sub u, tp_restaurant_id u), w)" "()"]
  by (simp add: demo_auth_def time_units)

text \<open>
  C15 (staff login). A staff login succeeds exactly for the slug of an active restaurant with one active user of the
  role staff, who has a PIN that \<^verbatim>\<open>bcrypt\<close> accepts for the one given; the answer is then the token for that user, that
  restaurant and the role \<^verbatim>\<open>staff\<close>, and this token opens no route of the administrators, at any time.
\<close>

theorem staff_login_issues_staff_token:
  assumes "jwt_laws jwt" and "db_inv d"
  shows "(staff_login jwt st checkpw now slug pin d = Inr tok \<longleftrightarrow>
      (\<exists>r u h. r \<in> set (restaurants d) \<and> r_slug r = slug \<and> r_is_active r
        \<and> filter (\<lambda>x. u_restaurant_id x = r_id r \<and> u_role x = STAFF \<and> u_is_active x) (users d) = [u]
        \<and> u_pin_hash u = Some h \<and> checkpw pin h
        \<and> tok = create_access_token jwt st now (u_id u) ''staff'' (r_id r)))
    \<and> (staff_login jwt st checkpw now slug pin d = Inr tok \<longrightarrow>
        (\<exists>x. guarded jwt st t (Some tok) [''admin''] handler w = (Inl x, w)))"
proof -
  have role: "u_role u = STAFF" if "active_staff rid d = [u]" for rid u
    using that filter_eq_SingletonD(2) by (fastforce simp: active_staff_def)
  have iff: "staff_login jwt st checkpw now slug pin d = Inr tok \<longleftrightarrow>
      (\<exists>r u h. r \<in> set (restaurants d) \<and> r_slug r = slug \<and> r_is_active r
        \<and> active_staff (r_id r) d = [u] \<and> u_pin_hash u = Some h \<and> checkpw pin h
        \<and> tok = create_access_token jwt st now (u_id u) ''staff'' (r_id r))" (is "?L \<longleftrightarrow> ?R")
  proof
    assume ?L
    then obtain r u h where "restaurant_by_slug slug d = Inr r" and u: "active_staff (r_id r) d = [u]"
      and "u_pin_hash u = Some h" "checkpw pin h"
      and "tok = create_access_token jwt st now (u_id u) (role_value (u_role u)) (r_id r)"
      by (auto simp: staff_login_def scalar_one_or_none_Some_iff split: sum.splits option.splits if_splits)
    with restaurant_by_slug_Inr [OF assms(2)] role [OF u] show ?R by auto
  next
    assume ?R
    then obtain r u h where "restaurant_by_slug slug d = Inr r" and u: "active_staff (r_id r) d = [u]"
      and "u_pin_hash u = Some h" "checkpw pin h"
      and "tok = create_access_token jwt st now (u_id u) ''staff'' (r_id r)"
      using restaurant_by_slug_Inr [OF assms(2)] by blast
    with role [OF u] show ?L by (simp add: staff_login_def)
  qed
  moreover have "\<exists>x. guarded jwt st t (Some tok) [''admin''] handler w = (Inl x, w)" if ?R
    using that decode_created [OF assms(1), of st t now _ "''staff''"]
    by (auto simp: guarded_def get_current_user_def require_role_def)
  ultimately show ?thesis unfolding active_staff_def by blast
qed

lemma staff_login_issues_staff_token_witness:
  "\<exists>tok. staff_login plain_jwt demo_auth (\<lambda>p h. h = ''hash:'' @ p) 0 ''pho'' ''1234'' demo = Inr tok
    \<and> tok = create_access_token plain_jwt demo_auth 0 10 ''staff'' 1"
proof -
  obtain tok where l: "staff_login plain_jwt demo_auth (\<lambda>p h. h = ''hash:'' @ p) 0 ''pho'' ''1234'' demo = Inr tok"
    by (simp add: staff_login_def restaurant_by_slug_def active_staff_def demo_def demo_rows)
  with staff_login_issues_staff_token [OF plain_jwt_laws demo_inv, of demo_auth "\<lambda>p h. h = ''hash:'' @ p" 0 "''pho''" "''1234''" tok
      "0" "\<lambda>u w. (Inr (), w)" "()"]
  show ?thesis by (auto simp: demo_def demo_rows)
qed

text \<open>
  One address, two restaurants: The addresses of users are unique per restaurant only, and the
  administrators' login does not ask for the restaurant. If two active administrators of two
  restaurants have the same address, neither can log in, with any password: the lookup raises.
\<close>

theorem shared_admin_address_locks_out:
  assumes "[a, b] = filter (\<lambda>u. u_email u = Some email \<and> u_role u = ADMIN \<and> u_is_active u) (users d)"
  shows "admin_login jwt st checkpw now email password d = Inl MultipleResultsFound"
  by (simp add: admin_login_def flip: assms)

lemma shared_admin_address_locks_out_witness:
  "admin_login plain_jwt demo_auth (\<lambda>p h. True) 0 ''admin@demo'' ''pw''
     (demo\<lparr>users := [demo_user 11 1 ADMIN, demo_user 13 2 ADMIN]\<rparr>) = Inl MultipleResultsFound"
  by (rule shared_admin_address_locks_out [of "demo_user 11 1 ADMIN" "demo_user 13 2 ADMIN"])
    (simp add: demo_user_def)

section \<open>The store of the tickets\<close>

text \<open>
  What the tickets rely on of Redis, over what a key holds (\<open>live\<close>: its value and how long it has left): \<^verbatim>\<open>SET\<close>
  with \<^verbatim>\<open>EX\<close> stores a value for that many seconds, \<^verbatim>\<open>GETDEL\<close> gives what is there and removes it, both leave the other
  keys alone, and a key whose time has passed is gone. \<open>elapse\<close> is the passing of time in the store.
\<close>

definition ticket_laws :: "'r ticket_api \<Rightarrow> ('r \<Rightarrow> string \<Rightarrow> (ticket_payload \<times> int) option) \<Rightarrow> (int \<Rightarrow> 'r \<Rightarrow> 'r) \<Rightarrow> bool" where
  "ticket_laws api live elapse \<longleftrightarrow>
     (\<forall>k v ttl r. 0 < ttl \<longrightarrow> live (set_ex api k v ttl r) = (live r)(k \<mapsto> (v, seconds ttl)))
     \<and> (\<forall>k r. fst (getdel api k r) = map_option fst (live r k) \<and> live (snd (getdel api k r)) = (live r)(k := None))
     \<and> (\<forall>t r k. live (elapse t r) k = (case live r k of
           None \<Rightarrow> None | Some (v, left) \<Rightarrow> if t < left then Some (v, left - t) else None))"

text \<open>What happens to the store: other tickets are issued, sockets are opened with any ticket or none, time passes.\<close>

datatype store_event = IssueTicket string uuid string "uuid option" | OpenSocket "string option" | TimePasses nat

fun store_step :: "'r ticket_api \<Rightarrow> int \<Rightarrow> (int \<Rightarrow> 'r \<Rightarrow> 'r) \<Rightarrow> store_event \<Rightarrow> 'r \<Rightarrow> 'r" where
  "store_step api ttl elapse (IssueTicket ticket rid role uid) r = snd (issue_ws_ticket api ttl ticket rid role uid r)"
| "store_step api ttl elapse (OpenSocket ticket) r = snd (ws_kitchen api ticket r)"
| "store_step api ttl elapse (TimePasses t) r = elapse (int t) r"

fun elapsed :: "store_event list \<Rightarrow> int" where
  "elapsed [] = 0"
| "elapsed (TimePasses t # es) = int t + elapsed es"
| "elapsed (_ # es) = elapsed es"

fun issues :: "string \<Rightarrow> store_event \<Rightarrow> bool" where
  "issues ticket (IssueTicket ticket' _ _ _) = (ticket' = ticket)"
| "issues ticket _ = False"

lemma elapsed_nonneg: "0 \<le> elapsed es"
  by (induction es rule: elapsed.induct) simp_all

lemma ticket_lawsD:
  assumes "ticket_laws api live elapse"
  shows "0 < ttl \<Longrightarrow> live (set_ex api k v ttl r) = (live r)(k \<mapsto> (v, seconds ttl))"
    and "fst (getdel api k r) = map_option fst (live r k)" and "live (snd (getdel api k r)) = (live r)(k := None)"
    and "live (elapse t r) k = (case live r k of
           None \<Rightarrow> None | Some (v, left) \<Rightarrow> if t < left then Some (v, left - t) else None)"
  using assms unfolding ticket_laws_def by blast+

lemma ticket_key_inject [simp]: "ticket_key t = ticket_key t' \<longleftrightarrow> t = t'"
  by (simp add: ticket_key_def)

lemma ws_kitchen_live:
  assumes "ticket_laws api live elapse" and "ticket \<noteq> []"
  shows "fst (ws_kitchen api (Some ticket) r) = (case live r (ticket_key ticket) of
      None \<Rightarrow> Closed WS_CLOSE_INVALID_TICKET
    | Some (p, _) \<Rightarrow> Subscribed (''rt:'' @ tk_restaurant_id p @ '':kitchen''))"
    and "live (snd (ws_kitchen api (Some ticket) r)) = (live r)(ticket_key ticket := None)"
  using ticket_lawsD(2,3) [OF assms(1), of "ticket_key ticket" r] assms(2)
  by (auto simp: ws_kitchen_def verify_ws_ticket_def split: prod.split option.split)

text \<open>What is left of a ticket after a row of events none of which issues it again.\<close>

lemma live_after_events:
  assumes laws: "ticket_laws api live elapse" and "0 < ttl" and "ticket \<noteq> []"
    and "\<And>e. e \<in> set es \<Longrightarrow> \<not> issues ticket e" and "\<And>p left. live r (ticket_key ticket) = Some (p, left) \<Longrightarrow> 0 < left"
  shows "live (fold (store_step api ttl elapse) es r) (ticket_key ticket) = (case live r (ticket_key ticket) of
      None \<Rightarrow> None
    | Some (p, left) \<Rightarrow> if OpenSocket (Some ticket) \<notin> set es \<and> elapsed es < left
        then Some (p, left - elapsed es) else None)"
  using assms(4,5)
proof (induction es arbitrary: r)
  case Nil
  then show ?case by (auto split: option.split)
next
  case (Cons e es)
  note IH = Cons.IH [of "store_step api ttl elapse e r"]
  show ?case
  proof (cases e)
    case (IssueTicket t rid role uid)
    with Cons.prems(1) [of e] have "t \<noteq> ticket" by simp
    with IH Cons.prems ticket_lawsD(1) [OF laws assms(2)] show ?thesis
      by (simp add: IssueTicket issue_ws_ticket_def split: option.split)
  next
    case (OpenSocket t)
    show ?thesis
    proof (cases "t = Some ticket")
      case True
      with OpenSocket IH Cons.prems ws_kitchen_live(2) [OF laws assms(3)] show ?thesis by (simp split: option.split)
    next
      case False
      then have "live (snd (ws_kitchen api t r)) (ticket_key ticket) = live r (ticket_key ticket)"
        using ws_kitchen_live(2) [OF laws, of "the t" r] by (cases t; cases "t = Some []") (auto simp: ws_kitchen_def)
      with False OpenSocket IH Cons.prems show ?thesis by (auto split: option.split)
    qed
  next
    case (TimePasses t)
    note left = ticket_lawsD(4) [OF laws, of "int t" r "ticket_key ticket"]
    show ?thesis
    proof (cases "live r (ticket_key ticket)")
      case None
      with TimePasses IH Cons.prems left show ?thesis by simp
    next
      case (Some p)
      with TimePasses IH Cons.prems left elapsed_nonneg [of es] show ?thesis
        by (cases p; cases "int t < snd p") auto
    qed
  qed
qed

definition map_tickets :: "(string \<rightharpoonup> ticket_payload \<times> int) ticket_api" where
  "map_tickets = \<lparr>set_ex = (\<lambda>k v ttl m. m(k \<mapsto> (v, seconds ttl))),
     getdel = (\<lambda>k m. (map_option fst (m k), m(k := None)))\<rparr>"

definition map_elapse :: "int \<Rightarrow> (string \<rightharpoonup> ticket_payload \<times> int) \<Rightarrow> (string \<rightharpoonup> ticket_payload \<times> int)" where
  "map_elapse t m k = (case m k of None \<Rightarrow> None | Some (v, left) \<Rightarrow> if t < left then Some (v, left - t) else None)"

lemma map_tickets_laws: "ticket_laws map_tickets (\<lambda>m. m) map_elapse"
  by (simp add: ticket_laws_def map_tickets_def map_elapse_def)

text \<open>
  C16 (tickets). A ticket that was issued opens the kitchen socket on the channel of the restaurant it was asked for,
  as long as less than its lifetime has passed and no socket was opened with it before; once it was used, or once its
  lifetime has passed, it opens none, ever, whatever other tickets are issued and used in the meantime. Unless the settings of
  the restaurant waive the PIN, it was issued to somebody with a valid token of that restaurant and the role of staff or
  administrator.
\<close>

theorem ticket_opens_kitchen_channel_once:
  assumes "ticket_laws api live elapse" and "fresh \<noteq> []" and "0 < ttl"
    and "create_ws_ticket jwt st api ttl fresh now slug authorization d r = (Inr ticket, r')"
    and "\<And>e. e \<in> set es \<Longrightarrow> \<not> issues ticket e"
  shows "\<exists>rest. rest \<in> set (restaurants d) \<and> r_slug rest = slug \<and> r_is_active rest
    \<and> fst (ws_kitchen api (Some ticket) (fold (store_step api ttl elapse) es r')) =
        (if OpenSocket (Some ticket) \<notin> set es \<and> elapsed es < seconds ttl
         then Subscribed (kitchen_channel (r_id rest)) else Closed WS_CLOSE_INVALID_TICKET)
    \<and> ((\<forall>x \<in> set (restaurant_settings d). rs_restaurant_id x = r_id rest \<longrightarrow> rs_kitchen_screen_requires_pin x) \<longrightarrow>
        (\<exists>tok user. bearer_token authorization = Some tok
          \<and> decode_access_token jwt st now tok = Inr user \<and> tp_restaurant_id user = r_id rest
          \<and> tp_role user \<in> {''staff'', ''admin''}))"
proof -
  from assms(4) obtain rest u where r: "restaurant_by_slug slug d = Inr rest"
    and iss: "issue_ws_ticket api ttl fresh (r_id rest) ''staff'' u r = (ticket, r')"
    and pin: "get_kitchen_pin_required (r_id rest) d \<noteq> Inr False \<longrightarrow>
        (\<exists>tok user. bearer_token authorization = Some tok
          \<and> decode_access_token jwt st now tok = Inr user \<and> tp_restaurant_id user = r_id rest
          \<and> tp_role user \<in> {''staff'', ''admin''})"
    by (auto simp: create_ws_ticket_def Let_def split: sum.splits prod.splits bool.splits
        option.splits if_splits)
  from r have act: "r_is_active rest" and sel: "filter (\<lambda>r. r_slug r = slug) (restaurants d) = [rest]"
    by (auto simp: restaurant_by_slug_def scalar_one_or_none_Some_iff
        split: sum.splits option.splits if_splits)
  note rest = filter_eq_SingletonD [OF sel] act
  from iss assms(2) have t: "ticket \<noteq> []" by (auto simp: issue_ws_ticket_def)
  have "live r' (ticket_key ticket) = Some (\<lparr>tk_restaurant_id = uuid_str (r_id rest),
      tk_role = ''staff'', tk_user_id = map_option uuid_str u\<rparr>, seconds ttl)"
    using iss ticket_lawsD(1) [OF assms(1,3)] by (auto simp: issue_ws_ticket_def)
  then have "fst (ws_kitchen api (Some ticket) (fold (store_step api ttl elapse) es r')) =
        (if OpenSocket (Some ticket) \<notin> set es \<and> elapsed es < seconds ttl
         then Subscribed (kitchen_channel (r_id rest)) else Closed WS_CLOSE_INVALID_TICKET)"
    using ws_kitchen_live(1) [OF assms(1) t] live_after_events [OF assms(1,3) t assms(5), of es r'] assms(3)
    by (auto simp: kitchen_channel_def seconds_def)
  moreover have "get_kitchen_pin_required (r_id rest) d \<noteq> Inr False"
    if "\<forall>x \<in> set (restaurant_settings d). rs_restaurant_id x = r_id rest \<longrightarrow> rs_kitchen_screen_requires_pin x"
  proof -
    have "x" if "map rs_kitchen_screen_requires_pin (filter (\<lambda>s. rs_restaurant_id s = r_id rest) (restaurant_settings d)) = [x]" for x
      using that \<open>\<forall>x \<in> set (restaurant_settings d). _ x\<close> by (auto simp: map_eq_Cons_conv dest: filter_eq_SingletonD)
    then show ?thesis
      by (auto simp: get_kitchen_pin_required_def scalar_one_or_none_Some_iff split: sum.splits option.splits)
  qed
  ultimately show ?thesis using rest pin by blast
qed

lemma ticket_opens_kitchen_channel_once_witness:
  "\<exists>r'. create_ws_ticket plain_jwt demo_auth map_tickets 30 ''t1'' 0 ''pho''
       (Some (''Bearer '' @ create_access_token plain_jwt demo_auth 0 10 ''staff'' 1)) demo Map.empty
     = (Inr ''t1'', r')
   \<and> fst (ws_kitchen map_tickets (Some ''t1'') (fold (store_step map_tickets 30 map_elapse)
       [TimePasses 20000000, OpenSocket (Some ''t2'')] r')) = Subscribed (kitchen_channel 1)
   \<and> fst (ws_kitchen map_tickets (Some ''t1'') (fold (store_step map_tickets 30 map_elapse)
       [OpenSocket (Some ''t1''), TimePasses 1] r')) = Closed WS_CLOSE_INVALID_TICKET"
proof -
  let ?tok = "create_access_token plain_jwt demo_auth 0 10 ''staff'' 1"
  have b: "bearer_token (Some (''Bearer '' @ ?tok)) = Some ?tok"
  proof -
    have "map lower_char ''Bearer '' = ''bearer ''" by code_simp
    then show ?thesis by (simp add: bearer_token_def)
  qed
  have dec: "decode_access_token plain_jwt demo_auth 0 ?tok
      = Inr \<lparr>tp_sub = 10, tp_restaurant_id = 1, tp_role = ''staff''\<rparr>"
    using decode_created [OF plain_jwt_laws, of demo_auth 0 0 10 "''staff''" 1]
    by (simp add: demo_auth_def time_units)
  have r: "restaurant_by_slug ''pho'' demo = Inr (demo_restaurant 1 ''pho'')"
    "get_kitchen_pin_required 1 demo = Inr True" "r_id (demo_restaurant 1 ''pho'') = 1"
    by (simp_all add: restaurant_by_slug_def get_kitchen_pin_required_def demo_def demo_rows)
  have "\<exists>r'. create_ws_ticket plain_jwt demo_auth map_tickets 30 ''t1'' 0 ''pho''
      (Some (''Bearer '' @ ?tok)) demo Map.empty = (Inr ''t1'', r')"
    unfolding create_ws_ticket_def b by (simp add: dec r issue_ws_ticket_def)
  then obtain r' where c: "create_ws_ticket plain_jwt demo_auth map_tickets 30 ''t1'' 0 ''pho''
      (Some (''Bearer '' @ ?tok)) demo Map.empty = (Inr ''t1'', r')" by blast
  have rest: "rest = demo_restaurant 1 ''pho''" if "rest \<in> set (restaurants demo)" "r_slug rest = ''pho''" for rest
    using that by (auto simp: demo_def demo_rows)
  note once = ticket_opens_kitchen_channel_once [OF map_tickets_laws _ _ c]
  have quiet: "e \<in> set [TimePasses 20000000, OpenSocket (Some ''t2'')] \<Longrightarrow> \<not> issues ''t1'' e"
    "e \<in> set [OpenSocket (Some ''t1''), TimePasses 1] \<Longrightarrow> \<not> issues ''t1'' e" for e
    by auto
  have "fst (ws_kitchen map_tickets (Some ''t1'') (fold (store_step map_tickets 30 map_elapse)
       [TimePasses 20000000, OpenSocket (Some ''t2'')] r')) = Subscribed (kitchen_channel 1)"
    using once [of "[TimePasses 20000000, OpenSocket (Some ''t2'')]", OF _ _ quiet(1)] rest r(3)
    by (auto simp: seconds_def)
  moreover have "fst (ws_kitchen map_tickets (Some ''t1'') (fold (store_step map_tickets 30 map_elapse)
       [OpenSocket (Some ''t1''), TimePasses 1] r')) = Closed WS_CLOSE_INVALID_TICKET"
    using once [of "[OpenSocket (Some ''t1''), TimePasses 1]", OF _ _ quiet(2)] by auto
  ultimately show ?thesis using c by blast
qed

end
