(* ===== verification/Kitchen.thy ===== *)
theory Kitchen imports Auth Overdue begin

text \<open>
  \<^verbatim>\<open>qorder_api/api/kitchen_router.py\<close>: the board, the change of an item's status, the cancellation by
  the staff and the acknowledgement of a call. Each handler runs behind \<^verbatim>\<open>require_role("staff",
  "admin")\<close> and takes its restaurant from the token. Between the check that the item exists and
  the update others may commit (gap 3), and again before the order is read for the event (gap 2).
\<close>

section \<open>GET /kitchen/board\<close>

definition board_item :: "timestamp \<Rightarrow> OrderItem \<Rightarrow> KitchenBoardItemResponse" where
  "board_item now item =
    \<lparr>kbi_id = oi_id item, kbi_order_id = oi_order_id item,
     kbi_menu_item_id = oi_menu_item_id item, kbi_name_snapshot = oi_name_snapshot item,
     kbi_price_snapshot = oi_price_snapshot item,
     kbi_prep_time_snapshot = oi_prep_time_snapshot item, kbi_quantity = oi_quantity item,
     kbi_note = oi_note item, kbi_status = oi_status item,
     kbi_requested_at = oi_requested_at item,
     kbi_overdue_level = compute_overdue_level (oi_prep_time_snapshot item) (oi_requested_at item) now\<rparr>"

definition get_kitchen_board :: "TokenPayload \<Rightarrow> timestamp \<Rightarrow> database \<Rightarrow> KitchenBoardItemResponse list" where
  "get_kitchen_board user now d =
     (let active_statuses = [PENDING, COOKING, READY];
          items = sort_key oi_requested_at
            (filter (\<lambda>i. oi_restaurant_id i = tp_restaurant_id user
                \<and> oi_status i \<in> set active_statuses) (order_items d))
      in map (board_item now) items)"

section \<open>POST /kitchen/items/{item_id}/status\<close>

text \<open>The check that the item exists in the restaurant of the user.\<close>

definition find_item :: "uuid \<Rightarrow> uuid \<Rightarrow> database \<Rightarrow> OrderItem option result" where
  "find_item item_id restaurant_id d =
     scalar_one_or_none (filter (\<lambda>i. oi_id i = item_id \<and> oi_restaurant_id i = restaurant_id)
       (order_items d))"

text \<open>The session of the order of an updated item.\<close>

definition session_of_order :: "uuid \<Rightarrow> database \<Rightarrow> uuid result" where
  "session_of_order order_id d =
     scalar_one (map o_table_session_id (filter (\<lambda>r. o_id r = order_id) (orders d)))"

definition item_payload :: "OrderItem \<Rightarrow> (string \<times> payload) list" where
  "item_payload i =
     [(''item'', PDict [(''id'', PId (oi_id i)), (''status'', PStr (item_status_value (oi_status i))),
        (''order_id'', PId (oi_order_id i))])]"

definition set_item_status :: "env \<Rightarrow> uuid \<Rightarrow> OrderItemStatus \<Rightarrow> TokenPayload \<Rightarrow> world
    \<Rightarrow> KitchenOrderItemResponse result \<times> world" where
  "set_item_status e item_id to user w =
     (case find_item item_id (tp_restaurant_id user) (db w) of
        Inl x \<Rightarrow> (Inl x, w)
      | Inr None \<Rightarrow> (Inl (HTTPException 404 ItemNotInRestaurant), w)
      | Inr (Some _) \<Rightarrow>
          (let d1 = others e 3 (db w)
           in case set_status item_id to (Some (tp_sub user)) (tp_restaurant_id user) (t_db e) d1 of
                Inl (InvalidTransition msg) \<Rightarrow> (Inl (HTTPException 400 msg), w\<lparr>db := d1\<rparr>)
              | Inl (ConflictError msg) \<Rightarrow> (Inl (HTTPException 409 msg), w\<lparr>db := d1\<rparr>)
              | Inl x \<Rightarrow> (Inl x, w\<lparr>db := d1\<rparr>)
              | Inr (i, d2) \<Rightarrow>
                  (let d3 = others e 2 d2
                   in case session_of_order (oi_order_id i) d3 of
                        Inl x \<Rightarrow> (Inl x, w\<lparr>db := d3\<rparr>)
                      | Inr sid \<Rightarrow>
                          (Inr (kitchen_order_item_of i),
                           publish_both e (tp_restaurant_id user) sid ITEM_UPDATED (item_payload i)
                             (w\<lparr>db := d3\<rparr>)))))"

section \<open>POST /kitchen/items/{item_id}/cancel\<close>

definition staff_cancel_payload :: "OrderItem \<Rightarrow> (string \<times> payload) list" where
  "staff_cancel_payload i =
     [(''item'', PDict [(''id'', PId (oi_id i)), (''status'', PStr (item_status_value (oi_status i))),
        (''cancelled_by'', PStr ''staff''), (''order_id'', PId (oi_order_id i))])]"

definition cancel_item_staff :: "env \<Rightarrow> uuid \<Rightarrow> TokenPayload \<Rightarrow> string option \<Rightarrow> world
    \<Rightarrow> CancelledItemResponse result \<times> world" where
  "cancel_item_staff e item_id user reason w =
     (if \<not> valid_cancel_reason reason then (Inl (HTTPException 422 ValidationFailed), w)
      else case find_item item_id (tp_restaurant_id user) (db w) of
        Inl x \<Rightarrow> (Inl x, w)
      | Inr None \<Rightarrow> (Inl (HTTPException 404 ItemNotInRestaurant), w)
      | Inr (Some _) \<Rightarrow>
          (let d1 = others e 3 (db w)
           in case cancel_item item_id BY_STAFF (tp_restaurant_id user) [PENDING, COOKING, READY]
                     reason (t_db e) d1 of
                Inl (ConflictError msg) \<Rightarrow> (Inl (HTTPException 409 msg), w\<lparr>db := d1\<rparr>)
              | Inl x \<Rightarrow> (Inl x, w\<lparr>db := d1\<rparr>)
              | Inr (i, d2) \<Rightarrow>
                  (let d3 = others e 2 d2
                   in case session_of_order (oi_order_id i) d3 of
                        Inl x \<Rightarrow> (Inl x, w\<lparr>db := d3\<rparr>)
                      | Inr sid \<Rightarrow>
                          (Inr (cancelled_item_of i),
                           publish_both e (tp_restaurant_id user) sid ITEM_CANCELLED
                             (staff_cancel_payload i) (w\<lparr>db := d3\<rparr>)))))"

section \<open>POST /kitchen/calls/{call_id}/ack\<close>

definition ack_staff_call :: "env \<Rightarrow> uuid \<Rightarrow> TokenPayload \<Rightarrow> world \<Rightarrow> StaffCallResponse result \<times> world" where
  "ack_staff_call e call_id user w =
     (case ack e call_id (tp_sub user) (tp_restaurant_id user) w of
        (Inl (ValueError msg), w') \<Rightarrow> (Inl (HTTPException 404 msg), w')
      | (Inl x, w') \<Rightarrow> (Inl x, w')
      | (Inr call, w') \<Rightarrow> (Inr (staff_call_response_of call), w'))"

section \<open>The invariant of the database\<close>

lemma db_inv_set_item_status:
  assumes "db_inv (db w)" and "good_env e"
  shows "db_inv (db (snd (set_item_status e item_id to user w)))"
  using assms good_envD(1) [OF assms(2)]
  by (auto simp: set_item_status_def Let_def split: sum.splits option.splits exn.splits)
    (blast intro: db_inv_set_status)+

lemma db_inv_cancel_item_staff:
  assumes "db_inv (db w)" and "good_env e"
  shows "db_inv (db (snd (cancel_item_staff e item_id user reason w)))"
proof -
  have "db_inv d'" if "cancel_item item_id BY_STAFF rid [PENDING, COOKING, READY] reason now d = Inr (r, d')"
    "db_inv d" for rid now d r d'
    by (rule db_inv_cancel_item [OF that(2,1)]) auto
  with assms good_envD(1) [OF assms(2)] show ?thesis
    by (auto simp: cancel_item_staff_def Let_def split: sum.splits option.splits exn.splits)
qed

lemma db_inv_ack_staff_call:
  assumes "db_inv (db w)" and "good_env e"
  shows "db_inv (db (snd (ack_staff_call e call_id user w)))"
  using db_inv_ack [OF assms(1), of e call_id "tp_sub user" "tp_restaurant_id user"] good_envD(1) [OF assms(2)]
  by (auto simp: ack_staff_call_def split: prod.splits sum.splits exn.splits)

section \<open>What the handlers answer\<close>

lemma session_of_order_existing:
  assumes "db_inv d" and "i \<in> set (order_items d)"
  obtains r where "r \<in> set (orders d)" and "o_id r = oi_order_id i"
    and "o_restaurant_id r = oi_restaurant_id i"
    and "session_of_order (oi_order_id i) d = Inr (o_table_session_id r)"
proof -
  from assms obtain r where r: "r \<in> set (orders d)" "o_id r = oi_order_id i"
    "o_restaurant_id r = oi_restaurant_id i"
    by (auto simp: inv_defs order_of_def)
  moreover from this have "filter (\<lambda>x. o_id x = oi_order_id i) (orders d) = [r]"
    using filter_unique [OF keys_okD(9) [OF db_invD(1) [OF assms(1)]] r(1), of "\<lambda>_. True"] by simp
  ultimately show thesis by (intro that [of r]) (simp_all add: session_of_order_def)
qed

section \<open>Properties\<close>

text \<open>
  C19 (the board). The kitchen board shows each active item (pending, cooking or ready) of the
  user's restaurant once and nothing else, the longest waiting first, each with the overdue level
  of exact arithmetic, which depends on no stored value; preparation times are below twenty million minutes.
\<close>

theorem board_shows_exactly_the_active_items:
  assumes "db_inv d"
    and "\<And>i. i \<in> set (order_items d) \<Longrightarrow> oi_prep_time_snapshot i < 20000000"
  shows "\<exists>items. get_kitchen_board user now d = map (board_item now) items
    \<and> set items = {i \<in> set (order_items d). oi_restaurant_id i = tp_restaurant_id user \<and> active (oi_status i)}
    \<and> distinct (map oi_id items) \<and> sorted (map oi_requested_at items)
    \<and> (\<forall>i \<in> set items. kbi_overdue_level (board_item now i)
         = overdue_spec (oi_prep_time_snapshot i) (now - oi_requested_at i))"
proof -
  let ?P = "\<lambda>i. oi_restaurant_id i = tp_restaurant_id user \<and> active (oi_status i)"
  let ?items = "sort_key oi_requested_at (filter ?P (order_items d))"
  have P: "oi_status i \<in> set [PENDING, COOKING, READY] \<longleftrightarrow> active (oi_status i)" for i
    by (cases "oi_status i") simp_all
  from keys_okD(10) [OF db_invD(1) [OF assms(1)]]
  have "inj_on oi_id (set (order_items d))" and "distinct (order_items d)"
    by (simp_all add: unique_by_def distinct_map)
  then have "distinct (map oi_id ?items)" by (auto simp: distinct_map intro: inj_on_subset)
  moreover have "kbi_overdue_level (board_item now i)
      = overdue_spec (oi_prep_time_snapshot i) (now - oi_requested_at i)" if "i \<in> set ?items" for i
    using that assms(2) [of i] assms(1)
    by (auto simp: board_item_def compute_overdue_level_eq inv_defs item_shape_def)
  ultimately show ?thesis
    by (intro exI [of _ ?items]) (auto simp: get_kitchen_board_def Let_def P simp del: set_simps)
qed

lemma board_shows_exactly_the_active_items_witness:
  "\<exists>items. get_kitchen_board \<lparr>tp_sub = 10, tp_restaurant_id = 1, tp_role = ''staff''\<rparr> (hours 1) demo
      = map (board_item (hours 1)) items
    \<and> set items = {demo_item 71 60 1 COOKING}
    \<and> kbi_overdue_level (board_item (hours 1) (demo_item 71 60 1 COOKING)) = Some 3"
proof -
  let ?user = "\<lparr>tp_sub = 10, tp_restaurant_id = 1, tp_role = ''staff''\<rparr>"
  have "oi_prep_time_snapshot i < 20000000" if "i \<in> set (order_items demo)" for i
    using that by (auto simp: demo_def demo_item_def)
  from board_shows_exactly_the_active_items [OF demo_inv this, of ?user "hours 1"]
  obtain items where i: "get_kitchen_board ?user (hours 1) demo = map (board_item (hours 1)) items"
    "set items = {i \<in> set (order_items demo). oi_restaurant_id i = 1 \<and> active (oi_status i)}"
    "\<forall>i \<in> set items. kbi_overdue_level (board_item (hours 1) i)
         = overdue_spec (oi_prep_time_snapshot i) (hours 1 - oi_requested_at i)"
    by auto
  moreover have "{i \<in> set (order_items demo). oi_restaurant_id i = 1 \<and> active (oi_status i)}
      = {demo_item 71 60 1 COOKING}"
    by (auto simp: demo_def demo_item_def)
  ultimately show ?thesis
    by (intro exI [of _ items]) (simp add: demo_item_def overdue_spec_def time_units)
qed

text \<open>
  Status changes by the kitchen: With no interference, the answer is 404 for an item that is
  not in the restaurant of the token, 400 for a change to cancelled, 409 for an illegal
  transition, and nothing changes; for a legal one, by a known user, the item alone changes and
  one event goes to the kitchen channel of the restaurant and one to the session of the item's
  order.
\<close>

theorem kitchen_status_change:
  assumes "db_inv (db w)" and "quiet_env e" and "set_item_status e item_id to user w = (res, w')"
    and "fk_user (Some (tp_sub user)) (db w)"
  shows "if \<exists>i \<in> set (order_items (db w)). oi_id i = item_id \<and> oi_restaurant_id i = tp_restaurant_id user
     then \<exists>i \<in> set (order_items (db w)). oi_id i = item_id
        \<and> (if to = CANCELLED then res = Inl (HTTPException 400 (TransitionNotAllowed CANCELLED)) \<and> w' = w
           else if \<not> item_transition (t_db e) i to
           then res = Inl (HTTPException 409 ItemStateChanged) \<and> w' = w
           else (let i' = set_status_set to (Some (tp_sub user)) (t_db e) i in
              res = Inr (kitchen_order_item_of i')
              \<and> order_items (db w') = map (\<lambda>x. if x = i then i' else x) (order_items (db w))
              \<and> (\<exists>r \<in> set (orders (db w)). o_id r = oi_order_id i
                  \<and> bus w' = bus (publish_both e (tp_restaurant_id user) (o_table_session_id r)
                      ITEM_UPDATED (item_payload i') w))))
     else res = Inl (HTTPException 404 ItemNotInRestaurant) \<and> w' = w"
proof -
  note key = keys_okD(10) [OF db_invD(1) [OF assms(1)]]
  note quiet = quiet_others [OF assms(2)]
  show ?thesis
    using key
  proof (cases rule: filter_key_cases [of oi_id _ item_id "\<lambda>i. oi_restaurant_id i = tp_restaurant_id user"])
    case none
    with assms(3) show ?thesis by (auto simp: set_item_status_def find_item_def)
  next
    case (one i)
    have find: "find_item item_id (tp_restaurant_id user) (db w) = Inr (Some i)"
      using one(1) by (simp add: find_item_def)
    note eq = set_status_existing [OF key one(2), of to "Some (tp_sub user)" "t_db e"]
    let ?i' = "set_status_set to (Some (tp_sub user)) (t_db e) i"
    have ord: "oi_order_id ?i' = oi_order_id i" by (simp add: set_status_set_def)
    obtain r where r: "r \<in> set (orders (db w))" "o_id r = oi_order_id i"
      "session_of_order (oi_order_id i) (db w) = Inr (o_table_session_id r)"
      using session_of_order_existing [OF assms(1) one(2)] by metis
    have so: "session_of_order (oi_order_id i) (touch_session_of_order oid now
        (db w\<lparr>order_items := rows\<rparr>)) = Inr (o_table_session_id r)" for oid now rows
      using r(3) by (simp add: session_of_order_def frame)
    have "if to = CANCELLED then res = Inl (HTTPException 400 (TransitionNotAllowed CANCELLED)) \<and> w' = w
        else if \<not> item_transition (t_db e) i to
        then res = Inl (HTTPException 409 ItemStateChanged) \<and> w' = w
        else res = Inr (kitchen_order_item_of ?i')
          \<and> order_items (db w') = map (\<lambda>x. if x = i then ?i' else x) (order_items (db w))
          \<and> bus w' = bus (publish_both e (tp_restaurant_id user) (o_table_session_id r)
              ITEM_UPDATED (item_payload ?i') w)"
      using assms(3,4) eq one sql_update_unique [OF key one(2)] ord
      by (auto simp: set_item_status_def find Let_def quiet so frame publish_both_def split: if_splits)
    moreover have ex: "\<exists>i \<in> set (order_items (db w)). oi_id i = item_id
        \<and> oi_restaurant_id i = tp_restaurant_id user" using one by blast
    ultimately show ?thesis
      using one(3) r(1,2) by (subst if_P [OF ex], intro bexI [OF _ one(2)]) (auto simp: Let_def)
  qed
qed

lemma kitchen_status_change_witness:
  "fst (set_item_status demo_env 71 READY \<lparr>tp_sub = 10, tp_restaurant_id = 1, tp_role = ''staff''\<rparr>
      \<lparr>db = demo, bus = []\<rparr>)
    = Inr (kitchen_order_item_of (demo_item 71 60 1 READY))"
proof -
  let ?user = "\<lparr>tp_sub = 10, tp_restaurant_id = 1, tp_role = ''staff''\<rparr>"
  let ?w = "\<lparr>db = demo, bus = []\<rparr>"
  obtain res w' where c: "set_item_status demo_env 71 READY ?user ?w = (res, w')" by fastforce
  let ?i = "demo_item 71 60 1 COOKING"
  have i: "?i \<in> set (order_items demo)" "oi_id ?i = 71" "oi_restaurant_id ?i = 1"
    by (simp_all add: demo_def demo_item_def)
  then have ex: "\<exists>i \<in> set (order_items (db ?w)). oi_id i = 71 \<and> oi_restaurant_id i = tp_restaurant_id ?user"
    by (intro bexI [of _ ?i]) simp_all
  have q: "db_inv (db ?w)" "quiet_env demo_env" "fk_user (Some (tp_sub ?user)) (db ?w)"
    by (simp_all add: quiet_env_def)
  have only: "j = ?i" if "j \<in> set (order_items demo)" "oi_id j = 71" for j
    using that by (auto simp: demo_def demo_item_def)
  have "item_transition (hours 4) ?i READY"
    "set_status_set READY (Some 10) (hours 4) ?i = demo_item 71 60 1 READY"
    by (simp_all add: item_transition_simps demo_item_def status_order set_status_set_def)
  with kitchen_status_change [OF q(1,2) c q(3), unfolded if_P [OF ex]] only c show ?thesis
    by (auto simp: Let_def)
qed

text \<open>
  Acknowledging a call once: Acknowledging a pending call of the restaurant stores who did it
  and when and publishes it; acknowledging it again, by whomever of the restaurant and whenever,
  answers with the first acknowledgement, changes nothing and publishes nothing. A call of another
  restaurant answers 404.
\<close>

theorem call_acknowledged_once:
  assumes "db_inv (db w)" and "quiet_env e"
    and "c \<in> set (staff_calls (db w))" and "sc_status c = CALL_PENDING"
    and "fk_user (Some (tp_sub user)) (db w)"
    and "ack_staff_call e (sc_id c) user w = (res, w')"
  shows "if sc_restaurant_id c = tp_restaurant_id user
     then res = Inr (staff_call_response_of (ack_set (tp_sub user) (t_py e) c))
       \<and> bus w' = bus (publish_both e (sc_restaurant_id c) (sc_table_session_id c) STAFF_CALL_ACK
           (ack_payload (ack_set (tp_sub user) (t_py e) c)) w)
       \<and> (tp_restaurant_id user' = tp_restaurant_id user
            \<longrightarrow> ack_staff_call e' (sc_id c) user' w' = (res, w'))
     else res = Inl (HTTPException 404 CallMissing) \<and> w' = w"
proof -
  note key = keys_okD(11) [OF db_invD(1) [OF assms(1)]]
  have sel: "filter (\<lambda>x. sc_id x = sc_id c \<and> sc_restaurant_id x = rid) (staff_calls (db w))
      = (if sc_restaurant_id c = rid then [c] else [])" for rid
    using filter_unique [OF key assms(3), of "\<lambda>x. sc_restaurant_id x = rid"] by simp
  let ?f = "ack_set (tp_sub user) (t_py e)"
  have "filter (\<lambda>x. sc_id x = sc_id c \<and> sc_restaurant_id x = rid)
      (sql_update (\<lambda>x. sc_id x = sc_id c) ?f (staff_calls (db w)))
    = (if sc_restaurant_id c = rid then [?f c] else [])" for rid
    using sel [of rid]
    by (subst filter_sql_update_same) (auto simp: ack_set_def sql_update_def)
  moreover have "sc_status (?f c) = CALL_ACKNOWLEDGED" by (simp add: ack_set_def)
  ultimately show ?thesis
    using assms(4-6) sel
    by (auto simp: ack_staff_call_def ack_def quiet_others [OF assms(2)] publish_both_def Let_def
        split: if_splits)
qed

lemma call_acknowledged_once_witness:
  "\<exists>res w'. ack_staff_call demo_env 80 \<lparr>tp_sub = 10, tp_restaurant_id = 1, tp_role = ''staff''\<rparr>
      \<lparr>db = demo, bus = []\<rparr> = (res, w')
    \<and> ack_staff_call demo_env 80 \<lparr>tp_sub = 11, tp_restaurant_id = 1, tp_role = ''admin''\<rparr> w' = (res, w')"
proof -
  let ?user = "\<lparr>tp_sub = 10, tp_restaurant_id = 1, tp_role = ''staff''\<rparr>"
  obtain res w' where c: "ack_staff_call demo_env 80 ?user \<lparr>db = demo, bus = []\<rparr> = (res, w')" by fastforce
  have k: "demo_call 80 (seconds 600) \<in> set (staff_calls demo)" by (simp add: demo_def)
  have s: "sc_id (demo_call 80 t) = 80" "sc_status (demo_call 80 t) = CALL_PENDING"
    "sc_restaurant_id (demo_call 80 t) = 1" for t by (simp_all add: demo_call_def)
  show ?thesis
    using call_acknowledged_once [of "\<lparr>db = demo, bus = []\<rparr>" demo_env "demo_call 80 (seconds 600)" ?user
        res w' "\<lparr>tp_sub = 11, tp_restaurant_id = 1, tp_role = ''admin''\<rparr>" demo_env] k s c
    by (simp add: quiet_env_def)
qed

end
