(* ===== verification/StaffTables.thy ===== *)
theory StaffTables imports Auth begin

text \<open>
  \<^verbatim>\<open>qorder_api/api/staff_table_router.py\<close>: opening a table, checking a session out and restoring an
  abandoned one. The handlers run behind \<^verbatim>\<open>require_role("staff", "admin")\<close> and take their restaurant
  from the token. Between the lookup of a session and its checkout others may commit (gap 3). The
  lookup leaves the session in the identity map of the request, and so the answer shows the row as
  it was before the checkout.
\<close>

section \<open>POST /tables/{table_id}/open\<close>

definition open_table :: "env \<Rightarrow> uuid \<Rightarrow> TokenPayload \<Rightarrow> world \<Rightarrow> SessionResponse result \<times> world" where
  "open_table e table_id user w =
     (case scalar_one_or_none (filter (\<lambda>t. t_id t = table_id
             \<and> t_restaurant_id t = tp_restaurant_id user) (tables (db w))) of
        Inl x \<Rightarrow> (Inl x, w)
      | Inr None \<Rightarrow> (Inl (HTTPException 404 TableMissing), w)
      | Inr (Some table) \<Rightarrow>
          if \<not> t_is_active table then (Inl (HTTPException 400 TableNotActive), w)
          else (case get_or_open e (t_id table) (tp_restaurant_id user) (Some (tp_sub user)) (db w) of
             (Inl x, d) \<Rightarrow> (Inl x, w\<lparr>db := d\<rparr>)
           | (Inr (s, _), d) \<Rightarrow> (Inr (session_response_of s), w\<lparr>db := d\<rparr>)))"

section \<open>POST /tables/sessions/{session_id}/checkout\<close>

definition find_session :: "uuid \<Rightarrow> uuid \<Rightarrow> database \<Rightarrow> TableSession option result" where
  "find_session session_id restaurant_id d =
     scalar_one_or_none (filter (\<lambda>s. ts_id s = session_id \<and> ts_restaurant_id s = restaurant_id)
       (table_sessions d))"

definition closed_payload :: "TableSession \<Rightarrow> money option \<Rightarrow> (string \<times> payload) list" where
  "closed_payload s amount =
     [(''session'', PDict
        [(''id'', PId (ts_id s)), (''table_id'', PId (ts_table_id s)), (''status'', PStr ''closed''),
         (''total_amount'', POpt PAmount amount), (''closed_at'', POpt PTime (ts_closed_at s))])]"

definition cancelled_summaries :: "CancelledItem list \<Rightarrow> CancelledItemSummary list" where
  "cancelled_summaries items =
     map (\<lambda>i. \<lparr>cis_id = ci_id i, cis_name_snapshot = ci_name_snapshot i,
               cis_quantity = ci_quantity i, cis_status_before = ci_status_before i\<rparr>) items"

definition checkout_session :: "env \<Rightarrow> uuid \<Rightarrow> TokenPayload \<Rightarrow> world \<Rightarrow> CheckoutResponse result \<times> world" where
  "checkout_session e session_id user w =
     (case find_session session_id (tp_restaurant_id user) (db w) of
        Inl x \<Rightarrow> (Inl x, w)
      | Inr None \<Rightarrow> (Inl (HTTPException 404 SessionMissing), w)
      | Inr (Some table_session) \<Rightarrow>
          (let d1 = others e 3 (db w)
           in case checkout [session_id \<mapsto> table_session] session_id (tp_restaurant_id user)
                     (t_db e) d1 of
                Inl x \<Rightarrow> (Inl x, w\<lparr>db := d1\<rparr>)
              | Inr (None, d2) \<Rightarrow> (Inl (HTTPException 409 AlreadyClosed), w\<lparr>db := d2\<rparr>)
              | Inr (Some r, d2) \<Rightarrow>
                  (Inr \<lparr>chr_session = session_response_of (cr_session r),
                     chr_total_amount = cr_total_amount r,
                     chr_auto_cancelled_items = cancelled_summaries (cr_auto_cancelled_items r),
                     chr_dismissed_calls_count = cr_dismissed_calls_count r\<rparr>,
                   publish_both e (tp_restaurant_id user) session_id SESSION_CLOSED
                     (closed_payload (cr_session r) (Some (cr_total_amount r))) (w\<lparr>db := d2\<rparr>))))"

section \<open>POST /tables/sessions/{session_id}/restore\<close>

definition restored_payload :: "TableSession \<Rightarrow> (string \<times> payload) list" where
  "restored_payload s =
     [(''session'', PDict
        [(''id'', PId (ts_id s)), (''table_id'', PId (ts_table_id s)), (''status'', PStr ''open'')])]"

definition restore_session :: "env \<Rightarrow> uuid \<Rightarrow> TokenPayload \<Rightarrow> world \<Rightarrow> RestoreResponse result \<times> world" where
  "restore_session e session_id user w =
     (case restore e session_id (tp_restaurant_id user) (db w) of
        (Inl (ValueError msg), d) \<Rightarrow> (Inl (HTTPException 400 msg), w\<lparr>db := d\<rparr>)
      | (Inl x, d) \<Rightarrow> (Inl x, w\<lparr>db := d\<rparr>)
      | (Inr None, d) \<Rightarrow> (Inl (HTTPException 404 SessionMissing), w\<lparr>db := d\<rparr>)
      | (Inr (Some r), d) \<Rightarrow>
          (Inr \<lparr>rer_session = session_response_of (rr_session r), rer_action = rr_action r,
             rer_total_amount = rr_total_amount r,
             rer_auto_cancelled_items = cancelled_summaries (rr_auto_cancelled_items r),
             rer_dismissed_calls_count = rr_dismissed_calls_count r\<rparr>,
           if rr_action r = ''restored''
           then publish_both e (tp_restaurant_id user) session_id SESSION_RESTORED
                  (restored_payload (rr_session r)) (w\<lparr>db := d\<rparr>)
           else publish_both e (tp_restaurant_id user) session_id SESSION_CLOSED
                  (closed_payload (rr_session r) (rr_total_amount r)) (w\<lparr>db := d\<rparr>)))"

section \<open>The invariant of the database\<close>

lemma db_inv_open_table:
  assumes "db_inv (db w)" and "good_env e"
  shows "db_inv (db (snd (open_table e table_id user w)))"
proof -
  have "db_inv d" if "get_or_open e (t_id t) (tp_restaurant_id user) u (db w) = (res, d)"
    "filter (\<lambda>t. t_id t = table_id \<and> t_restaurant_id t = tp_restaurant_id user) (tables (db w)) = [t]"
    for t u res d
  proof -
    have "table_of (tp_restaurant_id user) (t_id t) (db w)"
      using filter_eq_SingletonD [OF that(2)] by (auto simp: table_of_def)
    with db_inv_get_or_open [OF assms, of "tp_restaurant_id user" "t_id t" u] that(1)
    show ?thesis by simp
  qed
  with assms(1) show ?thesis
    by (auto simp: open_table_def sql split: sum.splits option.splits prod.splits)
qed

lemma db_inv_checkout_session:
  assumes "db_inv (db w)" and "good_env e"
  shows "db_inv (db (snd (checkout_session e session_id user w)))"
  using assms(1) good_envD(1) [OF assms(2,1)]
  by (auto simp: checkout_session_def Let_def dest: db_inv_checkout
      split: sum.splits option.splits prod.splits)

lemma db_inv_restore_session:
  assumes "db_inv (db w)" and "good_env e"
  shows "db_inv (db (snd (restore_session e session_id user w)))"
  using db_inv_restore [OF assms, of session_id "tp_restaurant_id user"]
  by (auto simp: restore_session_def split: sum.splits option.splits prod.splits exn.splits)

section \<open>Properties\<close>

lemma find_session_existing:
  assumes "db_inv d" and "s \<in> set (table_sessions d)"
  shows "find_session (ts_id s) (ts_restaurant_id s) d = Inr (Some s)"
  using filter_unique [OF keys_okD(8) [OF db_invD(1) [OF assms(1)]] assms(2),
      of "\<lambda>x. ts_restaurant_id x = ts_restaurant_id s"]
  by (simp add: find_session_def)

text \<open>
  The answer of a checkout: Without interference, checking out an open session of the user's
  restaurant closes it in the database with its bill. But the answer describes the session as it
  was loaded before: its status is still open, it has no closing time and no amount, next to the
  right amount; the published event says closed, without a closing time.
\<close>

theorem checkout_answers_with_the_old_session:
  assumes "db_inv (db w)" and "quiet_env e" and "s \<in> set (table_sessions (db w))"
    and "ts_status s = OPEN" and "ts_restaurant_id s = tp_restaurant_id user"
    and "fits_numeric_12_2 (served_total (ts_id s) (db w))"
  shows "\<exists>resp w'. checkout_session e (ts_id s) user w = (Inr resp, w')
    \<and> db w' = settled (ts_id s) (ts_restaurant_id s) (t_db e) (db w)
    \<and> session_status (ts_id s) (db w') = Some CLOSED
    \<and> chr_total_amount resp = served_total (ts_id s) (db w)
    \<and> sr_status (chr_session resp) = OPEN \<and> sr_closed_at (chr_session resp) = None
    \<and> sr_total_amount (chr_session resp) = None
    \<and> bus w' = bus (publish_both e (ts_restaurant_id s) (ts_id s) SESSION_CLOSED
        [(''session'', PDict [(''id'', PId (ts_id s)), (''table_id'', PId (ts_table_id s)),
           (''status'', PStr ''closed''), (''total_amount'', PAmount (chr_total_amount resp)),
           (''closed_at'', PNull)])] w)"
proof -
  note key = keys_okD(8) [OF db_invD(1) [OF assms(1)]]
  have shape: "ts_closed_at s = None" "ts_total_amount s = None"
    using assms(1,3,4) by (auto simp: inv_defs session_shape_def)
  have "session_status (ts_id s) (settled (ts_id s) (ts_restaurant_id s) (t_db e) (db w)) = Some CLOSED"
    using checkout_cas.run_target [OF assms(1), of Map.empty "ts_id s" "ts_restaurant_id s" "t_db e"]
      checkout_existing [OF key assms(3)] assms(4,6)
    by (auto simp: run_checkout_def)
  then show ?thesis
    using find_session_existing [OF assms(1,3)] checkout_existing [OF key assms(3)] assms(4-6) shape
    by (simp add: checkout_session_def quiet_others [OF assms(2)] closed_payload_def
        session_response_of_def publish_both_def Let_def)
qed

lemma checkout_answers_with_the_old_session_witness:
  "\<exists>resp w'. checkout_session demo_env 50 \<lparr>tp_sub = 10, tp_restaurant_id = 1, tp_role = ''staff''\<rparr>
      \<lparr>db = demo, bus = []\<rparr> = (Inr resp, w')
    \<and> session_status 50 (db w') = Some CLOSED \<and> sr_status (chr_session resp) = OPEN"
proof -
  have s: "demo_session 50 20 OPEN None \<in> set (table_sessions demo)" by (simp add: demo_def)
  have sel: "ts_id (demo_session 50 20 OPEN None) = 50" "ts_status (demo_session 50 20 OPEN None) = OPEN"
    "ts_restaurant_id (demo_session 50 20 OPEN None) = 1" by (simp_all add: demo_session_def)
  have "served_total 50 demo = 9000000"
    by (simp add: served_total_def in_session_def demo_def demo_rows)
  then show ?thesis
    using checkout_answers_with_the_old_session [of "\<lparr>db = demo, bus = []\<rparr>" demo_env
        "demo_session 50 20 OPEN None" "\<lparr>tp_sub = 10, tp_restaurant_id = 1, tp_role = ''staff''\<rparr>"] s
    by (simp add: sel quiet_env_def fits_numeric_12_2_def) blast
qed

text \<open>
  The answers of a restore: Without interference, restoring answers 404 for a session of
  another restaurant, 400 for one that is not abandoned or abandoned for more than 24 hours, with
  nothing changed or published; otherwise 200. When the table is free the database has the session
  open again, with one \<^verbatim>\<open>session.restored\<close> event to the kitchen and one to the guest, but the answer
  still shows it abandoned; when the table is taken it is closed with its bill, with
  \<^verbatim>\<open>session.closed\<close> events.
\<close>

theorem restore_answers:
  assumes "db_inv (db w)" and "quiet_env e" and "s \<in> set (table_sessions (db w))"
    and "fits_numeric_12_2 (served_total (ts_id s) (db w))"
    and "restore_session e (ts_id s) user w = (res, w')"
  shows "if ts_restaurant_id s \<noteq> tp_restaurant_id user
     then res = Inl (HTTPException 404 SessionMissing) \<and> w' = w
     else if ts_status s \<noteq> ABANDONED then res = Inl (HTTPException 400 OnlyAbandoned) \<and> w' = w
     else if hours 24 < t_py e - the (ts_abandoned_at s)
     then res = Inl (HTTPException 400 Over24Hours) \<and> w' = w
     else \<exists>resp. res = Inr resp \<and> rer_session resp = session_response_of s
       \<and> (if ts_table_id s \<notin> set (open_tables (db w))
          then rer_action resp = ''restored'' \<and> session_status (ts_id s) (db w') = Some OPEN
            \<and> sr_status (rer_session resp) = ABANDONED
            \<and> bus w' = bus (publish_both e (ts_restaurant_id s) (ts_id s) SESSION_RESTORED
                (restored_payload s) w)
          else rer_action resp = ''checked_out'' \<and> session_status (ts_id s) (db w') = Some CLOSED
            \<and> rer_total_amount resp = Some (served_total (ts_id s) (db w))
            \<and> bus w' = bus (publish_both e (ts_restaurant_id s) (ts_id s) SESSION_CLOSED
                (closed_payload s (rer_total_amount resp)) w))"
proof (cases "ts_restaurant_id s = tp_restaurant_id user")
  note key = keys_okD(8) [OF db_invD(1) [OF assms(1)]]
  {
    case False
    then have "restore e (ts_id s) (tp_restaurant_id user) (db w) = (Inr None, db w)"
      using unique_byD [OF key _ assms(3)] by (intro restore_missing) auto
    with False assms(5) show ?thesis by (simp add: restore_session_def)
  next
    case True
    have st: "session_status (ts_id s) (db w\<lparr>table_sessions := sql_update (\<lambda>x. ts_id x = ts_id s) f
        (table_sessions (db w))\<rparr>) = Some (ts_status (f s))" if "keeps_session f" for f
      by (rule session_status_updated [OF key assms(3) that]) simp
    have "session_status (ts_id s) (settled (ts_id s) (ts_restaurant_id s) (t_db e) (db w))
        = Some (ts_status (close_with (served_total (ts_id s) (db w)) (t_db e) s))"
      by (rule session_status_updated [OF key assms(3) keeps_close_with]) (simp add: settled_def)
    moreover note st [OF keeps_restore_set, of "t_db e"]
    ultimately show ?thesis
      using True assms(4,5) restore_existing [OF assms(1,3,2)]
      by (auto simp: restore_session_def restore_set_def close_with_def session_response_of_def
          publish_both_def split: if_splits)
  }
qed

lemma restore_answers_witness:
  "\<exists>resp w'. restore_session demo_env 51 \<lparr>tp_sub = 10, tp_restaurant_id = 1, tp_role = ''staff''\<rparr>
      \<lparr>db = demo, bus = []\<rparr> = (Inr resp, w')
    \<and> session_status 51 (db w') = Some OPEN \<and> sr_status (rer_session resp) = ABANDONED"
proof -
  let ?s = "demo_session 51 21 ABANDONED (Some (hours 3))"
  let ?user = "\<lparr>tp_sub = 10, tp_restaurant_id = 1, tp_role = ''staff''\<rparr>"
  obtain res w' where c: "restore_session demo_env 51 ?user \<lparr>db = demo, bus = []\<rparr> = (res, w')" by fastforce
  have s: "?s \<in> set (table_sessions demo)" by (simp add: demo_def)
  have sel: "ts_id ?s = 51" "ts_status ?s = ABANDONED" "ts_restaurant_id ?s = 1" "ts_table_id ?s = 21"
    "ts_abandoned_at ?s = Some (hours 3)" by (simp_all add: demo_session_def)
  have within: "\<not> hours 24 < hours 4 - hours 3" by (simp add: time_units)
  have "served_total 51 demo = 13500000"
    by (simp add: served_total_def in_session_def demo_def demo_rows)
  then show ?thesis
    using restore_answers [of "\<lparr>db = demo, bus = []\<rparr>" demo_env ?s ?user res w'] s c within
    by (auto simp: sel quiet_env_def fits_numeric_12_2_def)
qed

text \<open>
  Opening a table by the staff: Without interference, opening an active table of the user's
  restaurant answers with its one open session: the existing one, with nothing changed, or a new
  one that names the user as its opener. An unknown table, or one of another restaurant, answers
  404, an inactive one 400.
\<close>

theorem staff_opens_table:
  assumes "db_inv (db w)" and "quiet_env e" and "t \<in> set (tables (db w))"
    and "gen e 0 \<notin> ts_id ` set (table_sessions (db w))"
    and "fk_restaurant (tp_restaurant_id user) (db w)" and "fk_user (Some (tp_sub user)) (db w)"
    and "open_table e (t_id t) user w = (res, w')"
  shows "if t_restaurant_id t \<noteq> tp_restaurant_id user
     then res = Inl (HTTPException 404 TableMissing) \<and> w' = w
     else if \<not> t_is_active t then res = Inl (HTTPException 400 TableNotActive) \<and> w' = w
     else \<exists>s. res = Inr (session_response_of s)
       \<and> filter (\<lambda>x. ts_table_id x = t_id t \<and> ts_status x = OPEN) (table_sessions (db w')) = [s]
       \<and> (if t_id t \<in> set (open_tables (db w)) then w' = w
          else ts_opened_by s = Some (tp_sub user)
            \<and> table_sessions (db w') = table_sessions (db w) @ [s])"
proof -
  let ?rid = "tp_restaurant_id user"
  have sel: "filter (\<lambda>x. t_id x = t_id t \<and> t_restaurant_id x = ?rid) (tables (db w))
      = (if t_restaurant_id t = ?rid then [t] else [])"
    using filter_unique [OF keys_okD(4) [OF db_invD(1) [OF assms(1)]] assms(3),
        of "\<lambda>x. t_restaurant_id x = ?rid"] by simp
  let ?n = "new_session e (t_id t) ?rid (Some (tp_sub user))"
  have "res = Inr (session_response_of s) \<Longrightarrow> ?thesis" if "t_restaurant_id t = ?rid" "t_is_active t"
    "filter (\<lambda>x. ts_table_id x = t_id t \<and> ts_status x = OPEN) (table_sessions (db w')) = [s]"
    "if t_id t \<in> set (open_tables (db w)) then w' = w
     else ts_opened_by s = Some (tp_sub user) \<and> table_sessions (db w') = table_sessions (db w) @ [s]" for s
    using that by auto
  note answerI = this
  show ?thesis
  proof (cases "t_restaurant_id t = ?rid \<and> t_is_active t")
    case False
    with assms(7) sel show ?thesis by (auto simp: open_table_def split: if_splits)
  next
    case True
    show ?thesis
      using assms(1)
    proof (cases rule: find_open_session_cases [of _ "t_id t"])
      case none
      have "get_or_open e (t_id t) ?rid (Some (tp_sub user)) (db w) = (Inr (?n, False),
          db w\<lparr>table_sessions := table_sessions (db w) @ [?n]\<rparr>)"
        using assms(2-6) none(2) by (intro get_or_open_fresh assms(1))
          (auto simp: quiet_env_def fun_eq_iff fk_table_def)
      with True assms(7) sel have r: "res = Inr (session_response_of ?n)"
        "w' = w\<lparr>db := db w\<lparr>table_sessions := table_sessions (db w) @ [?n]\<rparr>\<rparr>"
        by (simp_all add: open_table_def)
      have "filter (\<lambda>x. ts_table_id x = t_id t \<and> ts_status x = OPEN) (table_sessions (db w)) = []"
        using none(2) open_tableI by (fastforce simp: filter_empty_conv)
      then show ?thesis using True r none(2)
        by (intro answerI [of ?n]) (simp_all add: new_session_def)
    next
      case (some s)
      with True assms(7) sel have r: "res = Inr (session_response_of s)" "w' = w"
        by (simp_all add: open_table_def get_or_open_def)
      have "t_id t \<in> set (open_tables (db w))" using open_tableI [OF some(2,4)] some(3) by simp
      moreover have "filter (\<lambda>x. ts_table_id x = t_id t \<and> ts_status x = OPEN) (table_sessions (db w)) = [s]"
        using some(1) by (simp add: find_open_session_def sql)
      ultimately show ?thesis using True r by (intro answerI [of s]) simp_all
    qed
  qed
qed

lemma staff_opens_table_witness:
  "\<exists>s. fst (open_table demo_env 21 \<lparr>tp_sub = 10, tp_restaurant_id = 1, tp_role = ''staff''\<rparr>
      \<lparr>db = demo, bus = []\<rparr>) = Inr (session_response_of s) \<and> ts_opened_by s = Some 10"
proof -
  let ?t = "demo_table 21 1 ''B02'' ''qr-21'' True"
  let ?user = "\<lparr>tp_sub = 10, tp_restaurant_id = 1, tp_role = ''staff''\<rparr>"
  obtain res w' where c: "open_table demo_env 21 ?user \<lparr>db = demo, bus = []\<rparr> = (res, w')" by fastforce
  have t: "?t \<in> set (tables demo)" by (simp add: demo_def)
  have sel: "t_id ?t = 21" "t_restaurant_id ?t = 1" "t_is_active ?t" by (simp_all add: demo_table_def)
  show ?thesis
    using staff_opens_table [of "\<lparr>db = demo, bus = []\<rparr>" demo_env ?t ?user res w'] t c
    by (auto simp: sel quiet_env_def)
qed

end
