(* ===== verification/AdminRows.thy ===== *)
theory AdminRows imports Models begin

text \<open>
  What the admin routers share: the fields of a PATCH body, of which only the given ones are
  written (\<^verbatim>\<open>model_dump(exclude_unset=True)\<close> and \<^verbatim>\<open>setattr\<close>), and the insertions into and updates of the
  tables they manage, with the constraints of \<^verbatim>\<open>models/table.py\<close> and \<^verbatim>\<open>models/menu.py\<close>.
\<close>

section \<open>Fields of a PATCH body\<close>

datatype 'a field = Unset | Given 'a

text \<open>
  The ORM writes a column when the given value differs from the one it has loaded; a column that
  it does not write keeps the value it has in the database at the time of the \<^verbatim>\<open>UPDATE\<close>. For a
  column that is NOT NULL the body may give an explicit null, which the update then refuses.
\<close>

fun set_field :: "'a field \<Rightarrow> 'a \<Rightarrow> 'a \<Rightarrow> 'a" where
  "set_field Unset loaded current = current"
| "set_field (Given v) loaded current = (if v = loaded then current else v)"

fun set_required :: "'a option field \<Rightarrow> 'a \<Rightarrow> 'a \<Rightarrow> 'a" where
  "set_required (Given (Some v)) loaded current = (if v = loaded then current else v)"
| "set_required _ loaded current = current"

fun gives_null :: "'a option field \<Rightarrow> bool" where
  "gives_null (Given None) = True"
| "gives_null _ = False"

fun changes :: "'a field \<Rightarrow> 'a \<Rightarrow> bool" where
  "changes Unset loaded = False"
| "changes (Given v) loaded = (v \<noteq> loaded)"

fun changes_required :: "'a option field \<Rightarrow> 'a \<Rightarrow> bool" where
  "changes_required (Given (Some v)) loaded = (v \<noteq> loaded)"
| "changes_required _ loaded = False"

text \<open>A field of a body satisfies a constraint unless it gives a value that violates it.\<close>

fun field_ok :: "('a \<Rightarrow> bool) \<Rightarrow> 'a option field \<Rightarrow> bool" where
  "field_ok P (Given (Some v)) = P v"
| "field_ok P _ = True"

lemma set_field_same [simp]: "set_field f x x = (case f of Unset \<Rightarrow> x | Given v \<Rightarrow> v)"
  by (cases f) simp_all

lemma set_required_same [simp]:
  "set_required f x x = (case f of Given (Some v) \<Rightarrow> v | _ \<Rightarrow> x)"
  by (cases f) (simp_all split: option.split)

section \<open>Tables\<close>

definition insert_table :: "Table \<Rightarrow> database \<Rightarrow> database result" where
  "insert_table t d =
     (case check
        [(t_id t \<notin> t_id ` set (tables d), IntegrityError ''tables_pkey''),
         (t_qr_token t \<notin> t_qr_token ` set (tables d), IntegrityError ''uq_tables_qr_token''),
         ((t_restaurant_id t, t_table_number t)
            \<notin> (\<lambda>x. (t_restaurant_id x, t_table_number x)) ` set (tables d),
            IntegrityError ''uq_tables_restaurant_number''),
         (fk_restaurant (t_restaurant_id t) d, IntegrityError ''restaurant_id_fkey'')] of
        Some x \<Rightarrow> Inl x
      | None \<Rightarrow> Inr (d\<lparr>tables := tables d @ [t]\<rparr>))"

definition update_table_row :: "uuid \<Rightarrow> (Table \<Rightarrow> Table) \<Rightarrow> database \<Rightarrow> database result" where
  "update_table_row table_id f d =
     (let rows = sql_update (\<lambda>t. t_id t = table_id) f (tables d)
      in case check
           [(unique_by t_qr_token rows, IntegrityError ''uq_tables_qr_token''),
            (unique_by (\<lambda>t. (t_restaurant_id t, t_table_number t)) rows,
               IntegrityError ''uq_tables_restaurant_number'')] of
           Some x \<Rightarrow> Inl x
         | None \<Rightarrow> Inr (d\<lparr>tables := rows\<rparr>))"

section \<open>The menu\<close>

definition fk_category :: "uuid option \<Rightarrow> database \<Rightarrow> bool" where
  "fk_category c d \<longleftrightarrow> (case c of None \<Rightarrow> True | Some i \<Rightarrow> i \<in> mc_id ` set (menu_categories d))"

definition insert_menu_category :: "MenuCategory \<Rightarrow> database \<Rightarrow> database result" where
  "insert_menu_category c d =
     (case check
        [(fits_int4 (mc_sort_order c), DBAPIError ''value out of int32 range''),
         (mc_id c \<notin> mc_id ` set (menu_categories d), IntegrityError ''menu_categories_pkey''),
         (fk_restaurant (mc_restaurant_id c) d, IntegrityError ''restaurant_id_fkey'')] of
        Some x \<Rightarrow> Inl x
      | None \<Rightarrow> Inr (d\<lparr>menu_categories := menu_categories d @ [c]\<rparr>))"

definition update_category_row :: "uuid \<Rightarrow> (MenuCategory \<Rightarrow> MenuCategory) \<Rightarrow> database \<Rightarrow> database result" where
  "update_category_row category_id f d =
     (let rows = sql_update (\<lambda>c. mc_id c = category_id) f (menu_categories d)
      in if \<forall>c \<in> set rows. mc_id c = category_id \<longrightarrow> fits_int4 (mc_sort_order c)
         then Inr (d\<lparr>menu_categories := rows\<rparr>)
         else Inl (DBAPIError ''value out of int32 range''))"

text \<open>The constraints of the columns of a menu item.\<close>

definition menu_item_checks :: "MenuItem \<Rightarrow> database \<Rightarrow> (bool \<times> exn) list" where
  "menu_item_checks m d =
     [(fits_int4 (mi_prep_time_minutes m) \<and> fits_int4 (mi_sort_order m),
         DBAPIError ''value out of int32 range''),
      (fits_numeric_12_2 (mi_price m), DBAPIError ''numeric field overflow''),
      (0 \<le> mi_prep_time_minutes m, IntegrityError ''ck_menu_items_prep_time_nonneg''),
      (fk_restaurant (mi_restaurant_id m) d, IntegrityError ''restaurant_id_fkey''),
      (fk_category (mi_category_id m) d, IntegrityError ''category_id_fkey'')]"

definition insert_menu_item :: "MenuItem \<Rightarrow> database \<Rightarrow> database result" where
  "insert_menu_item m d =
     (case check ((mi_id m \<notin> mi_id ` set (menu_items d), IntegrityError ''menu_items_pkey'')
             # menu_item_checks m d) of
        Some x \<Rightarrow> Inl x
      | None \<Rightarrow> Inr (d\<lparr>menu_items := menu_items d @ [m]\<rparr>))"

definition update_menu_item_row :: "uuid \<Rightarrow> (MenuItem \<Rightarrow> MenuItem) \<Rightarrow> database \<Rightarrow> database result" where
  "update_menu_item_row item_id f d =
     (case first_row (filter (\<lambda>m. mi_id m = item_id) (menu_items d)) of
        None \<Rightarrow> Inr d
      | Some m \<Rightarrow>
          (case check (menu_item_checks (f m) d) of
             Some x \<Rightarrow> Inl x
           | None \<Rightarrow> Inr (d\<lparr>menu_items := sql_update (\<lambda>m. mi_id m = item_id) f (menu_items d)\<rparr>)))"

section \<open>The invariant of the database\<close>

lemma open_tables_admin_frame [simp]:
  "open_tables (d\<lparr>tables := a\<rparr>) = open_tables d"
  "open_tables (d\<lparr>menu_items := b\<rparr>) = open_tables d"
  "open_tables (d\<lparr>menu_categories := c\<rparr>) = open_tables d"
  "open_tables (d\<lparr>restaurant_settings := s\<rparr>) = open_tables d"
  "open_tables (d\<lparr>users := u\<rparr>) = open_tables d"
  by (simp_all add: open_tables_def)

lemma of_admin_frame [simp]:
  "session_of r i (d\<lparr>tables := a\<rparr>) = session_of r i d"
  "order_of r i (d\<lparr>tables := a\<rparr>) = order_of r i d"
  "menu_item_of r i (d\<lparr>tables := a\<rparr>) = menu_item_of r i d"
  "session_of r i (d\<lparr>menu_items := b\<rparr>) = session_of r i d"
  "order_of r i (d\<lparr>menu_items := b\<rparr>) = order_of r i d"
  "table_of r i (d\<lparr>menu_items := b\<rparr>) = table_of r i d"
  by (simp_all add: of_defs)

lemma table_of_update:
  assumes "\<And>t. t_id (f t) = t_id t \<and> t_restaurant_id (f t) = t_restaurant_id t"
  shows "table_of r i (d\<lparr>tables := sql_update P f (tables d)\<rparr>) = table_of r i d"
  using assms by (auto simp: table_of_def set_sql_update)

lemma menu_item_of_update:
  assumes "\<And>m. mi_id (f m) = mi_id m \<and> mi_restaurant_id (f m) = mi_restaurant_id m"
  shows "menu_item_of r i (d\<lparr>menu_items := sql_update P f (menu_items d)\<rparr>) = menu_item_of r i d"
  using assms by (auto simp: menu_item_of_def set_sql_update)

declare check_None_iff [simp]

lemma insert_table_Inr:
  assumes "insert_table t d = Inr d'"
  shows "d' = d\<lparr>tables := tables d @ [t]\<rparr>" and "t_id t \<notin> t_id ` set (tables d)"
    and "t_qr_token t \<notin> t_qr_token ` set (tables d)"
    and "(t_restaurant_id t, t_table_number t)
      \<notin> (\<lambda>x. (t_restaurant_id x, t_table_number x)) ` set (tables d)"
    and "fk_restaurant (t_restaurant_id t) d"
  using assms by (auto simp: insert_table_def split: if_splits option.splits)

lemma db_inv_insert_table:
  assumes "db_inv d" and "insert_table t d = Inr d'"
  shows "db_inv d'"
  using assms(1) insert_table_Inr [OF assms(2)] by (auto simp: inv_defs of_defs)

lemma db_inv_update_table:
  assumes "db_inv d" and "update_table_row i f d = Inr d'"
    and f: "\<And>t. t_id (f t) = t_id t \<and> t_restaurant_id (f t) = t_restaurant_id t"
  shows "db_inv d'"
proof -
  let ?rows = "sql_update (\<lambda>t. t_id t = i) f (tables d)"
  from assms(2) have "d' = d\<lparr>tables := ?rows\<rparr>" "unique_by t_qr_token ?rows"
    "unique_by (\<lambda>t. (t_restaurant_id t, t_table_number t)) ?rows"
    by (auto simp: update_table_row_def Let_def split: if_splits option.splits)
  with assms(1) f show ?thesis
    by (simp add: inv_defs table_of_update unique_by_sql_update)
qed

lemma db_inv_insert_menu_category:
  assumes "db_inv d" and "insert_menu_category c d = Inr d'"
  shows "db_inv d'"
  using assms by (auto simp: insert_menu_category_def inv_defs of_defs split: if_splits option.splits)

lemma db_inv_update_category:
  assumes "db_inv d" and "update_category_row i f d = Inr d'" and f: "\<And>c. mc_id (f c) = mc_id c"
  shows "db_inv d'"
  using assms by (auto simp: update_category_row_def Let_def inv_defs of_defs unique_by_sql_update
      split: if_splits)

lemma db_inv_insert_menu_item:
  assumes "db_inv d" and "insert_menu_item m d = Inr d'"
  shows "db_inv d'"
  using assms by (auto simp: insert_menu_item_def inv_defs of_defs split: if_splits option.splits)

lemma db_inv_update_menu_items:
  assumes "db_inv d" and f: "\<And>m. mi_id (f m) = mi_id m \<and> mi_restaurant_id (f m) = mi_restaurant_id m"
  shows "db_inv (d\<lparr>menu_items := sql_update P f (menu_items d)\<rparr>)"
  using assms by (simp add: inv_defs menu_item_of_update unique_by_sql_update)

lemma db_inv_update_menu_item:
  assumes "db_inv d" and "update_menu_item_row i f d = Inr d'"
    and f: "\<And>m. mi_id (f m) = mi_id m \<and> mi_restaurant_id (f m) = mi_restaurant_id m"
  shows "db_inv d'"
  using assms(1,2) db_inv_update_menu_items [OF assms(1) f]
  by (auto simp: update_menu_item_row_def split: option.splits)

lemma unique_by_replace:
  assumes "unique_by k rows" and "t \<in> set rows" and "k u \<notin> k ` set rows"
  shows "unique_by k (map (\<lambda>x. if x = t then u else x) rows)"
proof -
  have "k x \<noteq> k u" if "x \<in> set rows" for x using assms(3) that by (metis imageI)
  then have "inj_on (\<lambda>x. k (if x = t then u else x)) (set rows)"
    using assms(1) by (intro inj_onI) (metis distinct_map inj_onD unique_by_def)
  with assms(1) show ?thesis by (simp add: unique_by_def distinct_map comp_def)
qed

end
