(* ===== verification/Decimals.thy ===== *)
theory Decimals imports Prelude begin

text \<open>
  Numbers as text: what \<^verbatim>\<open>str(n)\<close> writes and \<^verbatim>\<open>int(s)\<close> reads, two-digit fields, and the format
  \<^verbatim>\<open>f"{n:,}"\<close> with a comma between groups of three digits.
\<close>

section \<open>Digits\<close>

definition digit_value :: "char \<Rightarrow> nat option" where
  "digit_value c = (let n = of_char c :: nat in if 48 \<le> n \<and> n \<le> 57 then Some (n - 48) else None)"

fun parse_digits :: "nat \<Rightarrow> string \<Rightarrow> nat option" where
  "parse_digits acc [] = Some acc"
| "parse_digits acc (c # cs) =
     (case digit_value c of None \<Rightarrow> None | Some n \<Rightarrow> parse_digits (10 * acc + n) cs)"

fun dec :: "nat \<Rightarrow> string" where
  "dec n = (if n < 10 then [char_of (48 + n)] else dec (n div 10) @ [char_of (48 + n mod 10)])"

declare dec.simps [simp del]

lemma parse_digits_snoc:
  "parse_digits a (xs @ [c]) = (case parse_digits a xs of None \<Rightarrow> None
     | Some b \<Rightarrow> map_option (\<lambda>n. 10 * b + n) (digit_value c))"
  by (induction a xs rule: parse_digits.induct) (simp_all split: option.split)

lemma digit_value_digit: "n < 10 \<Longrightarrow> digit_value (char_of (48 + n)) = Some n"
  by (simp add: digit_value_def Let_def)

lemma parse_dec: "parse_digits 0 (dec n) = Some n"
proof (induction n rule: dec.induct)
  case (1 n)
  show ?case
  proof (cases "n < 10")
    case True
    then show ?thesis by (subst dec.simps) (simp add: digit_value_digit)
  next
    case False
    moreover from this have "dec n = dec (n div 10) @ [char_of (48 + n mod 10)]"
      by (subst dec.simps) simp
    moreover have "digit_value (char_of (48 + n mod 10)) = Some (n mod 10)"
      by (rule digit_value_digit) simp
    ultimately show ?thesis using 1 by (simp add: parse_digits_snoc)
  qed
qed

lemma dec_inject [simp]: "dec m = dec n \<longleftrightarrow> m = n"
  by (metis parse_dec option.inject)

section \<open>Two digits\<close>

definition two_digits :: "nat \<Rightarrow> string" where
  "two_digits n = [char_of (48 + n div 10 mod 10), char_of (48 + n mod 10)]"

lemma digit_values_dec: "c \<in> set (dec n) \<Longrightarrow> digit_value c \<noteq> None"
proof (induction n rule: dec.induct)
  case (1 n)
  show ?case
  proof (cases "n < 10")
    case True
    with 1(2) show ?thesis by (simp add: dec.simps [of n] digit_value_digit)
  next
    case False
    with 1 show ?thesis by (auto simp: dec.simps [of n] digit_value_digit)
  qed
qed

lemma dec_not_Nil [simp]: "dec n \<noteq> []"
  by (subst dec.simps) simp

section \<open>Groups of three\<close>

text \<open>From the right, so on the reversed digits.\<close>

fun group3 :: "string \<Rightarrow> string" where
  "group3 (a # b # c # d # ds) = a # b # c # CHR '','' # group3 (d # ds)"
| "group3 ds = ds"

definition with_commas :: "nat \<Rightarrow> string" where
  "with_commas n = rev (group3 (rev (dec n)))"

definition int_with_commas :: "int \<Rightarrow> string" where
  "int_with_commas i = (if i < 0 then CHR ''-'' # with_commas (nat (- i)) else with_commas (nat i))"

lemma group3_digits: "(\<And>c. c \<in> set ds \<Longrightarrow> Q c) \<Longrightarrow> \<not> Q CHR '','' \<Longrightarrow> filter Q (group3 ds) = ds"
  by (induction ds rule: group3.induct) auto

lemma digit_value_separators [simp]:
  "digit_value CHR '','' = None" "digit_value CHR ''.'' = None" "digit_value CHR ''-'' = None"
  by (simp_all add: digit_value_def)

text \<open>Dropping everything but the digits reads the number back.\<close>

lemma read_with_commas:
  "parse_digits 0 (filter (\<lambda>c. digit_value c \<noteq> None) (with_commas n)) = Some n"
proof -
  have "filter (\<lambda>c. digit_value c \<noteq> None) (group3 (rev (dec n))) = rev (dec n)"
    by (rule group3_digits) (auto dest: digit_values_dec)
  then have "filter (\<lambda>c. digit_value c \<noteq> None) (with_commas n) = dec n"
    unfolding with_commas_def by (simp add: rev_filter [symmetric])
  then show ?thesis by (simp add: parse_dec)
qed

end
