(* ===== verification/Storage.thy ===== *)
theory Storage imports Decimals begin

text \<open>
  \<^verbatim>\<open>qorder_api/storage.py\<close>: the object storage. The S3 service is a parameter (\<open>s3_api\<close>: which calls
  fail, and with which code); what the program does with it is the list of calls it has made, with
  the flag \<^verbatim>\<open>_bucket_ensured\<close> (\<open>s3_state\<close>). Bytes are strings of characters.
\<close>

section \<open>The client\<close>

datatype s3_call =
    HeadBucket string
  | CreateBucket string
  | PutBucketPolicy string
  | PutObject string string string string "string option"
  | DeleteObject string string

record s3_api =
  head_error :: "string option"
  create_error :: "string option"
  policy_error :: "string option"
  put_error :: "string \<Rightarrow> string option"
  delete_error :: "string \<Rightarrow> string option"

record s3_state =
  bucket_ensured :: bool
  calls :: "s3_call list"

record s3_settings =
  s3_public_url :: string
  s3_bucket :: string

definition call :: "s3_call \<Rightarrow> s3_state \<Rightarrow> s3_state" where
  "call c st = st\<lparr>calls := calls st @ [c]\<rparr>"

section \<open>The bucket\<close>

text \<open>\<^verbatim>\<open>int(code)\<close> of an error code.\<close>

definition py_int :: "string \<Rightarrow> nat option" where
  "py_int s = (if s = [] then None else parse_digits 0 s)"

definition ensure_bucket :: "s3_settings \<Rightarrow> s3_api \<Rightarrow> s3_state \<Rightarrow> unit result \<times> s3_state" where
  "ensure_bucket cfg api st =
     (if bucket_ensured st then (Inr (), st)
      else
        (let bucket = s3_bucket cfg;
             st1 = call (HeadBucket bucket) st;
             created = (case head_error api of
                 None \<Rightarrow> (Inr (), st1)
               | Some code \<Rightarrow>
                   (case py_int code of
                      None \<Rightarrow> (Inl (ValueError (NotAnInteger code)), st1)
                    | Some n \<Rightarrow>
                        if n = 404 then
                          (let st2 = call (CreateBucket bucket) st1
                           in case create_error api of
                                None \<Rightarrow> (Inr (), st2)
                              | Some err_code \<Rightarrow>
                                  if err_code \<noteq> ''BucketAlreadyOwnedByYou''
                                  then (Inl (ClientError err_code), st2) else (Inr (), st2))
                        else (Inl (ClientError code), st1)))
         in case created of
              (Inl x, st2) \<Rightarrow> (Inl x, st2)
            | (Inr _, st2) \<Rightarrow>
                (let st3 = call (PutBucketPolicy bucket) st2
                 in case policy_error api of
                      Some code \<Rightarrow> (Inl (ClientError code), st3)
                    | None \<Rightarrow> (Inr (), st3\<lparr>bucket_ensured := True\<rparr>))))"

section \<open>Objects and their URLs\<close>

definition rstrip_slash :: "string \<Rightarrow> string" where
  "rstrip_slash s = rev (dropWhile (\<lambda>c. c = CHR ''/'') (rev s))"

definition get_public_url :: "s3_settings \<Rightarrow> string \<Rightarrow> string" where
  "get_public_url cfg key =
     rstrip_slash (s3_public_url cfg) @ ''/'' @ s3_bucket cfg @ ''/'' @ key"

text \<open>The third component of \<^verbatim>\<open>url.partition(marker)\<close>: what follows the first marker.\<close>

fun partition_tail :: "string \<Rightarrow> string \<Rightarrow> string" where
  "partition_tail sep [] = []"
| "partition_tail sep (c # cs) =
     (if take (length sep) (c # cs) = sep then drop (length sep) (c # cs)
      else partition_tail sep cs)"

definition key_from_public_url :: "s3_settings \<Rightarrow> string \<Rightarrow> string option" where
  "key_from_public_url cfg url =
     (let marker = ''/'' @ s3_bucket cfg @ ''/'';
          key = partition_tail marker url
      in if key = [] then None else Some key)"

definition upload_file :: "s3_settings \<Rightarrow> s3_api \<Rightarrow> string \<Rightarrow> string \<Rightarrow> string \<Rightarrow> string option \<Rightarrow> s3_state
    \<Rightarrow> string result \<times> s3_state" where
  "upload_file cfg api key data content_type cache_control st =
     (case ensure_bucket cfg api st of
        (Inl x, st1) \<Rightarrow> (Inl x, st1)
      | (Inr _, st1) \<Rightarrow>
          (let st2 = call (PutObject (s3_bucket cfg) key data content_type cache_control) st1
           in case put_error api key of
                Some code \<Rightarrow> (Inl (ClientError code), st2)
              | None \<Rightarrow> (Inr (get_public_url cfg key), st2)))"

definition delete_file :: "s3_settings \<Rightarrow> s3_api \<Rightarrow> string \<Rightarrow> s3_state \<Rightarrow> s3_state" where
  "delete_file cfg api key st = call (DeleteObject (s3_bucket cfg) key) st"

section \<open>Lemmas\<close>

lemma partition_tail_at:
  assumes "sep \<noteq> []" and "\<And>i. i < length xs \<Longrightarrow> take (length sep) (drop i (xs @ sep @ ys)) \<noteq> sep"
  shows "partition_tail sep (xs @ sep @ ys) = ys"
  using assms(2)
proof (induction xs)
  case Nil
  obtain c cs where "sep = c # cs" using assms(1) by (cases sep) auto
  then show ?case by simp
next
  case (Cons x xs)
  have "take (length sep) (x # xs @ sep @ ys) \<noteq> sep" using Cons.prems [of 0] by simp
  moreover have "partition_tail sep (xs @ sep @ ys) = ys"
    using Cons.prems [of "Suc _"] by (intro Cons.IH) simp
  ultimately show ?case by simp
qed

lemma partition_tail_none:
  assumes "\<And>i. i < length xs \<Longrightarrow> take (length sep) (drop i xs) \<noteq> sep"
  shows "partition_tail sep xs = []"
  using assms
proof (induction xs)
  case (Cons x xs)
  have "take (length sep) (x # xs) \<noteq> sep" using Cons.prems [of 0] by simp
  moreover have "partition_tail sep xs = []" using Cons.prems [of "Suc _"] by (intro Cons.IH) simp
  ultimately show ?case by simp
qed simp

lemma calls_call [simp]: "calls (call c st) = calls st @ [c]"
  by (simp add: call_def)

lemma bucket_ensured_call [simp]: "bucket_ensured (call c st) = bucket_ensured st"
  by (simp add: call_def)

lemma upload_file_ensured:
  assumes "bucket_ensured st" and "put_error api key = None"
  shows "upload_file cfg api key data ct cc st
    = (Inr (get_public_url cfg key), call (PutObject (s3_bucket cfg) key data ct cc) st)"
  using assms by (simp add: upload_file_def ensure_bucket_def)

section \<open>Which objects the bucket holds\<close>

text \<open>
  The contents of a bucket after a list of successful calls, which is what S3 documents: the last
  \<^verbatim>\<open>PUT\<close> of a key counts, unless a \<^verbatim>\<open>DELETE\<close> of it follows.
\<close>

fun apply_call :: "s3_call \<Rightarrow> (string \<rightharpoonup> string) \<Rightarrow> (string \<rightharpoonup> string)" where
  "apply_call (PutObject bucket key data content_type cache_control) m = m(key \<mapsto> data)"
| "apply_call (DeleteObject bucket key) m = m(key := None)"
| "apply_call _ m = m"

definition objects :: "s3_call list \<Rightarrow> (string \<rightharpoonup> string)" where
  "objects cs = fold apply_call cs Map.empty"

lemma objects_append [simp]: "objects (cs @ ds) = fold apply_call ds (objects cs)"
  by (simp add: objects_def)

text \<open>
  The configured address of the storage does not itself contain the bucket as a path segment.
\<close>

definition plain_base :: "s3_settings \<Rightarrow> bool" where
  "plain_base cfg \<longleftrightarrow> (let base = rstrip_slash (s3_public_url cfg);
       marker = ''/'' @ s3_bucket cfg @ ''/''
     in list_all (\<lambda>i. take (length marker) (drop i (base @ marker)) \<noteq> marker) [0..<length base])"

lemma public_url_key:
  assumes "plain_base cfg" and "key \<noteq> []"
  shows "key_from_public_url cfg (get_public_url cfg key) = Some key"
proof -
  let ?m = "''/'' @ s3_bucket cfg @ ''/''" and ?base = "rstrip_slash (s3_public_url cfg)"
  have "take (length ?m) (drop i (?base @ ?m @ key)) \<noteq> ?m" if "i < length ?base" for i
  proof -
    have "take n (drop i (xs @ ys)) = take n (drop i xs)" if "i + n \<le> length xs" for n xs and ys :: string
      using that by simp
    from this [of "length ?m" "?base @ ?m" key]
    have "take (length ?m) (drop i (?base @ ?m @ key)) = take (length ?m) (drop i (?base @ ?m))"
      using that by simp
    with that assms(1) show ?thesis
      by (auto simp: plain_base_def Let_def list_all_iff simp del: append_Cons)
  qed
  then have "partition_tail ?m (?base @ ?m @ key) = key" by (intro partition_tail_at) auto
  with assms(2) show ?thesis by (simp add: key_from_public_url_def get_public_url_def Let_def)
qed

section \<open>Properties\<close>

text \<open>
  Keys and URLs: The key is recovered from the public URL of an object, for every
  non-empty key, as long as the configured base address does not itself contain the bucket as a
  path segment; and any address without that segment, such as an image hosted elsewhere, has none.
\<close>

theorem key_of_public_url:
  assumes "plain_base cfg" and "key \<noteq> []"
  shows "key_from_public_url cfg (get_public_url cfg key) = Some key
    \<and> (\<forall>url. (\<forall>i < length url. take (length (s3_bucket cfg) + 2) (drop i url)
          \<noteq> ''/'' @ s3_bucket cfg @ ''/'') \<longrightarrow> key_from_public_url cfg url = None)"
proof -
  let ?m = "''/'' @ s3_bucket cfg @ ''/''"
  have "key_from_public_url cfg url = None"
    if "\<forall>i < length url. take (length (s3_bucket cfg) + 2) (drop i url) \<noteq> ?m" for url
    using partition_tail_none [of url ?m] that by (simp add: key_from_public_url_def Let_def)
  with public_url_key [OF assms] show ?thesis by blast
qed

definition demo_s3 :: s3_settings where
  "demo_s3 = \<lparr>s3_public_url = ''http://s3:9000/'', s3_bucket = ''qorder''\<rparr>"

definition demo_s3_api :: s3_api where
  "demo_s3_api = \<lparr>head_error = None, create_error = None, policy_error = None,
     put_error = (\<lambda>_. None), delete_error = (\<lambda>_. None)\<rparr>"

lemma demo_base: "rstrip_slash (s3_public_url demo_s3) = ''http://s3:9000''" "s3_bucket demo_s3 = ''qorder''"
  by (simp_all add: rstrip_slash_def demo_s3_def)

lemma demo_plain_base: "plain_base demo_s3"
  by (simp add: plain_base_def demo_base upt_rec numeral_eq_Suc)

lemma key_of_public_url_witness:
  "get_public_url demo_s3 ''menu/40/thumb-1.webp'' = ''http://s3:9000/qorder/menu/40/thumb-1.webp''
   \<and> key_from_public_url demo_s3 (get_public_url demo_s3 ''menu/40/thumb-1.webp'')
       = Some ''menu/40/thumb-1.webp''"
  using key_of_public_url [OF demo_plain_base, of "''menu/40/thumb-1.webp''"]
  by (simp add: get_public_url_def demo_base)

end
