(* ===== verification/AdminTables.thy ===== *)
theory AdminTables imports Auth AdminRows Storage begin

text \<open>
  \<^verbatim>\<open>qorder_api/api/admin_table_router.py\<close> and \<^verbatim>\<open>schemas/table.py\<close>: tables and their QR codes. The handlers
  run behind \<^verbatim>\<open>require_role("admin")\<close>. The random token (\<^verbatim>\<open>secrets.token_urlsafe\<close>) and the renderer of QR
  codes are parameters. Between the lookup of a row and the \<^verbatim>\<open>UPDATE\<close> others may commit (gap 3), and
  again before the row is read back (gap 2). A failing upload rolls the transaction back.
\<close>

section \<open>Schemas\<close>

record TableResponse =
  tr_id :: uuid
  tr_restaurant_id :: uuid
  tr_table_number :: string
  tr_qr_token :: string
  tr_qr_image_url :: "string option"
  tr_is_active :: bool
  tr_created_at :: timestamp

definition table_response_of :: "Table \<Rightarrow> TableResponse" where
  "table_response_of t =
    \<lparr>tr_id = t_id t, tr_restaurant_id = t_restaurant_id t, tr_table_number = t_table_number t,
     tr_qr_token = t_qr_token t, tr_qr_image_url = t_qr_image_url t,
     tr_is_active = t_is_active t, tr_created_at = t_created_at t\<rparr>"

definition valid_table_number :: "string \<Rightarrow> bool" where
  "valid_table_number n \<longleftrightarrow> 1 \<le> characters n \<and> characters n \<le> 50"

record TableUpdate =
  tu_table_number :: "string option field"
  tu_is_active :: "bool option field"

section \<open>Helpers\<close>

definition get_restaurant_slug :: "uuid \<Rightarrow> database \<Rightarrow> string result" where
  "get_restaurant_slug restaurant_id d =
     (case scalar_one_or_none (map r_slug (filter (\<lambda>r. r_id r = restaurant_id) (restaurants d))) of
        Inl x \<Rightarrow> Inl x
      | Inr None \<Rightarrow> Inl (HTTPException 404 RestaurantNotFound)
      | Inr (Some slug) \<Rightarrow> Inr slug)"

definition build_qr_url :: "string \<Rightarrow> string \<Rightarrow> string \<Rightarrow> string" where
  "build_qr_url base_url slug qr_token = base_url @ ''/'' @ slug @ ''/t/'' @ qr_token"

definition qr_key :: "uuid \<Rightarrow> string" where
  "qr_key table_id = ''qr/'' @ uuid_str table_id @ ''.png''"

definition upload_qr_image :: "s3_settings \<Rightarrow> s3_api \<Rightarrow> uuid \<Rightarrow> string \<Rightarrow> s3_state \<Rightarrow> string result \<times> s3_state" where
  "upload_qr_image cfg api table_id png st =
     upload_file cfg api (qr_key table_id) png ''image/png'' None st"

definition find_table :: "uuid \<Rightarrow> uuid \<Rightarrow> database \<Rightarrow> Table option result" where
  "find_table table_id restaurant_id d =
     scalar_one_or_none (filter (\<lambda>t. t_id t = table_id \<and> t_restaurant_id t = restaurant_id) (tables d))"

text \<open>\<^verbatim>\<open>session.commit()\<close>, \<^verbatim>\<open>session.refresh(table)\<close> and the answer.\<close>

definition answer_table :: "env \<Rightarrow> uuid \<Rightarrow> database \<Rightarrow> world \<Rightarrow> TableResponse result \<times> world" where
  "answer_table e table_id d w =
     (let d' = others e 2 d
      in (case scalar_one (filter (\<lambda>t. t_id t = table_id) (tables d')) of
            Inl x \<Rightarrow> Inl x
          | Inr t \<Rightarrow> Inr (table_response_of t),
          w\<lparr>db := d'\<rparr>))"

section \<open>The endpoints\<close>

definition create_table :: "env \<Rightarrow> string \<Rightarrow> (string \<Rightarrow> string) \<Rightarrow> s3_settings \<Rightarrow> s3_api \<Rightarrow> string
    \<Rightarrow> string \<Rightarrow> TokenPayload \<Rightarrow> world \<Rightarrow> s3_state \<Rightarrow> (TableResponse result \<times> world) \<times> s3_state" where
  "create_table e base_url render cfg api qr_token table_number user w st =
     (if \<not> valid_table_number table_number then ((Inl (HTTPException 422 ValidationFailed), w), st)
      else case get_restaurant_slug (tp_restaurant_id user) (db w) of
        Inl x \<Rightarrow> ((Inl x, w), st)
      | Inr slug \<Rightarrow>
          (let d1 = others e 3 (db w);
               table = \<lparr>t_id = gen e 1, t_restaurant_id = tp_restaurant_id user,
                 t_table_number = table_number, t_qr_token = qr_token, t_qr_image_url = None,
                 t_is_active = True, t_created_at = t_db e\<rparr>
           in case insert_table table d1 of
                Inl x \<Rightarrow> ((Inl x, w\<lparr>db := d1\<rparr>), st)
              | Inr d2 \<Rightarrow>
                  (case upload_qr_image cfg api (t_id table) (render (build_qr_url base_url slug qr_token)) st of
                     (Inl x, st') \<Rightarrow> ((Inl x, w\<lparr>db := d1\<rparr>), st')
                   | (Inr image_url, st') \<Rightarrow>
                       (answer_table e (t_id table) (d2\<lparr>tables := sql_update (\<lambda>t. t_id t = t_id table)
                          (\<lambda>t. t\<lparr>t_qr_image_url := Some image_url\<rparr>) (tables d2)\<rparr>) w, st'))))"

text \<open>Rows are ordered by the collation of the database, given by its sort key.\<close>

definition list_tables :: "(string \<Rightarrow> 'k::linorder) \<Rightarrow> TokenPayload \<Rightarrow> database \<Rightarrow> TableResponse list" where
  "list_tables collate user d =
     map table_response_of (sort_key (\<lambda>t. collate (t_table_number t))
       (filter (\<lambda>t. t_restaurant_id t = tp_restaurant_id user) (tables d)))"

definition patch_table :: "TableUpdate \<Rightarrow> Table \<Rightarrow> Table \<Rightarrow> Table" where
  "patch_table body loaded t =
     t\<lparr>t_table_number := set_required (tu_table_number body) (t_table_number loaded) (t_table_number t),
       t_is_active := set_required (tu_is_active body) (t_is_active loaded) (t_is_active t)\<rparr>"

definition update_table :: "env \<Rightarrow> uuid \<Rightarrow> TableUpdate \<Rightarrow> TokenPayload \<Rightarrow> world \<Rightarrow> TableResponse result \<times> world" where
  "update_table e table_id body user w =
     (if \<not> field_ok valid_table_number (tu_table_number body)
      then (Inl (HTTPException 422 ValidationFailed), w)
      else case find_table table_id (tp_restaurant_id user) (db w) of
        Inl x \<Rightarrow> (Inl x, w)
      | Inr None \<Rightarrow> (Inl (HTTPException 404 TableNotFound), w)
      | Inr (Some table) \<Rightarrow>
          (let d1 = others e 3 (db w)
           in if gives_null (tu_table_number body) \<or> gives_null (tu_is_active body)
              then (Inl (IntegrityError ''not_null''), w\<lparr>db := d1\<rparr>)
              else (case update_table_row table_id (patch_table body table) d1 of
                      Inl x \<Rightarrow> (Inl x, w\<lparr>db := d1\<rparr>)
                    | Inr d2 \<Rightarrow> answer_table e table_id d2 w)))"

definition new_qr :: "string \<Rightarrow> string \<Rightarrow> Table \<Rightarrow> Table \<Rightarrow> Table" where
  "new_qr new_token image_url loaded t =
     t\<lparr>t_qr_token := set_field (Given new_token) (t_qr_token loaded) (t_qr_token t),
       t_qr_image_url := set_field (Given (Some image_url)) (t_qr_image_url loaded) (t_qr_image_url t)\<rparr>"

definition regenerate_qr :: "env \<Rightarrow> string \<Rightarrow> (string \<Rightarrow> string) \<Rightarrow> s3_settings \<Rightarrow> s3_api \<Rightarrow> string
    \<Rightarrow> uuid \<Rightarrow> TokenPayload \<Rightarrow> world \<Rightarrow> s3_state \<Rightarrow> (TableResponse result \<times> world) \<times> s3_state" where
  "regenerate_qr e base_url render cfg api new_token table_id user w st =
     (case find_table table_id (tp_restaurant_id user) (db w) of
        Inl x \<Rightarrow> ((Inl x, w), st)
      | Inr None \<Rightarrow> ((Inl (HTTPException 404 TableNotFound), w), st)
      | Inr (Some table) \<Rightarrow>
          (case get_restaurant_slug (tp_restaurant_id user) (db w) of
             Inl x \<Rightarrow> ((Inl x, w), st)
           | Inr slug \<Rightarrow>
               (let d1 = others e 3 (db w)
                in case upload_qr_image cfg api table_id (render (build_qr_url base_url slug new_token)) st of
                     (Inl x, st') \<Rightarrow> ((Inl x, w\<lparr>db := d1\<rparr>), st')
                   | (Inr image_url, st') \<Rightarrow>
                       (case update_table_row table_id (new_qr new_token image_url table) d1 of
                          Inl x \<Rightarrow> ((Inl x, w\<lparr>db := d1\<rparr>), st')
                        | Inr d2 \<Rightarrow> (answer_table e table_id d2 w, st')))))"

definition get_qr_image :: "string \<Rightarrow> (string \<Rightarrow> string) \<Rightarrow> uuid \<Rightarrow> TokenPayload \<Rightarrow> database \<Rightarrow> string result" where
  "get_qr_image base_url render table_id user d =
     (case find_table table_id (tp_restaurant_id user) d of
        Inl x \<Rightarrow> Inl x
      | Inr None \<Rightarrow> Inl (HTTPException 404 TableNotFound)
      | Inr (Some table) \<Rightarrow>
          (case get_restaurant_slug (tp_restaurant_id user) d of
             Inl x \<Rightarrow> Inl x
           | Inr slug \<Rightarrow> Inr (render (build_qr_url base_url slug (t_qr_token table)))))"

section \<open>The invariant of the database\<close>

lemma db_inv_answer_table:
  assumes "good_env e" and "db_inv d"
  shows "db_inv (db (snd (answer_table e i d w)))"
  using good_envD(1) [OF assms] by (simp add: answer_table_def Let_def)

lemma db_inv_create_table:
  assumes "db_inv (db w)" and e: "good_env e"
  shows "db_inv (db (snd (fst (create_table e base_url render cfg api qr n user w st))))"
proof -
  have "db_inv (d'\<lparr>tables := sql_update P (\<lambda>t. t\<lparr>t_qr_image_url := u\<rparr>) (tables d')\<rparr>)"
    if "insert_table t d = Inr d'" "db_inv d" for t d d' P u
    using db_inv_insert_table [OF that(2,1)] by (simp add: inv_defs table_of_update unique_by_sql_update)
  with assms good_envD(1) [OF e assms(1)] show ?thesis
    by (auto simp: create_table_def Let_def intro!: db_inv_answer_table
        split: sum.splits prod.splits)
qed

lemma db_inv_update_table_handler:
  assumes "db_inv (db w)" and e: "good_env e"
  shows "db_inv (db (snd (update_table e i body user w)))"
proof -
  have "db_inv d'" if "update_table_row i (patch_table body t) d = Inr d'" "db_inv d" for t d d'
    by (rule db_inv_update_table [OF that(2,1)]) (simp add: patch_table_def)
  with assms good_envD(1) [OF e assms(1)] show ?thesis
    by (auto simp: update_table_def Let_def intro!: db_inv_answer_table split: sum.splits option.splits)
qed

lemma db_inv_regenerate_qr:
  assumes "db_inv (db w)" and e: "good_env e"
  shows "db_inv (db (snd (fst (regenerate_qr e base_url render cfg api qr i user w st))))"
proof -
  have "db_inv d'" if "update_table_row i (new_qr a b t) d = Inr d'" "db_inv d" for a b t d d'
    by (rule db_inv_update_table [OF that(2,1)]) (simp add: new_qr_def)
  with assms good_envD(1) [OF e assms(1)] show ?thesis
    by (auto simp: regenerate_qr_def Let_def intro!: db_inv_answer_table
        split: sum.splits option.splits prod.splits)
qed

section \<open>Properties\<close>

lemma restaurant_slug_existing:
  assumes "keys_ok d" and "r \<in> set (restaurants d)"
  shows "get_restaurant_slug (r_id r) d = Inr (r_slug r)"
  using filter_unique [OF keys_okD(1) [OF assms(1)] assms(2), of "\<lambda>_. True"]
  by (simp add: get_restaurant_slug_def)

lemma resolve_table_cong:
  assumes "filter (\<lambda>t. t_qr_token t = qr \<and> t_is_active t) (tables d')
      = filter (\<lambda>t. t_qr_token t = qr \<and> t_is_active t) (tables d)"
    and "restaurants d' = restaurants d"
  shows "resolve_table qr d' = resolve_table qr d"
  by (simp only: resolve_table_def assms)

lemma upload_qr_image_ok:
  assumes "bucket_ensured st" and "put_error api (qr_key i) = None"
  shows "upload_qr_image cfg api i png st
    = (Inr (get_public_url cfg (qr_key i)),
       call (PutObject (s3_bucket cfg) (qr_key i) png ''image/png'' None) st)"
  unfolding upload_qr_image_def by (rule upload_file_ensured [OF assms])

lemma create_table_ok:
  fixes cfg :: s3_settings
  assumes inv: "db_inv (db w)" and "quiet_env e" and "valid_table_number n" and "bucket_ensured st"
    and "put_error api (qr_key (gen e 1)) = None"
    and "r \<in> set (restaurants (db w))" and "r_id r = tp_restaurant_id user"
    and "gen e 1 \<notin> t_id ` set (tables (db w))" and "qr \<notin> t_qr_token ` set (tables (db w))"
    and free: "\<not> (\<exists>t \<in> set (tables (db w)). t_restaurant_id t = tp_restaurant_id user \<and> t_table_number t = n)"
  defines "t \<equiv> \<lparr>t_id = gen e 1, t_restaurant_id = tp_restaurant_id user, t_table_number = n, t_qr_token = qr,
    t_qr_image_url = Some (get_public_url cfg (qr_key (gen e 1))), t_is_active = True, t_created_at = t_db e\<rparr>"
  shows "create_table e base_url render cfg api qr n user w st
    = ((Inr (table_response_of t), w\<lparr>db := db w\<lparr>tables := tables (db w) @ [t]\<rparr>\<rparr>),
       call (PutObject (s3_bucket cfg) (qr_key (gen e 1))
         (render (build_qr_url base_url (r_slug r) qr)) ''image/png'' None) st)"
proof -
  let ?rid = "tp_restaurant_id user"
  let ?t = "t\<lparr>t_qr_image_url := None\<rparr>"
  have slug: "get_restaurant_slug ?rid (db w) = Inr (r_slug r)"
    using restaurant_slug_existing [OF db_invD(1) [OF inv] assms(6)] assms(7) by simp
  have fresh: "t_id x \<noteq> gen e 1" if "x \<in> set (tables (db w))" for x
    using assms(8) that by (metis imageI)
  have fk: "fk_restaurant ?rid (db w)" using assms(6,7) unfolding fk_restaurant_def by (metis image_eqI)
  have ins: "insert_table ?t (db w) = Inr (db w\<lparr>tables := tables (db w) @ [?t]\<rparr>)"
    using free assms(8,9) fk by (auto simp: insert_table_def image_iff t_def)
  have upd: "sql_update (\<lambda>t. t_id t = gen e 1) f (tables (db w) @ [?t]) = tables (db w) @ [f ?t]" for f
    using fresh by (simp add: sql_update_def map_idI t_def)
  have sel: "filter (\<lambda>t. t_id t = gen e 1) (tables (db w)) = []"
    using fresh by (simp add: filter_empty_conv)
  show ?thesis
    using assms(3) ins upd sel slug upload_qr_image_ok [OF assms(4,5)]
    by (simp add: create_table_def answer_table_def quiet_others [OF assms(2)] Let_def t_def)
qed

text \<open>
  C20 (a new table). Without interference and with a working storage, creating a table whose number
  is free in the restaurant adds one active table, uploads the QR code of its address, and from
  then on its token leads to that table of that restaurant, while every other token leads where it
  led before. A number that is taken raises the \<^verbatim>\<open>IntegrityError\<close> of the unique constraint, which the
  handler does not catch, and nothing is stored or uploaded.
\<close>

theorem new_table_opens_by_its_qr:
  assumes "db_inv (db w)" and "quiet_env e" and "valid_table_number n" and "bucket_ensured st"
    and "put_error api (qr_key (gen e 1)) = None"
    and "r \<in> set (restaurants (db w))" and "r_id r = tp_restaurant_id user" and "r_is_active r"
    and "gen e 1 \<notin> t_id ` set (tables (db w))" and "qr \<notin> t_qr_token ` set (tables (db w))"
    and "create_table e base_url render cfg api qr n user w st = ((res, w'), st')"
  shows "if \<exists>t \<in> set (tables (db w)). t_restaurant_id t = tp_restaurant_id user \<and> t_table_number t = n
     then res = Inl (IntegrityError ''uq_tables_restaurant_number'') \<and> w' = w \<and> st' = st
     else \<exists>t. res = Inr (table_response_of t) \<and> tables (db w') = tables (db w) @ [t]
       \<and> t_table_number t = n \<and> resolve_table qr (db w') = Inr (t, r)
       \<and> (\<forall>other. other \<noteq> qr \<longrightarrow> resolve_table other (db w') = resolve_table other (db w))
       \<and> calls st' = calls st @ [PutObject (s3_bucket cfg) (qr_key (gen e 1))
           (render (base_url @ ''/'' @ r_slug r @ ''/t/'' @ qr)) ''image/png'' None]"
proof (cases "\<exists>t \<in> set (tables (db w)). t_restaurant_id t = tp_restaurant_id user \<and> t_table_number t = n")
  case True
  have "get_restaurant_slug (tp_restaurant_id user) (db w) = Inr (r_slug r)"
    using restaurant_slug_existing [OF db_invD(1) [OF assms(1)] assms(6)] assms(7) by simp
  moreover from True have "insert_table \<lparr>t_id = gen e 1, t_restaurant_id = tp_restaurant_id user, t_table_number = n,
      t_qr_token = qr, t_qr_image_url = None, t_is_active = True, t_created_at = t_db e\<rparr> (db w)
    = Inl (IntegrityError ''uq_tables_restaurant_number'')"
    using assms(9,10) by (force simp: insert_table_def image_iff)
  ultimately show ?thesis using True assms(3,11)
    by (simp add: create_table_def quiet_others [OF assms(2)] Let_def)
next
  case False
  define t where "t = \<lparr>t_id = gen e 1, t_restaurant_id = tp_restaurant_id user, t_table_number = n, t_qr_token = qr,
    t_qr_image_url = Some (get_public_url cfg (qr_key (gen e 1))), t_is_active = True, t_created_at = t_db e\<rparr>"
  have r: "res = Inr (table_response_of t)" "tables (db w') = tables (db w) @ [t]"
    "restaurants (db w') = restaurants (db w)"
    "calls st' = calls st @ [PutObject (s3_bucket cfg) (qr_key (gen e 1))
        (render (build_qr_url base_url (r_slug r) qr)) ''image/png'' None]"
    using create_table_ok [OF assms(1-7,9,10) False, of base_url render cfg] assms(11) unfolding t_def by auto
  have "filter (\<lambda>t. t_qr_token t = qr \<and> t_is_active t) (tables (db w)) = []"
    using assms(10) by (auto simp: filter_empty_conv)
  moreover have "filter (\<lambda>x. r_id x = tp_restaurant_id user \<and> r_is_active x) (restaurants (db w)) = [r]"
    using filter_unique [OF keys_okD(1) [OF db_invD(1) [OF assms(1)]] assms(6), of r_is_active] assms(7,8) by simp
  ultimately have "resolve_table qr (db w') = Inr (t, r)"
    using r(2,3) by (simp add: resolve_table_def t_def)
  moreover have "resolve_table other (db w') = resolve_table other (db w)" if "other \<noteq> qr" for other
    using that r(2,3) by (intro resolve_table_cong) (simp_all add: t_def)
  moreover have "t_table_number t = n" by (simp add: t_def)
  ultimately show ?thesis using False r by (auto simp: build_qr_url_def)
qed

lemma new_table_opens_by_its_qr_witness:
  "\<exists>t w' st'. create_table demo_env ''https://q'' id demo_s3 demo_s3_api ''fresh'' ''B09''
      \<lparr>tp_sub = 11, tp_restaurant_id = 1, tp_role = ''admin''\<rparr> \<lparr>db = demo, bus = []\<rparr>
      \<lparr>bucket_ensured = True, calls = []\<rparr> = ((Inr (table_response_of t), w'), st')
    \<and> resolve_table ''fresh'' (db w') = Inr (t, demo_restaurant 1 ''pho'')"
proof -
  let ?user = "\<lparr>tp_sub = 11, tp_restaurant_id = 1, tp_role = ''admin''\<rparr>"
  let ?w = "\<lparr>db = demo, bus = []\<rparr>" and ?st = "\<lparr>bucket_ensured = True, calls = []\<rparr>"
  obtain res w' st' where c: "create_table demo_env ''https://q'' id demo_s3 demo_s3_api ''fresh'' ''B09''
      ?user ?w ?st = ((res, w'), st')" by (metis surj_pair)
  have r: "demo_restaurant 1 ''pho'' \<in> set (restaurants demo)" "r_id (demo_restaurant 1 ''pho'') = 1"
    "r_is_active (demo_restaurant 1 ''pho'')" "r_slug (demo_restaurant 1 ''pho'') = ''pho''"
    by (simp_all add: demo_def demo_rows)
  have fresh: "gen demo_env 1 \<notin> t_id ` set (tables demo)" "''fresh'' \<notin> t_qr_token ` set (tables demo)"
    "\<forall>t \<in> set (tables demo). t_table_number t \<noteq> ''B09''"
    by (simp_all add: demo_def demo_rows)
  show ?thesis
    using new_table_opens_by_its_qr [of ?w demo_env "''B09''" ?st demo_s3_api "demo_restaurant 1 ''pho''"
        ?user "''fresh''" "''https://q''" id demo_s3 res w' st'] r fresh c
    by (auto simp: quiet_env_def valid_table_number_def characters_def demo_s3_api_def)
qed

text \<open>The rows of the tables after one of them got a token that no table had.\<close>

lemma token_replaced:
  assumes ids: "unique_by t_id rows" and tokens: "unique_by t_qr_token rows" and t: "t \<in> set rows"
    and new: "t_qr_token u \<notin> t_qr_token ` set rows" and u: "t_id u = t_id t" "f t = u"
  shows "sql_update (\<lambda>x. t_id x = t_id t) f rows = map (\<lambda>x. if x = t then u else x) rows"
    and "unique_by t_qr_token (sql_update (\<lambda>x. t_id x = t_id t) f rows)"
    and "filter (\<lambda>x. t_id x = t_id t) (sql_update (\<lambda>x. t_id x = t_id t) f rows) = [u]"
    and "filter (\<lambda>x. t_qr_token x = t_qr_token t \<and> t_is_active x) (sql_update (\<lambda>x. t_id x = t_id t) f rows) = []"
    and "t_is_active u \<Longrightarrow>
      filter (\<lambda>x. t_qr_token x = t_qr_token u \<and> t_is_active x) (sql_update (\<lambda>x. t_id x = t_id t) f rows) = [u]"
proof -
  show rows: "sql_update (\<lambda>x. t_id x = t_id t) f rows = map (\<lambda>x. if x = t then u else x) rows"
    using sql_update_unique [OF ids t, of f] u(2) by simp
  have mem: "u \<in> set (map (\<lambda>x. if x = t then u else x) rows)" using t by auto
  show tok: "unique_by t_qr_token (sql_update (\<lambda>x. t_id x = t_id t) f rows)"
    unfolding rows by (rule unique_by_replace [OF tokens t new])
  have "unique_by t_id (map (\<lambda>x. if x = t then u else x) rows)"
  proof -
    have "map t_id (map (\<lambda>x. if x = t then u else x) rows) = map t_id rows" using u(1) by simp
    then show ?thesis using ids unfolding unique_by_def by (simp only:)
  qed
  from filter_unique [OF this mem, of "\<lambda>_. True"] u(1)
  show "filter (\<lambda>x. t_id x = t_id t) (sql_update (\<lambda>x. t_id x = t_id t) f rows) = [u]" unfolding rows by simp
  have "t_qr_token u \<noteq> t_qr_token t" using new t by force
  then show "filter (\<lambda>x. t_qr_token x = t_qr_token t \<and> t_is_active x) (sql_update (\<lambda>x. t_id x = t_id t) f rows) = []"
    using unique_byD [OF tokens _ t] unfolding rows by (auto simp: filter_empty_conv)
  show "filter (\<lambda>x. t_qr_token x = t_qr_token u \<and> t_is_active x) (sql_update (\<lambda>x. t_id x = t_id t) f rows) = [u]"
    if "t_is_active u"
    using filter_unique [OF tok [unfolded rows] mem, of t_is_active] that unfolding rows by simp
qed

text \<open>
  C21 (a new QR code). Regenerating the code of an active table makes the old token unknown at once
  and the new one lead to the same table, with the same number and the same sessions: a guest who
  is sitting there keeps the bill, a photograph of the old code opens nothing.
\<close>

theorem regenerated_qr_replaces_the_old:
  assumes "db_inv (db w)" and "quiet_env e" and "bucket_ensured st"
    and "put_error api (qr_key (t_id t)) = None"
    and "r \<in> set (restaurants (db w))" and "r_id r = tp_restaurant_id user" and "r_is_active r"
    and "t \<in> set (tables (db w))" and "t_restaurant_id t = tp_restaurant_id user" and "t_is_active t"
    and "new_token \<notin> t_qr_token ` set (tables (db w))"
  shows "\<exists>t' w' st'. regenerate_qr e base_url render cfg api new_token (t_id t) user w st
        = ((Inr (table_response_of t'), w'), st')
      \<and> t_id t' = t_id t \<and> t_table_number t' = t_table_number t
      \<and> resolve_table (t_qr_token t) (db w') = Inl (HTTPException 404 InvalidQR)
      \<and> resolve_table new_token (db w') = Inr (t', r)
      \<and> table_sessions (db w') = table_sessions (db w) \<and> bus w' = bus w"
proof -
  note keys = db_invD(1) [OF assms(1)]
  let ?url = "get_public_url cfg (qr_key (t_id t))"
  let ?f = "new_qr new_token ?url t"
  let ?rows = "sql_update (\<lambda>x. t_id x = t_id t) ?f (tables (db w))"
  have ne: "new_token \<noteq> t_qr_token t" using assms(8,11) by auto
  have ft: "?f t = t\<lparr>t_qr_token := new_token, t_qr_image_url := Some ?url\<rparr>"
    by (simp add: new_qr_def ne)
  then have u: "t_qr_token (?f t) \<notin> t_qr_token ` set (tables (db w))" "t_id (?f t) = t_id t"
    "t_is_active (?f t)" using assms(10,11) by simp_all
  note replaced = token_replaced [where f = ?f, OF keys_okD(4,5) [OF keys] assms(8) u(1,2) refl]
  have find: "find_table (t_id t) (tp_restaurant_id user) (db w) = Inr (Some t)"
    using filter_unique [OF keys_okD(4) [OF keys] assms(8), of "\<lambda>x. t_restaurant_id x = tp_restaurant_id user"]
      assms(9) by (simp add: find_table_def)
  have slug: "get_restaurant_slug (tp_restaurant_id user) (db w) = Inr (r_slug r)"
    using restaurant_slug_existing [OF keys assms(5)] assms(6) by simp
  have num: "unique_by (\<lambda>x. (t_restaurant_id x, t_table_number x)) ?rows"
    using keys_okD(13) [OF keys] by (subst unique_by_sql_update) (simp_all add: new_qr_def)
  have upd: "update_table_row (t_id t) ?f (db w) = Inr (db w\<lparr>tables := ?rows\<rparr>)"
    using num replaced(2) by (simp add: update_table_row_def Let_def)
  have rest: "filter (\<lambda>x. r_id x = t_restaurant_id t \<and> r_is_active x) (restaurants (db w)) = [r]"
    using filter_unique [OF keys_okD(1) [OF keys] assms(5), of r_is_active] assms(6,7,9) by simp
  have "regenerate_qr e base_url render cfg api new_token (t_id t) user w st
      = ((Inr (table_response_of (?f t)), w\<lparr>db := db w\<lparr>tables := ?rows\<rparr>\<rparr>),
         call (PutObject (s3_bucket cfg) (qr_key (t_id t))
           (render (build_qr_url base_url (r_slug r) new_token)) ''image/png'' None) st)"
    using find slug upd replaced(3)
    by (simp add: regenerate_qr_def answer_table_def quiet_others [OF assms(2)]
        upload_qr_image_ok [OF assms(3,4)] Let_def)
  moreover have "resolve_table (t_qr_token t) (db w\<lparr>tables := ?rows\<rparr>) = Inl (HTTPException 404 InvalidQR)"
    using replaced(4) by (simp add: resolve_table_def)
  moreover have "resolve_table new_token (db w\<lparr>tables := ?rows\<rparr>) = Inr (?f t, r)"
    using replaced(5) [OF u(3)] rest by (simp add: resolve_table_def ft)
  moreover have "t_id (?f t) = t_id t" "t_table_number (?f t) = t_table_number t" by (simp_all add: ft)
  ultimately show ?thesis by simp
qed

lemma regenerated_qr_replaces_the_old_witness:
  "\<exists>t' w' st'. regenerate_qr demo_env ''https://q'' id demo_s3 demo_s3_api ''fresh'' 20
      \<lparr>tp_sub = 11, tp_restaurant_id = 1, tp_role = ''admin''\<rparr> \<lparr>db = demo, bus = []\<rparr>
      \<lparr>bucket_ensured = True, calls = []\<rparr> = ((Inr (table_response_of t'), w'), st')
    \<and> resolve_table ''qr-20'' (db w') = Inl (HTTPException 404 InvalidQR)"
proof -
  let ?t = "demo_table 20 1 ''B01'' ''qr-20'' True"
  have r: "demo_restaurant 1 ''pho'' \<in> set (restaurants demo)" "r_id (demo_restaurant 1 ''pho'') = 1"
    "r_is_active (demo_restaurant 1 ''pho'')" by (simp_all add: demo_def demo_rows)
  have t: "?t \<in> set (tables demo)" "t_id ?t = 20" "t_restaurant_id ?t = 1" "t_is_active ?t"
    "t_qr_token ?t = ''qr-20''" by (simp_all add: demo_def demo_rows)
  have "''fresh'' \<notin> t_qr_token ` set (tables demo)" by (simp add: demo_def demo_rows)
  then show ?thesis
    using regenerated_qr_replaces_the_old [of "\<lparr>db = demo, bus = []\<rparr>" demo_env
        "\<lparr>bucket_ensured = True, calls = []\<rparr>" demo_s3_api ?t "demo_restaurant 1 ''pho''"
        "\<lparr>tp_sub = 11, tp_restaurant_id = 1, tp_role = ''admin''\<rparr>" "''fresh''" "''https://q''" id demo_s3] r t
    by (auto simp: quiet_env_def demo_s3_api_def)
qed

end
