(* ===== verification/AdminSettings.thy ===== *)
theory AdminSettings imports Auth AdminRows begin

text \<open>
  \<^verbatim>\<open>qorder_api/api/admin_router.py\<close>, the presets of \<^verbatim>\<open>api/admin_menu_router.py\<close> and the PIN half of
  \<^verbatim>\<open>auth/passwords.py\<close>: the settings of a restaurant and the PIN of its staff. The handlers run behind
  \<^verbatim>\<open>require_role("admin")\<close>. The bcrypt library is a parameter (\<open>bcrypt_api\<close>). Gap 3 is between the lookup
  and the update, gap 2 before the row is read back.
\<close>

section \<open>Settings\<close>

record UpdateSettingsRequest =
  us_kitchen_screen_requires_pin :: "bool option field"
  us_currency :: "string option field"
  us_logo_url :: "string option field"
  us_timezone :: "string option field"
  us_default_savory_minutes :: "int option field"
  us_default_light_minutes :: "int option field"
  us_session_timeout_hours :: "int option field"
  us_staff_call_cooldown_seconds :: "int option field"
  us_report_sheet_id :: "string option field"
  us_report_sync_cron :: "string option field"
  us_bill_footer_note :: "string option field"

definition valid_settings :: "UpdateSettingsRequest \<Rightarrow> bool" where
  "valid_settings body \<longleftrightarrow> field_ok (\<lambda>n. 0 \<le> n) (us_default_savory_minutes body)
     \<and> field_ok (\<lambda>n. 0 \<le> n) (us_default_light_minutes body)
     \<and> field_ok (\<lambda>n. 1 \<le> n) (us_session_timeout_hours body)
     \<and> field_ok (\<lambda>n. 0 \<le> n) (us_staff_call_cooldown_seconds body)"

record SettingsResponse =
  sg_kitchen_screen_requires_pin :: bool
  sg_currency :: string
  sg_logo_url :: "string option"
  sg_timezone :: string
  sg_default_savory_minutes :: int
  sg_default_light_minutes :: int
  sg_session_timeout_hours :: int
  sg_staff_call_cooldown_seconds :: int
  sg_report_sheet_id :: "string option"
  sg_report_sync_cron :: string
  sg_bill_footer_note :: "string option"

definition settings_response_of :: "RestaurantSettings \<Rightarrow> SettingsResponse" where
  "settings_response_of s =
    \<lparr>sg_kitchen_screen_requires_pin = rs_kitchen_screen_requires_pin s,
     sg_currency = rs_currency s, sg_logo_url = rs_logo_url s, sg_timezone = rs_timezone s,
     sg_default_savory_minutes = rs_default_savory_minutes s,
     sg_default_light_minutes = rs_default_light_minutes s,
     sg_session_timeout_hours = rs_session_timeout_hours s,
     sg_staff_call_cooldown_seconds = rs_staff_call_cooldown_seconds s,
     sg_report_sheet_id = rs_report_sheet_id s, sg_report_sync_cron = rs_report_sync_cron s,
     sg_bill_footer_note = rs_bill_footer_note s\<rparr>"

definition find_settings :: "uuid \<Rightarrow> database \<Rightarrow> RestaurantSettings option result" where
  "find_settings rid d =
     scalar_one_or_none (filter (\<lambda>s. rs_restaurant_id s = rid) (restaurant_settings d))"

definition get_settings :: "TokenPayload \<Rightarrow> database \<Rightarrow> SettingsResponse result" where
  "get_settings user d =
     (case find_settings (tp_restaurant_id user) d of
        Inl x \<Rightarrow> Inl x
      | Inr None \<Rightarrow> Inl (HTTPException 404 SettingsMissing)
      | Inr (Some s) \<Rightarrow> Inr (settings_response_of s))"

text \<open>A null for a NOT NULL column, and a number that an INTEGER column cannot hold.\<close>

definition settings_nulls :: "UpdateSettingsRequest \<Rightarrow> bool" where
  "settings_nulls body \<longleftrightarrow> gives_null (us_kitchen_screen_requires_pin body)
     \<or> gives_null (us_currency body) \<or> gives_null (us_timezone body)
     \<or> gives_null (us_default_savory_minutes body) \<or> gives_null (us_default_light_minutes body)
     \<or> gives_null (us_session_timeout_hours body) \<or> gives_null (us_staff_call_cooldown_seconds body)
     \<or> gives_null (us_report_sync_cron body)"

definition settings_fit :: "UpdateSettingsRequest \<Rightarrow> bool" where
  "settings_fit body \<longleftrightarrow> field_ok fits_int4 (us_default_savory_minutes body)
     \<and> field_ok fits_int4 (us_default_light_minutes body)
     \<and> field_ok fits_int4 (us_session_timeout_hours body)
     \<and> field_ok fits_int4 (us_staff_call_cooldown_seconds body)"

definition settings_changed :: "UpdateSettingsRequest \<Rightarrow> RestaurantSettings \<Rightarrow> bool" where
  "settings_changed body s \<longleftrightarrow>
     changes_required (us_kitchen_screen_requires_pin body) (rs_kitchen_screen_requires_pin s)
     \<or> changes_required (us_currency body) (rs_currency s) \<or> changes (us_logo_url body) (rs_logo_url s)
     \<or> changes_required (us_timezone body) (rs_timezone s)
     \<or> changes_required (us_default_savory_minutes body) (rs_default_savory_minutes s)
     \<or> changes_required (us_default_light_minutes body) (rs_default_light_minutes s)
     \<or> changes_required (us_session_timeout_hours body) (rs_session_timeout_hours s)
     \<or> changes_required (us_staff_call_cooldown_seconds body) (rs_staff_call_cooldown_seconds s)
     \<or> changes (us_report_sheet_id body) (rs_report_sheet_id s)
     \<or> changes_required (us_report_sync_cron body) (rs_report_sync_cron s)
     \<or> changes (us_bill_footer_note body) (rs_bill_footer_note s)"

definition patch_settings :: "UpdateSettingsRequest \<Rightarrow> timestamp \<Rightarrow> RestaurantSettings \<Rightarrow> RestaurantSettings
    \<Rightarrow> RestaurantSettings" where
  "patch_settings body now l s =
    s\<lparr>rs_kitchen_screen_requires_pin := set_required (us_kitchen_screen_requires_pin body)
        (rs_kitchen_screen_requires_pin l) (rs_kitchen_screen_requires_pin s),
      rs_currency := set_required (us_currency body) (rs_currency l) (rs_currency s),
      rs_logo_url := set_field (us_logo_url body) (rs_logo_url l) (rs_logo_url s),
      rs_timezone := set_required (us_timezone body) (rs_timezone l) (rs_timezone s),
      rs_default_savory_minutes := set_required (us_default_savory_minutes body)
        (rs_default_savory_minutes l) (rs_default_savory_minutes s),
      rs_default_light_minutes := set_required (us_default_light_minutes body)
        (rs_default_light_minutes l) (rs_default_light_minutes s),
      rs_session_timeout_hours := set_required (us_session_timeout_hours body)
        (rs_session_timeout_hours l) (rs_session_timeout_hours s),
      rs_staff_call_cooldown_seconds := set_required (us_staff_call_cooldown_seconds body)
        (rs_staff_call_cooldown_seconds l) (rs_staff_call_cooldown_seconds s),
      rs_report_sheet_id := set_field (us_report_sheet_id body) (rs_report_sheet_id l) (rs_report_sheet_id s),
      rs_report_sync_cron := set_required (us_report_sync_cron body) (rs_report_sync_cron l)
        (rs_report_sync_cron s),
      rs_bill_footer_note := set_field (us_bill_footer_note body) (rs_bill_footer_note l)
        (rs_bill_footer_note s),
      rs_updated_at := (if settings_changed body l then now else rs_updated_at s)\<rparr>"

definition update_settings :: "env \<Rightarrow> UpdateSettingsRequest \<Rightarrow> TokenPayload \<Rightarrow> world
    \<Rightarrow> SettingsResponse result \<times> world" where
  "update_settings e body user w =
     (if \<not> valid_settings body then (Inl (HTTPException 422 ValidationFailed), w)
      else case find_settings (tp_restaurant_id user) (db w) of
        Inl x \<Rightarrow> (Inl x, w)
      | Inr None \<Rightarrow> (Inl (HTTPException 404 SettingsMissing), w)
      | Inr (Some s) \<Rightarrow>
          (let d1 = others e 3 (db w)
           in if \<not> settings_fit body then (Inl (DBAPIError ''value out of int32 range''), w\<lparr>db := d1\<rparr>)
              else if settings_nulls body then (Inl (IntegrityError ''not_null''), w\<lparr>db := d1\<rparr>)
              else
                (let d2 = d1\<lparr>restaurant_settings := sql_update (\<lambda>x. rs_restaurant_id x = rs_restaurant_id s)
                       (patch_settings body (t_db e) s) (restaurant_settings d1)\<rparr>;
                     d3 = others e 2 d2
                 in (case scalar_one (filter (\<lambda>x. rs_restaurant_id x = rs_restaurant_id s)
                            (restaurant_settings d3)) of
                       Inl x \<Rightarrow> Inl x
                     | Inr row \<Rightarrow> Inr (settings_response_of row),
                     w\<lparr>db := d3\<rparr>))))"

section \<open>Presets\<close>

record PrepTimePresetsResponse =
  pp_default_savory_minutes :: int
  pp_default_light_minutes :: int

definition get_prep_time_presets :: "TokenPayload \<Rightarrow> database \<Rightarrow> PrepTimePresetsResponse result" where
  "get_prep_time_presets user d =
     (case find_settings (tp_restaurant_id user) d of
        Inl x \<Rightarrow> Inl x
      | Inr None \<Rightarrow> Inr \<lparr>pp_default_savory_minutes = 10, pp_default_light_minutes = 5\<rparr>
      | Inr (Some s) \<Rightarrow> Inr \<lparr>pp_default_savory_minutes = rs_default_savory_minutes s,
          pp_default_light_minutes = rs_default_light_minutes s\<rparr>)"

section \<open>The PIN of the staff\<close>

record bcrypt_api =
  hashpw :: "string \<Rightarrow> string \<Rightarrow> string"
  checkpw :: "string \<Rightarrow> string \<Rightarrow> bool"

definition hash_pin :: "bcrypt_api \<Rightarrow> string \<Rightarrow> string \<Rightarrow> string" where
  "hash_pin bc salt pin = hashpw bc pin salt"

definition verify_pin :: "bcrypt_api \<Rightarrow> string \<Rightarrow> string \<Rightarrow> bool" where
  "verify_pin bc pin hashed = checkpw bc pin hashed"

definition valid_new_pin :: "string \<Rightarrow> bool" where
  "valid_new_pin pin \<longleftrightarrow> 4 \<le> characters pin \<and> characters pin \<le> 8"

definition reset_staff_pin :: "bcrypt_api \<Rightarrow> string \<Rightarrow> env \<Rightarrow> string \<Rightarrow> TokenPayload \<Rightarrow> world
    \<Rightarrow> string result \<times> world" where
  "reset_staff_pin bc salt e new_pin user w =
     (if \<not> valid_new_pin new_pin then (Inl (HTTPException 422 ValidationFailed), w)
      else case scalar_one_or_none (active_staff (tp_restaurant_id user) (db w)) of
        Inl x \<Rightarrow> (Inl x, w)
      | Inr None \<Rightarrow> (Inl (HTTPException 404 NoActiveStaff), w)
      | Inr (Some u) \<Rightarrow>
          (let d1 = others e 3 (db w)
           in (Inr ''PIN reset successfully'',
               w\<lparr>db := d1\<lparr>users := sql_update (\<lambda>x. u_id x = u_id u)
                   (\<lambda>x. x\<lparr>u_pin_hash := Some (hash_pin bc salt new_pin)\<rparr>) (users d1)\<rparr>\<rparr>)))"

section \<open>The invariant of the database\<close>

lemma of_settings_frame [simp]:
  "table_of r i (d\<lparr>restaurant_settings := a\<rparr>) = table_of r i d"
  "session_of r i (d\<lparr>restaurant_settings := a\<rparr>) = session_of r i d"
  "order_of r i (d\<lparr>restaurant_settings := a\<rparr>) = order_of r i d"
  "menu_item_of r i (d\<lparr>restaurant_settings := a\<rparr>) = menu_item_of r i d"
  "table_of r i (d\<lparr>users := b\<rparr>) = table_of r i d"
  "session_of r i (d\<lparr>users := b\<rparr>) = session_of r i d"
  "order_of r i (d\<lparr>users := b\<rparr>) = order_of r i d"
  "menu_item_of r i (d\<lparr>users := b\<rparr>) = menu_item_of r i d"
  by (simp_all add: of_defs)

lemma db_inv_update_settings:
  assumes "db_inv (db w)" and e: "good_env e"
  shows "db_inv (db (snd (update_settings e body user w)))"
proof -
  have "db_inv (d\<lparr>restaurant_settings := sql_update P (patch_settings body now s) (restaurant_settings d)\<rparr>)"
    if "db_inv d" for d P now s
    using that by (simp add: inv_defs unique_by_sql_update patch_settings_def)
  with assms good_envD(1) [OF e] show ?thesis
    by (simp add: update_settings_def Let_def split: sum.splits option.splits)
qed

lemma db_inv_reset_staff_pin:
  assumes "db_inv (db w)" and e: "good_env e"
  shows "db_inv (db (snd (reset_staff_pin bc salt e pin user w)))"
proof -
  have "db_inv (d\<lparr>users := sql_update P (\<lambda>x. x\<lparr>u_pin_hash := h\<rparr>) (users d)\<rparr>)" if "db_inv d" for d P h
    using that by (simp add: inv_defs unique_by_sql_update)
  with assms good_envD(1) [OF e] show ?thesis
    by (simp add: reset_staff_pin_def Let_def split: sum.splits option.splits)
qed

section \<open>Properties\<close>

lemma find_settings_existing:
  assumes "keys_ok d" and "s \<in> set (restaurant_settings d)"
  shows "find_settings (rs_restaurant_id s) d = Inr (Some s)"
  using filter_unique [OF keys_okD(2) [OF assms(1)] assms(2), of "\<lambda>_. True"]
  by (simp add: find_settings_def)

text \<open>
  Patching the settings: Without interference, a valid patch of the settings of the user's
  restaurant answers with the settings as they are read afterwards: each field that the body gives
  has the given value, each field that it leaves out has the value it had, and the settings of the
  other restaurants are untouched. But an explicit null for a field that must have a value, which
  the schema lets through, raises an \<^verbatim>\<open>IntegrityError\<close> that is not caught, and nothing changes.
\<close>

theorem settings_patch_roundtrip:
  assumes "db_inv (db w)" and "quiet_env e" and "s \<in> set (restaurant_settings (db w))"
    and "rs_restaurant_id s = tp_restaurant_id user" and "valid_settings body" and "settings_fit body"
  shows "if settings_nulls body
     then update_settings e body user w = (Inl (IntegrityError ''not_null''), w)
     else \<exists>resp w'. update_settings e body user w = (Inr resp, w')
       \<and> get_settings user (db w') = Inr resp
       \<and> sg_currency resp = (case us_currency body of Given (Some v) \<Rightarrow> v | _ \<Rightarrow> rs_currency s)
       \<and> sg_timezone resp = (case us_timezone body of Given (Some v) \<Rightarrow> v | _ \<Rightarrow> rs_timezone s)
       \<and> sg_kitchen_screen_requires_pin resp = (case us_kitchen_screen_requires_pin body of
            Given (Some v) \<Rightarrow> v | _ \<Rightarrow> rs_kitchen_screen_requires_pin s)
       \<and> sg_default_savory_minutes resp = (case us_default_savory_minutes body of
            Given (Some v) \<Rightarrow> v | _ \<Rightarrow> rs_default_savory_minutes s)
       \<and> sg_default_light_minutes resp = (case us_default_light_minutes body of
            Given (Some v) \<Rightarrow> v | _ \<Rightarrow> rs_default_light_minutes s)
       \<and> sg_session_timeout_hours resp = (case us_session_timeout_hours body of
            Given (Some v) \<Rightarrow> v | _ \<Rightarrow> rs_session_timeout_hours s)
       \<and> sg_staff_call_cooldown_seconds resp = (case us_staff_call_cooldown_seconds body of
            Given (Some v) \<Rightarrow> v | _ \<Rightarrow> rs_staff_call_cooldown_seconds s)
       \<and> sg_report_sync_cron resp = (case us_report_sync_cron body of
            Given (Some v) \<Rightarrow> v | _ \<Rightarrow> rs_report_sync_cron s)
       \<and> sg_logo_url resp = (case us_logo_url body of Unset \<Rightarrow> rs_logo_url s | Given v \<Rightarrow> v)
       \<and> sg_report_sheet_id resp = (case us_report_sheet_id body of
            Unset \<Rightarrow> rs_report_sheet_id s | Given v \<Rightarrow> v)
       \<and> sg_bill_footer_note resp = (case us_bill_footer_note body of
            Unset \<Rightarrow> rs_bill_footer_note s | Given v \<Rightarrow> v)
       \<and> filter (\<lambda>x. rs_restaurant_id x \<noteq> tp_restaurant_id user) (restaurant_settings (db w'))
         = filter (\<lambda>x. rs_restaurant_id x \<noteq> tp_restaurant_id user) (restaurant_settings (db w))"
proof -
  note keys = keys_okD(2) [OF db_invD(1) [OF assms(1)]]
  let ?f = "patch_settings body (t_db e) s"
  let ?rows = "sql_update (\<lambda>x. rs_restaurant_id x = rs_restaurant_id s) ?f (restaurant_settings (db w))"
  note find = find_settings_existing [OF db_invD(1) [OF assms(1)] assms(3)]
  have id: "rs_restaurant_id (?f x) = rs_restaurant_id x" for x by (simp add: patch_settings_def)
  have at: "filter (\<lambda>x. rs_restaurant_id x = rs_restaurant_id s) ?rows = [?f s]"
    using filter_unique [OF keys assms(3), of "\<lambda>_. True"]
    by (subst filter_sql_update_same) (simp_all add: id sql_update_def)
  have rest: "filter (\<lambda>x. rs_restaurant_id x \<noteq> rs_restaurant_id s) ?rows
      = filter (\<lambda>x. rs_restaurant_id x \<noteq> rs_restaurant_id s) (restaurant_settings (db w))"
    by (subst filter_sql_update_same) (auto simp: id intro!: sql_update_id)
  have upd: "update_settings e body user w = (if settings_nulls body then (Inl (IntegrityError ''not_null''), w)
      else (Inr (settings_response_of (?f s)), w\<lparr>db := db w\<lparr>restaurant_settings := ?rows\<rparr>\<rparr>))"
    using assms(4-6) find at by (simp add: update_settings_def quiet_others [OF assms(2)] Let_def)
  have "get_settings user (db w\<lparr>restaurant_settings := ?rows\<rparr>) = Inr (settings_response_of (?f s))"
    using at assms(4) by (simp add: get_settings_def find_settings_def)
  with upd rest assms(4) show ?thesis
    by (cases "settings_nulls body") (simp_all add: settings_response_of_def patch_settings_def)
qed

definition no_change :: UpdateSettingsRequest where
  "no_change = \<lparr>us_kitchen_screen_requires_pin = Unset, us_currency = Unset, us_logo_url = Unset,
     us_timezone = Unset, us_default_savory_minutes = Unset, us_default_light_minutes = Unset,
     us_session_timeout_hours = Unset, us_staff_call_cooldown_seconds = Unset,
     us_report_sheet_id = Unset, us_report_sync_cron = Unset, us_bill_footer_note = Unset\<rparr>"

lemma settings_patch_roundtrip_witness:
  "\<exists>resp w'. update_settings demo_env (no_change\<lparr>us_session_timeout_hours := Given (Some 3)\<rparr>)
      \<lparr>tp_sub = 11, tp_restaurant_id = 1, tp_role = ''admin''\<rparr> \<lparr>db = demo, bus = []\<rparr> = (Inr resp, w')
    \<and> sg_session_timeout_hours resp = 3 \<and> sg_currency resp = ''VND''"
proof -
  let ?body = "no_change\<lparr>us_session_timeout_hours := Given (Some 3)\<rparr>"
  let ?user = "\<lparr>tp_sub = 11, tp_restaurant_id = 1, tp_role = ''admin''\<rparr>"
  have s: "demo_settings 1 \<in> set (restaurant_settings demo)" "rs_restaurant_id (demo_settings 1) = 1"
    "rs_currency (demo_settings 1) = ''VND''"
    by (simp_all add: demo_def demo_settings_def)
  have b: "valid_settings ?body" "settings_fit ?body" "\<not> settings_nulls ?body"
    by (simp_all add: no_change_def valid_settings_def settings_fit_def settings_nulls_def fits_int4_def)
  show ?thesis
    using settings_patch_roundtrip [of "\<lparr>db = demo, bus = []\<rparr>" demo_env "demo_settings 1" ?user ?body] s b
    by (auto simp: quiet_env_def no_change_def)
qed

text \<open>
  A new PIN: When the restaurant has one active staff user, resetting the PIN makes the new PIN,
  and no other, open the staff login of the restaurant, for the same user, whatever the PIN was.
\<close>

theorem reset_pin_changes_the_login:
  assumes "\<And>p q. checkpw bc p (hashpw bc q salt) \<longleftrightarrow> p = q"
    and "db_inv (db w)" and "quiet_env e" and "r \<in> set (restaurants (db w))" and "r_is_active r"
    and "r_id r = tp_restaurant_id user" and "active_staff (r_id r) (db w) = [u]"
    and "valid_new_pin new_pin" and "reset_staff_pin bc salt e new_pin user w = (res, w')"
  shows "(\<exists>msg. res = Inr msg)
    \<and> staff_login jwt st (verify_pin bc) now (r_slug r) pin (db w')
      = (if pin = new_pin then Inr (create_access_token jwt st now (u_id u) ''staff'' (r_id r))
         else Inl (HTTPException 401 InvalidCredentials))"
proof -
  let ?f = "\<lambda>x. x\<lparr>u_pin_hash := Some (hash_pin bc salt new_pin)\<rparr>"
  have u: "u \<in> set (users (db w))" "u_role u = STAFF"
    using filter_eq_SingletonD [OF assms(7) [unfolded active_staff_def]] by auto
  have slug: "restaurant_by_slug (r_slug r) (db w\<lparr>users := us\<rparr>) = Inr r" for us
    using filter_unique [OF keys_okD(12) [OF db_invD(1) [OF assms(2)]] assms(4), of "\<lambda>_. True"] assms(5)
    by (simp add: restaurant_by_slug_def)
  have "active_staff (r_id r) (db w\<lparr>users := sql_update (\<lambda>x. u_id x = u_id u) ?f (users (db w))\<rparr>)
      = sql_update (\<lambda>x. u_id x = u_id u) ?f (active_staff (r_id r) (db w))"
    unfolding active_staff_def by (simp add: filter_sql_update_same)
  then have staff: "active_staff (r_id r) (db w\<lparr>users := sql_update (\<lambda>x. u_id x = u_id u) ?f (users (db w))\<rparr>)
      = [?f u]"
    by (simp add: assms(7) sql_update_def)
  have "res = Inr ''PIN reset successfully''"
    "w' = w\<lparr>db := db w\<lparr>users := sql_update (\<lambda>x. u_id x = u_id u) ?f (users (db w))\<rparr>\<rparr>"
    using assms(6-9) by (simp_all add: reset_staff_pin_def quiet_others [OF assms(3)] Let_def)
  then show ?thesis
    using slug staff u(2) assms(1)
    by (simp add: staff_login_def verify_pin_def hash_pin_def)
qed

lemma reset_pin_changes_the_login_witness:
  "let bc = \<lparr>hashpw = (\<lambda>p salt. salt @ p), checkpw = (\<lambda>p h. ''salt'' @ p = h)\<rparr>;
       w' = snd (reset_staff_pin bc ''salt'' demo_env ''4321''
              \<lparr>tp_sub = 11, tp_restaurant_id = 1, tp_role = ''admin''\<rparr> \<lparr>db = demo, bus = []\<rparr>)
   in staff_login plain_jwt demo_auth (verify_pin bc) 0 ''pho'' ''1234'' (db w')
     = Inl (HTTPException 401 InvalidCredentials)"
proof -
  let ?bc = "\<lparr>hashpw = (\<lambda>p salt. salt @ p), checkpw = (\<lambda>p h. ''salt'' @ p = h)\<rparr>"
  let ?user = "\<lparr>tp_sub = 11, tp_restaurant_id = 1, tp_role = ''admin''\<rparr>"
  obtain res w' where c: "reset_staff_pin ?bc ''salt'' demo_env ''4321'' ?user \<lparr>db = demo, bus = []\<rparr> = (res, w')"
    by fastforce
  have r: "demo_restaurant 1 ''pho'' \<in> set (restaurants demo)" "r_is_active (demo_restaurant 1 ''pho'')"
    "r_id (demo_restaurant 1 ''pho'') = 1" "r_slug (demo_restaurant 1 ''pho'') = ''pho''"
    by (simp_all add: demo_def demo_rows)
  have u: "active_staff 1 demo = [demo_user 10 1 STAFF]"
    by (simp add: active_staff_def demo_def demo_rows)
  show ?thesis
    using reset_pin_changes_the_login [of ?bc "''salt''" "\<lparr>db = demo, bus = []\<rparr>" demo_env
        "demo_restaurant 1 ''pho''" ?user "demo_user 10 1 STAFF" "''4321''" res w' plain_jwt demo_auth 0 "''1234''"]
      c r u
    by (simp add: quiet_env_def valid_new_pin_def characters_def Let_def)
qed

end
