(* ===== verification/AdminMenu.thy ===== *)
theory AdminMenu imports Auth AdminRows Storage Complex_Main begin

text \<open>
  \<^verbatim>\<open>qorder_api/api/admin_menu_router.py\<close>, \<^verbatim>\<open>schemas/menu.py\<close> and the constants of \<^verbatim>\<open>images.py\<close>: the
  menu, its categories and the photos of its items. The handlers run behind \<^verbatim>\<open>require_role("admin")\<close>.
  The Pillow pipeline \<^verbatim>\<open>process_menu_image\<close> is a parameter: the two encoded variants, or what it
  raises (see \<^verbatim>\<open>Images\<close>). A price is a rational that the column rounds to hundredths. Between the
  checks and the write others may commit (gap 3), and again before the row is read back (gap 2).
\<close>

section \<open>Schemas\<close>

record MenuCategoryCreate =
  mcc_name :: string
  mcc_sort_order :: int

definition valid_category_create :: "MenuCategoryCreate \<Rightarrow> bool" where
  "valid_category_create b \<longleftrightarrow> 1 \<le> characters (mcc_name b) \<and> characters (mcc_name b) \<le> 200
     \<and> 0 \<le> mcc_sort_order b"

record MenuCategoryUpdate =
  mcu_name :: "string option field"
  mcu_sort_order :: "int option field"
  mcu_is_active :: "bool option field"

definition valid_category_update :: "MenuCategoryUpdate \<Rightarrow> bool" where
  "valid_category_update b \<longleftrightarrow> field_ok (\<lambda>n. 1 \<le> characters n \<and> characters n \<le> 200) (mcu_name b)
     \<and> field_ok (\<lambda>n. 0 \<le> n) (mcu_sort_order b)"

record MenuCategoryResponse =
  mcr_id :: uuid
  mcr_restaurant_id :: uuid
  mcr_name :: string
  mcr_sort_order :: int
  mcr_is_active :: bool
  mcr_created_at :: timestamp

definition menu_category_response_of :: "MenuCategory \<Rightarrow> MenuCategoryResponse" where
  "menu_category_response_of c =
    \<lparr>mcr_id = mc_id c, mcr_restaurant_id = mc_restaurant_id c, mcr_name = mc_name c,
     mcr_sort_order = mc_sort_order c, mcr_is_active = mc_is_active c, mcr_created_at = mc_created_at c\<rparr>"

record MenuItemCreate =
  mic_name :: string
  mic_description :: "string option"
  mic_price :: rat
  mic_prep_time_minutes :: int
  mic_category_id :: "uuid option"
  mic_image_url :: "string option"
  mic_is_featured :: bool
  mic_sort_order :: int

definition valid_item_create :: "MenuItemCreate \<Rightarrow> bool" where
  "valid_item_create b \<longleftrightarrow> 1 \<le> characters (mic_name b) \<and> characters (mic_name b) \<le> 300
     \<and> 0 \<le> mic_price b \<and> 0 \<le> mic_prep_time_minutes b \<and> 0 \<le> mic_sort_order b"

record MenuItemUpdate =
  miu_name :: "string option field"
  miu_description :: "string option field"
  miu_price :: "rat option field"
  miu_prep_time_minutes :: "int option field"
  miu_category_id :: "uuid option field"
  miu_is_available :: "bool option field"
  miu_is_active :: "bool option field"
  miu_image_url :: "string option field"
  miu_is_featured :: "bool option field"
  miu_sort_order :: "int option field"

definition valid_item_update :: "MenuItemUpdate \<Rightarrow> bool" where
  "valid_item_update b \<longleftrightarrow> field_ok (\<lambda>n. 1 \<le> characters n \<and> characters n \<le> 300) (miu_name b)
     \<and> field_ok (\<lambda>p. 0 \<le> p) (miu_price b) \<and> field_ok (\<lambda>n. 0 \<le> n) (miu_prep_time_minutes b)
     \<and> field_ok (\<lambda>n. 0 \<le> n) (miu_sort_order b)"

record MenuItemResponse =
  mir_id :: uuid
  mir_restaurant_id :: uuid
  mir_category_id :: "uuid option"
  mir_name :: string
  mir_description :: "string option"
  mir_price :: money
  mir_prep_time_minutes :: int
  mir_is_available :: bool
  mir_is_active :: bool
  mir_image_url :: "string option"
  mir_image_large_url :: "string option"
  mir_is_featured :: bool
  mir_sort_order :: int
  mir_created_at :: timestamp
  mir_updated_at :: timestamp

definition menu_item_response_of :: "MenuItem \<Rightarrow> MenuItemResponse" where
  "menu_item_response_of m =
    \<lparr>mir_id = mi_id m, mir_restaurant_id = mi_restaurant_id m, mir_category_id = mi_category_id m,
     mir_name = mi_name m, mir_description = mi_description m, mir_price = mi_price m,
     mir_prep_time_minutes = mi_prep_time_minutes m, mir_is_available = mi_is_available m,
     mir_is_active = mi_is_active m, mir_image_url = mi_image_url m,
     mir_image_large_url = mi_image_large_url m, mir_is_featured = mi_is_featured m,
     mir_sort_order = mi_sort_order m, mir_created_at = mi_created_at m, mir_updated_at = mi_updated_at m\<rparr>"

text \<open>What a \<^verbatim>\<open>NUMERIC(12, 2)\<close> column stores of a price that is not negative: ties are rounded up.\<close>

definition to_hundredths :: "rat \<Rightarrow> money" where
  "to_hundredths p = \<lfloor>100 * p + 1 / 2\<rfloor>"

section \<open>Categories\<close>

definition answer_category :: "env \<Rightarrow> uuid \<Rightarrow> database \<Rightarrow> world \<Rightarrow> MenuCategoryResponse result \<times> world" where
  "answer_category e category_id d w =
     (let d' = others e 2 d
      in (case scalar_one (filter (\<lambda>c. mc_id c = category_id) (menu_categories d')) of
            Inl x \<Rightarrow> Inl x
          | Inr c \<Rightarrow> Inr (menu_category_response_of c),
          w\<lparr>db := d'\<rparr>))"

definition create_menu_category :: "env \<Rightarrow> MenuCategoryCreate \<Rightarrow> TokenPayload \<Rightarrow> world
    \<Rightarrow> MenuCategoryResponse result \<times> world" where
  "create_menu_category e body user w =
     (if \<not> valid_category_create body then (Inl (HTTPException 422 ValidationFailed), w)
      else
        (let category = \<lparr>mc_id = gen e 1, mc_restaurant_id = tp_restaurant_id user,
               mc_name = mcc_name body, mc_sort_order = mcc_sort_order body, mc_is_active = True,
               mc_created_at = t_db e\<rparr>
         in case insert_menu_category category (db w) of
              Inl x \<Rightarrow> (Inl x, w)
            | Inr d \<Rightarrow> answer_category e (mc_id category) d w))"

definition list_menu_categories :: "(string \<Rightarrow> 'k::linorder) \<Rightarrow> TokenPayload \<Rightarrow> database
    \<Rightarrow> MenuCategoryResponse list" where
  "list_menu_categories collate user d =
     map menu_category_response_of
       (sort_key mc_sort_order (sort_key (\<lambda>c. collate (mc_name c))
          (filter (\<lambda>c. mc_restaurant_id c = tp_restaurant_id user) (menu_categories d))))"

definition patch_category :: "MenuCategoryUpdate \<Rightarrow> MenuCategory \<Rightarrow> MenuCategory \<Rightarrow> MenuCategory" where
  "patch_category body l c =
     c\<lparr>mc_name := set_required (mcu_name body) (mc_name l) (mc_name c),
       mc_sort_order := set_required (mcu_sort_order body) (mc_sort_order l) (mc_sort_order c),
       mc_is_active := set_required (mcu_is_active body) (mc_is_active l) (mc_is_active c)\<rparr>"

definition category_nulls :: "MenuCategoryUpdate \<Rightarrow> bool" where
  "category_nulls body \<longleftrightarrow> gives_null (mcu_name body) \<or> gives_null (mcu_sort_order body)
     \<or> gives_null (mcu_is_active body)"

definition update_menu_category :: "env \<Rightarrow> uuid \<Rightarrow> MenuCategoryUpdate \<Rightarrow> TokenPayload \<Rightarrow> world
    \<Rightarrow> MenuCategoryResponse result \<times> world" where
  "update_menu_category e category_id body user w =
     (if \<not> valid_category_update body then (Inl (HTTPException 422 ValidationFailed), w)
      else case scalar_one_or_none (filter (\<lambda>c. mc_id c = category_id
              \<and> mc_restaurant_id c = tp_restaurant_id user) (menu_categories (db w))) of
        Inl x \<Rightarrow> (Inl x, w)
      | Inr None \<Rightarrow> (Inl (HTTPException 404 CategoryMissing), w)
      | Inr (Some category) \<Rightarrow>
          (let d1 = others e 3 (db w)
           in if category_nulls body then (Inl (IntegrityError ''not_null''), w\<lparr>db := d1\<rparr>)
              else (case update_category_row category_id (patch_category body category) d1 of
                      Inl x \<Rightarrow> (Inl x, w\<lparr>db := d1\<rparr>)
                    | Inr d2 \<Rightarrow> answer_category e category_id d2 w)))"

section \<open>Items\<close>

text \<open>The check that a given category is one of the restaurant.\<close>

definition category_valid :: "uuid \<Rightarrow> uuid \<Rightarrow> database \<Rightarrow> unit result" where
  "category_valid category_id restaurant_id d =
     (case scalar_one_or_none (map mc_id (filter (\<lambda>c. mc_id c = category_id
              \<and> mc_restaurant_id c = restaurant_id) (menu_categories d))) of
        Inl x \<Rightarrow> Inl x
      | Inr None \<Rightarrow> Inl (HTTPException 400 CategoryInvalid)
      | Inr (Some _) \<Rightarrow> Inr ())"

definition answer_item :: "env \<Rightarrow> uuid \<Rightarrow> database \<Rightarrow> world \<Rightarrow> MenuItemResponse result \<times> world" where
  "answer_item e item_id d w =
     (let d' = others e 2 d
      in (case scalar_one (filter (\<lambda>m. mi_id m = item_id) (menu_items d')) of
            Inl x \<Rightarrow> Inl x
          | Inr m \<Rightarrow> Inr (menu_item_response_of m),
          w\<lparr>db := d'\<rparr>))"

definition new_menu_item :: "env \<Rightarrow> uuid \<Rightarrow> MenuItemCreate \<Rightarrow> MenuItem" where
  "new_menu_item e restaurant_id body =
    \<lparr>mi_id = gen e 1, mi_restaurant_id = restaurant_id, mi_category_id = mic_category_id body,
     mi_name = mic_name body, mi_description = mic_description body,
     mi_price = to_hundredths (mic_price body), mi_prep_time_minutes = mic_prep_time_minutes body,
     mi_is_available = True, mi_is_active = True, mi_image_url = mic_image_url body,
     mi_image_large_url = None, mi_is_featured = mic_is_featured body,
     mi_sort_order = mic_sort_order body, mi_created_at = t_db e, mi_updated_at = t_db e\<rparr>"

definition create_menu_item :: "env \<Rightarrow> MenuItemCreate \<Rightarrow> TokenPayload \<Rightarrow> world
    \<Rightarrow> MenuItemResponse result \<times> world" where
  "create_menu_item e body user w =
     (if \<not> valid_item_create body then (Inl (HTTPException 422 ValidationFailed), w)
      else case (case mic_category_id body of None \<Rightarrow> Inr ()
               | Some c \<Rightarrow> category_valid c (tp_restaurant_id user) (db w)) of
        Inl x \<Rightarrow> (Inl x, w)
      | Inr _ \<Rightarrow>
          (let d1 = others e 3 (db w);
               item = new_menu_item e (tp_restaurant_id user) body
           in case insert_menu_item item d1 of
                Inl x \<Rightarrow> (Inl x, w\<lparr>db := d1\<rparr>)
              | Inr d2 \<Rightarrow> answer_item e (mi_id item) d2 w))"

definition list_menu_items :: "(string \<Rightarrow> 'k::linorder) \<Rightarrow> TokenPayload \<Rightarrow> database
    \<Rightarrow> MenuItemResponse list" where
  "list_menu_items collate user d =
     map menu_item_response_of
       (sort_key mi_sort_order (sort_key (\<lambda>m. collate (mi_name m))
          (filter (\<lambda>m. mi_restaurant_id m = tp_restaurant_id user) (menu_items d))))"

text \<open>The price given is compared with the one loaded before it is rounded.\<close>

fun set_price :: "rat option field \<Rightarrow> money \<Rightarrow> money \<Rightarrow> money" where
  "set_price (Given (Some p)) loaded current = (if 100 * p = of_int loaded then current else to_hundredths p)"
| "set_price _ loaded current = current"

definition item_changed :: "MenuItemUpdate \<Rightarrow> MenuItem \<Rightarrow> bool" where
  "item_changed body l \<longleftrightarrow> changes_required (miu_name body) (mi_name l)
     \<or> changes (miu_description body) (mi_description l)
     \<or> changes_required (miu_price body) (of_int (mi_price l) / 100)
     \<or> changes_required (miu_prep_time_minutes body) (mi_prep_time_minutes l)
     \<or> changes (miu_category_id body) (mi_category_id l)
     \<or> changes_required (miu_is_available body) (mi_is_available l)
     \<or> changes_required (miu_is_active body) (mi_is_active l)
     \<or> changes (miu_image_url body) (mi_image_url l)
     \<or> changes_required (miu_is_featured body) (mi_is_featured l)
     \<or> changes_required (miu_sort_order body) (mi_sort_order l)"

definition patch_menu_item :: "MenuItemUpdate \<Rightarrow> timestamp \<Rightarrow> MenuItem \<Rightarrow> MenuItem \<Rightarrow> MenuItem" where
  "patch_menu_item body now l m =
     m\<lparr>mi_category_id := set_field (miu_category_id body) (mi_category_id l) (mi_category_id m),
       mi_name := set_required (miu_name body) (mi_name l) (mi_name m),
       mi_description := set_field (miu_description body) (mi_description l) (mi_description m),
       mi_price := set_price (miu_price body) (mi_price l) (mi_price m),
       mi_prep_time_minutes := set_required (miu_prep_time_minutes body) (mi_prep_time_minutes l)
         (mi_prep_time_minutes m),
       mi_is_available := set_required (miu_is_available body) (mi_is_available l) (mi_is_available m),
       mi_is_active := set_required (miu_is_active body) (mi_is_active l) (mi_is_active m),
       mi_image_url := set_field (miu_image_url body) (mi_image_url l) (mi_image_url m),
       mi_is_featured := set_required (miu_is_featured body) (mi_is_featured l) (mi_is_featured m),
       mi_sort_order := set_required (miu_sort_order body) (mi_sort_order l) (mi_sort_order m),
       mi_updated_at := (if item_changed body l then now else mi_updated_at m)\<rparr>"

definition item_nulls :: "MenuItemUpdate \<Rightarrow> bool" where
  "item_nulls body \<longleftrightarrow> gives_null (miu_name body) \<or> gives_null (miu_price body)
     \<or> gives_null (miu_prep_time_minutes body) \<or> gives_null (miu_is_available body)
     \<or> gives_null (miu_is_active body) \<or> gives_null (miu_is_featured body)
     \<or> gives_null (miu_sort_order body)"

definition get_own_item :: "uuid \<Rightarrow> uuid \<Rightarrow> database \<Rightarrow> MenuItem result" where
  "get_own_item item_id restaurant_id d =
     (case scalar_one_or_none (filter (\<lambda>m. mi_id m = item_id \<and> mi_restaurant_id m = restaurant_id)
              (menu_items d)) of
        Inl x \<Rightarrow> Inl x
      | Inr None \<Rightarrow> Inl (HTTPException 404 MenuItemNotFound)
      | Inr (Some item) \<Rightarrow> Inr item)"

definition update_menu_item :: "env \<Rightarrow> uuid \<Rightarrow> MenuItemUpdate \<Rightarrow> TokenPayload \<Rightarrow> world
    \<Rightarrow> MenuItemResponse result \<times> world" where
  "update_menu_item e item_id body user w =
     (if \<not> valid_item_update body then (Inl (HTTPException 422 ValidationFailed), w)
      else case get_own_item item_id (tp_restaurant_id user) (db w) of
        Inl x \<Rightarrow> (Inl x, w)
      | Inr item \<Rightarrow>
          (case (case miu_category_id body of
                   Given (Some c) \<Rightarrow> category_valid c (tp_restaurant_id user) (db w) | _ \<Rightarrow> Inr ()) of
             Inl x \<Rightarrow> (Inl x, w)
           | Inr _ \<Rightarrow>
               (let d1 = others e 3 (db w)
                in if item_nulls body then (Inl (IntegrityError ''not_null''), w\<lparr>db := d1\<rparr>)
                   else (case update_menu_item_row item_id (patch_menu_item body (t_db e) item) d1 of
                           Inl x \<Rightarrow> (Inl x, w\<lparr>db := d1\<rparr>)
                         | Inr d2 \<Rightarrow> answer_item e item_id d2 w))))"

section \<open>Photos\<close>

definition MAX_UPLOAD_BYTES :: nat where "MAX_UPLOAD_BYTES = 8 * 1024 * 1024"
definition ALLOWED_CONTENT_TYPES :: "string set" where
  "ALLOWED_CONTENT_TYPES = {''image/jpeg'', ''image/png'', ''image/webp''}"
definition IMAGE_CACHE_CONTROL :: string where
  "IMAGE_CACHE_CONTROL = ''public, max-age=31536000, immutable''"
definition IMAGE_CONTENT_TYPE :: string where "IMAGE_CONTENT_TYPE = ''image/webp''"

text \<open>\<^verbatim>\<open>int(time.time())\<close>, of a clock after 1970, and the keys of the two variants.\<close>

definition image_version :: "env \<Rightarrow> nat" where
  "image_version e = nat (t_py e div 1000000)"

definition image_key :: "string \<Rightarrow> uuid \<Rightarrow> nat \<Rightarrow> string" where
  "image_key variant item_id version =
     ''menu/'' @ uuid_str item_id @ ''/'' @ variant @ ''-'' @ dec version @ ''.webp''"

fun discard_images :: "s3_settings \<Rightarrow> s3_api \<Rightarrow> string option list \<Rightarrow> s3_state \<Rightarrow> s3_state" where
  "discard_images cfg api [] st = st"
| "discard_images cfg api (url # urls) st =
     discard_images cfg api urls
       (case url of
          None \<Rightarrow> st
        | Some u \<Rightarrow>
            if u = [] then st
            else (case key_from_public_url cfg u of
                    None \<Rightarrow> st
                  | Some key \<Rightarrow> delete_file cfg api key st))"

text \<open>
  \<^verbatim>\<open>asyncio.gather\<close> runs both uploads, whether or not one of them fails, and raises the exception of
  a failing one. The two threads are run here one after the other.
\<close>

definition upload_both :: "s3_settings \<Rightarrow> s3_api \<Rightarrow> uuid \<Rightarrow> nat \<Rightarrow> string \<Rightarrow> string \<Rightarrow> s3_state
    \<Rightarrow> (string \<times> string) result \<times> s3_state" where
  "upload_both cfg api item_id version thumb_bytes large_bytes st =
     (let (thumb, st1) = upload_file cfg api (image_key ''thumb'' item_id version) thumb_bytes
            IMAGE_CONTENT_TYPE (Some IMAGE_CACHE_CONTROL) st;
          (large, st2) = upload_file cfg api (image_key ''large'' item_id version) large_bytes
            IMAGE_CONTENT_TYPE (Some IMAGE_CACHE_CONTROL) st1
      in (case thumb of
            Inl x \<Rightarrow> Inl x
          | Inr thumb_url \<Rightarrow> (case large of Inl x \<Rightarrow> Inl x | Inr large_url \<Rightarrow> Inr (thumb_url, large_url)),
          st2))"

definition set_images :: "string option \<Rightarrow> string option \<Rightarrow> timestamp \<Rightarrow> MenuItem \<Rightarrow> MenuItem \<Rightarrow> MenuItem" where
  "set_images thumb large now l m =
     m\<lparr>mi_image_url := set_field (Given thumb) (mi_image_url l) (mi_image_url m),
       mi_image_large_url := set_field (Given large) (mi_image_large_url l) (mi_image_large_url m),
       mi_updated_at := (if thumb = mi_image_url l \<and> large = mi_image_large_url l then mi_updated_at m
          else now)\<rparr>"

text \<open>The photos that an item had when it was loaded are discarded once its row is committed and read
  back.\<close>

definition discard_after :: "s3_settings \<Rightarrow> s3_api \<Rightarrow> MenuItem \<Rightarrow> 'r result \<times> world \<Rightarrow> s3_state
    \<Rightarrow> ('r result \<times> world) \<times> s3_state" where
  "discard_after cfg api item answer st =
     (case answer of
        (Inl x, w) \<Rightarrow> ((Inl x, w), st)
      | (Inr r, w) \<Rightarrow> ((Inr r, w), discard_images cfg api [mi_image_url item, mi_image_large_url item] st))"

definition upload_menu_item_image :: "env \<Rightarrow> (string \<Rightarrow> (string \<times> string) result) \<Rightarrow> s3_settings \<Rightarrow> s3_api
    \<Rightarrow> uuid \<Rightarrow> string \<Rightarrow> string \<Rightarrow> TokenPayload \<Rightarrow> world \<Rightarrow> s3_state
    \<Rightarrow> (MenuItemResponse result \<times> world) \<times> s3_state" where
  "upload_menu_item_image e process_menu_image cfg api item_id content_type file user w st =
     (case get_own_item item_id (tp_restaurant_id user) (db w) of
        Inl x \<Rightarrow> ((Inl x, w), st)
      | Inr item \<Rightarrow>
          if content_type \<notin> ALLOWED_CONTENT_TYPES then ((Inl (HTTPException 400 ImageTypeRefused), w), st)
          else
            (let raw = take (MAX_UPLOAD_BYTES + 1) file
             in if MAX_UPLOAD_BYTES < length raw then ((Inl (HTTPException 413 ImageTooLarge), w), st)
                else if raw = [] then ((Inl (HTTPException 400 ImageEmpty), w), st)
                else case process_menu_image raw of
                  Inl x \<Rightarrow> ((Inl (if x = ImageValidationError then HTTPException 400 ImageInvalid else x), w), st)
                | Inr (thumb_bytes, large_bytes) \<Rightarrow>
                    (let d1 = others e 3 (db w)
                     in case upload_both cfg api (mi_id item) (image_version e) thumb_bytes large_bytes st of
                          (Inl x, st1) \<Rightarrow> ((Inl x, w\<lparr>db := d1\<rparr>), st1)
                        | (Inr (thumb_url, large_url), st1) \<Rightarrow>
                            (let d2 = d1\<lparr>menu_items := sql_update (\<lambda>m. mi_id m = mi_id item)
                                   (set_images (Some thumb_url) (Some large_url) (t_db e) item) (menu_items d1)\<rparr>
                             in discard_after cfg api item (answer_item e (mi_id item) d2 w) st1))))"

definition delete_menu_item_image :: "env \<Rightarrow> s3_settings \<Rightarrow> s3_api \<Rightarrow> uuid \<Rightarrow> TokenPayload \<Rightarrow> world
    \<Rightarrow> s3_state \<Rightarrow> (MenuItemResponse result \<times> world) \<times> s3_state" where
  "delete_menu_item_image e cfg api item_id user w st =
     (case get_own_item item_id (tp_restaurant_id user) (db w) of
        Inl x \<Rightarrow> ((Inl x, w), st)
      | Inr item \<Rightarrow>
          (let d1 = others e 3 (db w);
               d2 = d1\<lparr>menu_items := sql_update (\<lambda>m. mi_id m = mi_id item)
                      (set_images None None (t_db e) item) (menu_items d1)\<rparr>
           in discard_after cfg api item (answer_item e (mi_id item) d2 w) st))"

section \<open>The invariant of the database\<close>

lemma db_inv_answer_category:
  "good_env e \<Longrightarrow> db_inv d \<Longrightarrow> db_inv (db (snd (answer_category e i d w)))"
  using good_envD(1) by (simp add: answer_category_def Let_def)

lemma db_inv_answer_item:
  "good_env e \<Longrightarrow> db_inv d \<Longrightarrow> db_inv (db (snd (answer_item e i d w)))"
  using good_envD(1) by (simp add: answer_item_def Let_def)

lemma db_inv_create_menu_category:
  assumes "db_inv (db w)" and "good_env e"
  shows "db_inv (db (snd (create_menu_category e body user w)))"
  using assms
  by (auto simp: create_menu_category_def Let_def intro!: db_inv_answer_category
      dest: db_inv_insert_menu_category split: sum.splits)

lemma db_inv_update_menu_category:
  assumes "db_inv (db w)" and e: "good_env e"
  shows "db_inv (db (snd (update_menu_category e i body user w)))"
proof -
  have "db_inv d'" if "update_category_row i (patch_category body c) d = Inr d'" "db_inv d" for c d d'
    by (rule db_inv_update_category [OF that(2,1)]) (simp add: patch_category_def)
  with assms good_envD(1) [OF e assms(1)] show ?thesis
    by (auto simp: update_menu_category_def Let_def intro!: db_inv_answer_category
        split: sum.splits option.splits)
qed

lemma db_inv_create_menu_item:
  assumes "db_inv (db w)" and e: "good_env e"
  shows "db_inv (db (snd (create_menu_item e body user w)))"
  using assms(1) e good_envD(1) [OF e assms(1)]
  by (auto simp: create_menu_item_def Let_def intro!: db_inv_answer_item dest: db_inv_insert_menu_item
      split: sum.splits)

lemma db_inv_update_menu_item_handler:
  assumes "db_inv (db w)" and e: "good_env e"
  shows "db_inv (db (snd (update_menu_item e i body user w)))"
proof -
  have "db_inv d'" if "update_menu_item_row i (patch_menu_item body now m) d = Inr d'" "db_inv d"
    for now m d d'
    by (rule db_inv_update_menu_item [OF that(2,1)]) (simp add: patch_menu_item_def)
  with assms good_envD(1) [OF e assms(1)] show ?thesis
    by (auto simp: update_menu_item_def Let_def intro!: db_inv_answer_item split: sum.splits)
qed

lemma db_inv_discard_after:
  "db_inv (db (snd a)) \<Longrightarrow> db_inv (db (snd (fst (discard_after cfg api m a st))))"
  by (auto simp: discard_after_def split: prod.splits sum.splits)

lemma db_inv_set_images:
  assumes "db_inv d"
  shows "db_inv (d\<lparr>menu_items := sql_update P (set_images a b now m) (menu_items d)\<rparr>)"
  by (rule db_inv_update_menu_items [OF assms]) (simp add: set_images_def)

lemma db_inv_upload_menu_item_image:
  assumes "db_inv (db w)" and e: "good_env e"
  shows "db_inv (db (snd (fst (upload_menu_item_image e pil cfg api i ct file user w st))))"
  using assms(1) good_envD(1) [OF e assms(1)]
  by (auto simp: upload_menu_item_image_def Let_def
      intro!: db_inv_discard_after db_inv_answer_item [OF e] db_inv_set_images
      split: sum.splits option.splits prod.splits)

lemma db_inv_delete_menu_item_image:
  assumes "db_inv (db w)" and e: "good_env e"
  shows "db_inv (db (snd (fst (delete_menu_item_image e cfg api i user w st))))"
  using assms(1) good_envD(1) [OF e assms(1)]
  by (auto simp: delete_menu_item_image_def Let_def
      intro!: db_inv_discard_after db_inv_answer_item [OF e] db_inv_set_images split: sum.splits)

section \<open>Keys of the photos\<close>

lemma image_key_inject:
  "image_key variant i m = image_key variant i n \<longleftrightarrow> m = n"
  "image_key ''thumb'' i m \<noteq> image_key ''large'' i n"
  "image_key ''large'' i m \<noteq> image_key ''thumb'' i n"
  "image_key variant i m \<noteq> []"
  by (simp_all add: image_key_def)

text \<open>The keys that a list of addresses has in the bucket.\<close>

definition url_keys :: "s3_settings \<Rightarrow> string option list \<Rightarrow> string list" where
  "url_keys cfg urls = concat (map (\<lambda>url. case url of None \<Rightarrow> []
     | Some u \<Rightarrow> if u = [] then []
        else (case key_from_public_url cfg u of None \<Rightarrow> [] | Some key \<Rightarrow> [key])) urls)"

lemma calls_discard_images:
  "calls (discard_images cfg api urls st) = calls st @ map (DeleteObject (s3_bucket cfg)) (url_keys cfg urls)"
  by (induction cfg api urls st rule: discard_images.induct)
    (simp_all add: url_keys_def delete_file_def split: option.split)

lemma delete_all:
  "fold apply_call (map (DeleteObject b) ks) objs key = (if key \<in> set ks then None else objs key)"
  by (induction ks arbitrary: objs) auto

lemma public_url_not_Nil: "get_public_url cfg key \<noteq> []"
  by (simp add: get_public_url_def)

lemma set_images_sel [simp]:
  "mi_id (set_images a b now l m) = mi_id m"
  "mi_restaurant_id (set_images a b now l m) = mi_restaurant_id m"
  "mi_image_url (set_images a b now m m) = a" "mi_image_large_url (set_images a b now m m) = b"
  by (simp_all add: set_images_def)

lemma upload_both_ok:
  assumes "bucket_ensured st" and "\<And>k. put_error api k = None"
  shows "\<exists>st'. upload_both cfg api i v a b st
      = (Inr (get_public_url cfg (image_key ''thumb'' i v), get_public_url cfg (image_key ''large'' i v)), st')
    \<and> objects (calls st')
      = (objects (calls st))(image_key ''thumb'' i v \<mapsto> a, image_key ''large'' i v \<mapsto> b)"
  using assms by (simp add: upload_both_def upload_file_ensured Let_def)

lemma get_own_item_existing:
  assumes "keys_ok d" and "m \<in> set (menu_items d)"
  shows "get_own_item (mi_id m) (mi_restaurant_id m) d = Inr m"
  using filter_unique [OF keys_okD(7) [OF assms(1)] assms(2), of "\<lambda>x. mi_restaurant_id x = mi_restaurant_id m"]
  by (simp add: get_own_item_def)

lemma answer_item_updated:
  assumes "quiet_env e" and "keys_ok d" and "m \<in> set (menu_items d)" and "\<And>x. mi_id (f x) = mi_id x"
  shows "answer_item e (mi_id m) (d\<lparr>menu_items := sql_update (\<lambda>x. mi_id x = mi_id m) f (menu_items d)\<rparr>) w
    = (Inr (menu_item_response_of (f m)),
       w\<lparr>db := d\<lparr>menu_items := map (\<lambda>x. if x = m then f m else x) (menu_items d)\<rparr>\<rparr>)"
  using select_updated [OF keys_okD(7) [OF assms(2)] assms(3,4)]
    sql_update_unique [OF keys_okD(7) [OF assms(2)] assms(3)]
  by (simp add: answer_item_def quiet_others [OF assms(1)] Let_def)

section \<open>Properties\<close>

lemma to_hundredths_error: "\<bar>of_int (to_hundredths p) - 100 * p\<bar> \<le> 1 / 2"
  unfolding to_hundredths_def by linarith

lemma customer_menu_cong:
  assumes "filter (\<lambda>i. mi_restaurant_id i = rid \<and> mi_is_active i) (menu_items d')
      = filter (\<lambda>i. mi_restaurant_id i = rid \<and> mi_is_active i) (menu_items d)"
    and "menu_categories d' = menu_categories d"
  shows "customer_menu rid d' = customer_menu rid d"
  by (simp only: customer_menu_def assms)

lemma filter_replace:
  assumes "\<not> Q m" and "\<not> Q m'"
  shows "filter Q (map (\<lambda>x. if x = m then m' else x) rows) = filter Q rows"
  using assms by (induction rows) auto


lemma category_valid_eq:
  assumes "keys_ok d"
  shows "category_valid c rid d = (if \<exists>k \<in> set (menu_categories d). mc_id k = c \<and> mc_restaurant_id k = rid
     then Inr () else Inl (HTTPException 400 CategoryInvalid))"
  using keys_okD(6) [OF assms]
  by (cases rule: filter_key_cases [of mc_id _ c "\<lambda>k. mc_restaurant_id k = rid"])
    (auto simp: category_valid_def)




definition demo_admin :: TokenPayload where
  "demo_admin = \<lparr>tp_sub = 11, tp_restaurant_id = 1, tp_role = ''admin''\<rparr>"

lemma demo_admin_sel [simp]:
  "tp_sub demo_admin = 11" "tp_restaurant_id demo_admin = 1" "tp_role demo_admin = ''admin''"
  by (simp_all add: demo_admin_def)



lemma patch_menu_item_sel [simp]:
  "mi_id (patch_menu_item body now l m) = mi_id m"
  "mi_restaurant_id (patch_menu_item body now l m) = mi_restaurant_id m"
  by (simp_all add: patch_menu_item_def)

lemma patch_menu_item_fields:
  assumes m'_def: "m' = patch_menu_item body now m m"
  shows "mi_name m' = (case miu_name body of Given (Some n) \<Rightarrow> n | _ \<Rightarrow> mi_name m)"
    and "mi_is_available m' = (case miu_is_available body of Given (Some a) \<Rightarrow> a | _ \<Rightarrow> mi_is_available m)"
    and "mi_is_active m' = (case miu_is_active body of Given (Some a) \<Rightarrow> a | _ \<Rightarrow> mi_is_active m)"
    and "mi_category_id m' = (case miu_category_id body of Given c \<Rightarrow> c | Unset \<Rightarrow> mi_category_id m)"
    and "mi_image_url m' = (case miu_image_url body of Given u \<Rightarrow> u | Unset \<Rightarrow> mi_image_url m)"
    and "case miu_price body of Given (Some p) \<Rightarrow> \<bar>of_int (mi_price m') - 100 * p\<bar> \<le> 1 / 2
       | _ \<Rightarrow> mi_price m' = mi_price m"
proof -
  have "\<bar>of_int (set_price (Given (Some p)) l l) - 100 * p\<bar> \<le> 1 / 2" for p l
    using to_hundredths_error [of p] by simp
  then show "case miu_price body of Given (Some p) \<Rightarrow> \<bar>of_int (mi_price m') - 100 * p\<bar> \<le> 1 / 2
       | _ \<Rightarrow> mi_price m' = mi_price m"
    by (simp add: m'_def patch_menu_item_def split: field.split option.split del: set_price.simps(1))
qed (simp_all add: m'_def patch_menu_item_def split: field.split)

text \<open>A patch gives a category that is not one of the restaurant.\<close>

definition foreign_category :: "MenuItemUpdate \<Rightarrow> uuid \<Rightarrow> database \<Rightarrow> bool" where
  "foreign_category body rid d \<longleftrightarrow> (case miu_category_id body of
       Given (Some c) \<Rightarrow> \<not> (\<exists>k \<in> set (menu_categories d). mc_id k = c \<and> mc_restaurant_id k = rid)
     | _ \<Rightarrow> False)"

text \<open>The branches of a patch of an item of the restaurant.\<close>

lemma update_menu_item_existing:
  assumes "db_inv (db w)" and "quiet_env e" and "valid_item_update body"
    and "m \<in> set (menu_items (db w))" and "mi_restaurant_id m = tp_restaurant_id user"
  shows "update_menu_item e (mi_id m) body user w =
    (if foreign_category body (tp_restaurant_id user) (db w) then (Inl (HTTPException 400 CategoryInvalid), w)
     else if item_nulls body then (Inl (IntegrityError ''not_null''), w)
     else let m' = patch_menu_item body (t_db e) m m
       in case check (menu_item_checks m' (db w)) of
            Some x \<Rightarrow> (Inl x, w)
          | None \<Rightarrow> (Inr (menu_item_response_of m'),
              w\<lparr>db := db w\<lparr>menu_items := map (\<lambda>x. if x = m then m' else x) (menu_items (db w))\<rparr>\<rparr>))"
proof -
  let ?rid = "tp_restaurant_id user" and ?f = "patch_menu_item body (t_db e) m"
  note keys = db_invD(1) [OF assms(1)]
  note cv = category_valid_eq [OF keys]
  have find: "get_own_item (mi_id m) ?rid (db w) = Inr m"
    using get_own_item_existing [OF keys assms(4)] assms(5) by simp
  have cat: "(case miu_category_id body of Given (Some c) \<Rightarrow> category_valid c ?rid (db w) | _ \<Rightarrow> Inr ())
      = (if foreign_category body ?rid (db w) then Inl (HTTPException 400 CategoryInvalid) else Inr ())"
    by (auto simp: cv foreign_category_def split: field.split option.split)
  have "first_row (filter (\<lambda>x. mi_id x = mi_id m) (menu_items (db w))) = Some m"
    using filter_unique [OF keys_okD(7) [OF keys] assms(4), of "\<lambda>_. True"] by simp
  then have row: "update_menu_item_row (mi_id m) ?f (db w)
      = (case check (menu_item_checks (?f m) (db w)) of Some x \<Rightarrow> Inl x
         | None \<Rightarrow> Inr (db w\<lparr>menu_items := sql_update (\<lambda>x. mi_id x = mi_id m) ?f (menu_items (db w))\<rparr>))"
    by (simp add: update_menu_item_row_def del: check_None_iff)
  show ?thesis
    unfolding update_menu_item_def find cat Let_def quiet_others [OF assms(2)]
    using assms(3) row answer_item_updated [OF assms(2) keys assms(4), of ?f w]
    by (simp del: check_None_iff split: option.split)
qed

text \<open>
  Editing an item: Without interference, a valid patch of an item of the restaurant that
  gives no null for a required column and no category of another restaurant either violates a
  range and changes nothing, or changes that row alone: the given fields have their new values,
  the price up to half a hundredth, the others keep theirs. No order item, no bill and no menu of
  another restaurant changes with it. An unknown item, or one of another restaurant, answers 404,
  a foreign category 400, and a null for a required column is an \<^verbatim>\<open>IntegrityError\<close>, all without effect.
\<close>

theorem menu_item_patch:
  assumes "db_inv (db w)" and "quiet_env e" and "valid_item_update body"
    and "update_menu_item e item_id body user w = (res, w')"
  shows "let rid = tp_restaurant_id user
     in if \<exists>m \<in> set (menu_items (db w)). mi_id m = item_id \<and> mi_restaurant_id m = rid
        then if foreign_category body rid (db w) then res = Inl (HTTPException 400 CategoryInvalid) \<and> w' = w
          else if item_nulls body then res = Inl (IntegrityError ''not_null'') \<and> w' = w
          else (\<exists>x. res = Inl x \<and> w' = w)
            \<or> (\<exists>m \<in> set (menu_items (db w)). \<exists>m'. mi_id m = item_id
                \<and> res = Inr (menu_item_response_of m')
                \<and> db w' = (db w)\<lparr>menu_items := map (\<lambda>x. if x = m then m' else x) (menu_items (db w))\<rparr>
                \<and> (case miu_price body of Given (Some p) \<Rightarrow> \<bar>of_int (mi_price m') - 100 * p\<bar> \<le> 1 / 2
                     | _ \<Rightarrow> mi_price m' = mi_price m)
                \<and> mi_name m' = (case miu_name body of Given (Some n) \<Rightarrow> n | _ \<Rightarrow> mi_name m)
                \<and> mi_is_available m' = (case miu_is_available body of Given (Some a) \<Rightarrow> a | _ \<Rightarrow> mi_is_available m)
                \<and> mi_is_active m' = (case miu_is_active body of Given (Some a) \<Rightarrow> a | _ \<Rightarrow> mi_is_active m)
                \<and> mi_category_id m' = (case miu_category_id body of Given c \<Rightarrow> c | Unset \<Rightarrow> mi_category_id m)
                \<and> (\<forall>sid. served_total sid (db w') = served_total sid (db w))
                \<and> (\<forall>r. r \<noteq> rid \<longrightarrow> customer_menu r (db w') = customer_menu r (db w)))
        else res = Inl (HTTPException 404 MenuItemNotFound) \<and> w' = w"
proof -
  let ?rid = "tp_restaurant_id user"
  let ?foreign = "foreign_category body ?rid (db w)"
  show ?thesis
    using keys_okD(7) [OF db_invD(1) [OF assms(1)]]
  proof (cases rule: filter_key_cases [of mi_id _ item_id "\<lambda>m. mi_restaurant_id m = ?rid"])
    case none
    with assms(3,4) show ?thesis by (auto simp: update_menu_item_def get_own_item_def)
  next
    case (one m)
    have ex: "\<exists>m \<in> set (menu_items (db w)). mi_id m = item_id \<and> mi_restaurant_id m = ?rid"
      using one by blast
    let ?m' = "patch_menu_item body (t_db e) m m"
    let ?d = "db w\<lparr>menu_items := map (\<lambda>x. if x = m then ?m' else x) (menu_items (db w))\<rparr>"
    note eq = update_menu_item_existing [OF assms(1-3) one(2,4), unfolded one(3) assms(4) Let_def]
    have other: "\<forall>r. r \<noteq> ?rid \<longrightarrow> customer_menu r ?d = customer_menu r (db w)"
      using one(4) by (auto intro!: customer_menu_cong simp: filter_replace)
    have bills: "\<forall>sid. served_total sid ?d = served_total sid (db w)"
      by (simp add: served_total_def in_session_def)
    consider (foreign) "?foreign" | (null) "\<not> ?foreign" "item_nulls body"
      | (refused) x where "\<not> ?foreign" "\<not> item_nulls body" "res = Inl x" "w' = w"
      | (changed) "\<not> ?foreign" "\<not> item_nulls body" "res = Inr (menu_item_response_of ?m')" "db w' = ?d"
      using eq by (cases "check (menu_item_checks ?m' (db w))") (auto simp del: check_None_iff split: if_splits)
    then show ?thesis
    proof cases
      case changed
      note f = patch_menu_item_fields [OF refl, of body "t_db e" m]
      show ?thesis
        unfolding Let_def if_P [OF ex] if_not_P [OF changed(1)] if_not_P [OF changed(2)] changed(4)
        by (intro disjI2 bexI [OF _ one(2)] exI [of _ ?m'] conjI one(3) changed(3) f bills other refl)
    qed (use eq ex in \<open>simp_all add: Let_def\<close>)
  qed
qed

definition no_item_change :: MenuItemUpdate where
  "no_item_change = \<lparr>miu_name = Unset, miu_description = Unset, miu_price = Unset,
     miu_prep_time_minutes = Unset, miu_category_id = Unset, miu_is_available = Unset,
     miu_is_active = Unset, miu_image_url = Unset, miu_is_featured = Unset, miu_sort_order = Unset\<rparr>"

lemma menu_item_patch_witness:
  "let (res, w') = update_menu_item demo_env 40 (no_item_change\<lparr>miu_category_id := Given (Some 31)\<rparr>)
      demo_admin \<lparr>db = demo, bus = []\<rparr>
   in res = Inl (HTTPException 400 CategoryInvalid) \<and> db w' = demo"
proof -
  let ?w = "\<lparr>db = demo, bus = []\<rparr>" and ?body = "no_item_change\<lparr>miu_category_id := Given (Some 31)\<rparr>"
  obtain res w' where c: "update_menu_item demo_env 40 ?body demo_admin ?w = (res, w')" by fastforce
  have b: "valid_item_update ?body" "miu_category_id ?body = Given (Some 31)"
    by (simp_all add: valid_item_update_def no_item_change_def)
  have ex: "\<exists>m \<in> set (menu_items (db ?w)). mi_id m = 40 \<and> mi_restaurant_id m = tp_restaurant_id demo_admin"
    by (simp add: demo_def demo_rows)
  have foreign: "foreign_category ?body (tp_restaurant_id demo_admin) (db ?w)"
    by (simp add: foreign_category_def b(2)) (simp add: demo_def)
  have q: "db_inv (db ?w)" "quiet_env demo_env" by (simp_all add: quiet_env_def)
  from menu_item_patch [OF q b(1) c, unfolded Let_def if_P [OF ex] if_P [OF foreign]] c
  show ?thesis by simp
qed

text \<open>
  C23 (replacing a photo). Without interference and with a working storage, uploading an image for
  an item makes it point to two objects with the current second in their keys, and the objects of
  its previous photo are gone. When the previous photo is from an earlier second, or there was
  none, the two objects hold the two variants. But when it was uploaded in the same second its
  keys are the new keys: the clean-up then deletes the photo that was just stored, and the item
  points to nothing.
\<close>

theorem photo_replacement:
  assumes "db_inv (db w)" and "quiet_env e" and "plain_base cfg" and "bucket_ensured st"
    and "\<And>k. put_error api k = None" and "m \<in> set (menu_items (db w))"
    and "mi_restaurant_id m = tp_restaurant_id user" and "content_type \<in> ALLOWED_CONTENT_TYPES"
    and "file \<noteq> []" and "length file \<le> MAX_UPLOAD_BYTES"
    and "process_menu_image file = Inr (thumb, large)"
    and "mi_image_url m = map_option (\<lambda>v. get_public_url cfg (image_key ''thumb'' (mi_id m) v)) previous"
    and "mi_image_large_url m = map_option (\<lambda>v. get_public_url cfg (image_key ''large'' (mi_id m) v)) previous"
  shows "\<exists>m' w' st'. upload_menu_item_image e process_menu_image cfg api (mi_id m) content_type file user w st
        = ((Inr (menu_item_response_of m'), w'), st')
      \<and> m' \<in> set (menu_items (db w'))
      \<and> mi_image_url m' = Some (get_public_url cfg (image_key ''thumb'' (mi_id m) (image_version e)))
      \<and> mi_image_large_url m' = Some (get_public_url cfg (image_key ''large'' (mi_id m) (image_version e)))
      \<and> (\<forall>v \<in> set_option previous. objects (calls st') (image_key ''thumb'' (mi_id m) v) = None
           \<and> objects (calls st') (image_key ''large'' (mi_id m) v) = None)
      \<and> (previous \<noteq> Some (image_version e)
           \<longrightarrow> objects (calls st') (image_key ''thumb'' (mi_id m) (image_version e)) = Some thumb
             \<and> objects (calls st') (image_key ''large'' (mi_id m) (image_version e)) = Some large)"
proof -
  note keys = db_invD(1) [OF assms(1)]
  let ?i = "mi_id m" and ?v = "image_version e"
  let ?tk = "image_key ''thumb'' ?i" and ?lk = "image_key ''large'' ?i"
  let ?f = "set_images (Some (get_public_url cfg (?tk ?v))) (Some (get_public_url cfg (?lk ?v))) (t_db e) m"
  obtain st1 where up: "upload_both cfg api ?i ?v thumb large st
      = (Inr (get_public_url cfg (?tk ?v), get_public_url cfg (?lk ?v)), st1)"
    and objs: "objects (calls st1) = (objects (calls st))(?tk ?v \<mapsto> thumb, ?lk ?v \<mapsto> large)"
    using upload_both_ok [OF assms(4,5)] by blast
  let ?st' = "discard_images cfg api [mi_image_url m, mi_image_large_url m] st1"
  have up: "upload_menu_item_image e process_menu_image cfg api ?i content_type file user w st
      = ((Inr (menu_item_response_of (?f m)),
          w\<lparr>db := db w\<lparr>menu_items := map (\<lambda>x. if x = m then ?f m else x) (menu_items (db w))\<rparr>\<rparr>), ?st')"
    using get_own_item_existing [OF keys assms(6)] answer_item_updated [OF assms(2) keys assms(6), of ?f w]
      assms(7-11) up
    by (simp add: upload_menu_item_image_def quiet_others [OF assms(2)] discard_after_def Let_def)
  have "url_keys cfg [mi_image_url m, mi_image_large_url m]
      = (case previous of None \<Rightarrow> [] | Some v \<Rightarrow> [?tk v, ?lk v])"
    unfolding assms(12,13)
    by (simp add: url_keys_def public_url_not_Nil public_url_key [OF assms(3)] image_key_inject
        split: option.split)
  then have objs': "objects (calls ?st') k = (if k \<in> set (case previous of None \<Rightarrow> [] | Some v \<Rightarrow> [?tk v, ?lk v])
      then None else ((objects (calls st))(?tk ?v \<mapsto> thumb, ?lk ?v \<mapsto> large)) k)" for k
    by (simp only: calls_discard_images objects_append delete_all objs)
  have mem: "?f m \<in> set (map (\<lambda>x. if x = m then ?f m else x) (menu_items (db w)))"
    using assms(6) by auto
  show ?thesis
    by (intro exI conjI, rule up)
      (use mem in \<open>simp_all add: objs' image_key_inject del: discard_images.simps set_map split: option.split\<close>)
qed

lemma photo_replacement_witness:
  "\<exists>m' w' st'. upload_menu_item_image demo_env (\<lambda>raw. Inr (''thumb'', ''large'')) demo_s3 demo_s3_api 40
      ''image/png'' ''png'' demo_admin \<lparr>db = demo, bus = []\<rparr> \<lparr>bucket_ensured = True, calls = []\<rparr>
      = ((Inr (menu_item_response_of m'), w'), st')
    \<and> objects (calls st') (image_key ''thumb'' 40 (image_version demo_env)) = Some ''thumb''"
proof -
  let ?m = "demo_menu_item 40 1 ''Pho bo'' 4500000 True"
  have m: "?m \<in> set (menu_items demo)" by (simp add: demo_def)
  have sel: "mi_id ?m = 40" "mi_restaurant_id ?m = 1" "mi_image_url ?m = None" "mi_image_large_url ?m = None"
    by (simp_all add: demo_menu_item_def)
  show ?thesis
    using photo_replacement [of "\<lparr>db = demo, bus = []\<rparr>" demo_env demo_s3
        "\<lparr>bucket_ensured = True, calls = []\<rparr>" demo_s3_api ?m demo_admin "''image/png''" "''png''"
        "\<lambda>raw. Inr (''thumb'', ''large'')" "''thumb''" "''large''" None] m demo_plain_base
    by (auto simp: sel quiet_env_def demo_s3_api_def ALLOWED_CONTENT_TYPES_def MAX_UPLOAD_BYTES_def)
qed

text \<open>
  The photos of others: The address of an item's image is free text, and the clean-up takes
  every address with the bucket in it for one of its own objects. So for every object of the
  bucket, whoever it belongs to, an admin has a patch of an own item after which removing that
  item's photo deletes the object.
\<close>

theorem any_object_can_be_deleted:
  assumes "db_inv (db w)" and "quiet_env e" and "plain_base cfg" and "key \<noteq> []"
    and "m \<in> set (menu_items (db w))" and "mi_restaurant_id m = tp_restaurant_id user"
    and "check (menu_item_checks m (db w)) = None"
  shows "\<exists>body resp w1. update_menu_item e (mi_id m) body user w = (Inr resp, w1)
    \<and> (\<exists>resp' w2 st'. delete_menu_item_image e cfg api (mi_id m) user w1 st = ((Inr resp', w2), st')
        \<and> objects (calls st') key = None
        \<and> DeleteObject (s3_bucket cfg) key \<in> set (drop (length (calls st)) (calls st')))"
proof -
  note keys = db_invD(1) [OF assms(1)]
  let ?url = "get_public_url cfg key"
  let ?body = "no_item_change\<lparr>miu_image_url := Given (Some ?url)\<rparr>"
  let ?f = "patch_menu_item ?body (t_db e) m"
  let ?d = "db w\<lparr>menu_items := map (\<lambda>x. if x = m then ?f m else x) (menu_items (db w))\<rparr>"
  have f: "mi_id (?f x) = mi_id x" "mi_restaurant_id (?f x) = mi_restaurant_id x" for x
    by (simp_all add: patch_menu_item_def)
  have fm: "mi_image_url (?f m) = Some ?url" "menu_item_checks (?f m) = menu_item_checks m"
    by (simp_all add: patch_menu_item_def no_item_change_def menu_item_checks_def fun_eq_iff)
  have body: "valid_item_update ?body" "miu_category_id ?body = Unset" "\<not> item_nulls ?body"
    by (simp_all add: valid_item_update_def item_nulls_def no_item_change_def)
  have patch: "update_menu_item e (mi_id m) ?body user w = (Inr (menu_item_response_of (?f m)), w\<lparr>db := ?d\<rparr>)"
    using update_menu_item_existing [OF assms(1,2) body(1) assms(5,6)] body(2,3) assms(7)
    by (simp add: fm Let_def foreign_category_def del: check_None_iff)
  have "db_inv ?d"
    using db_inv_update_menu_items [OF assms(1), of ?f "\<lambda>x. mi_id x = mi_id m"] f
      sql_update_unique [OF keys_okD(7) [OF keys] assms(5)] by simp
  note keys' = db_invD(1) [OF this]
  have mem: "?f m \<in> set (menu_items ?d)" using assms(5) by auto
  let ?st' = "discard_images cfg api [Some ?url, mi_image_large_url (?f m)] st"
  obtain resp' w2 where del: "delete_menu_item_image e cfg api (mi_id m) user (w\<lparr>db := ?d\<rparr>) st
      = ((Inr resp', w2), ?st')"
    using get_own_item_existing [OF keys' mem] answer_item_updated [OF assms(2) keys' mem,
        of "set_images None None (t_db e) (?f m)" "w\<lparr>db := ?d\<rparr>"] assms(6) fm(1)
    by (simp add: delete_menu_item_image_def quiet_others [OF assms(2)] discard_after_def f Let_def
        del: discard_images.simps)
  have "key \<in> set (url_keys cfg [Some ?url, mi_image_large_url (?f m)])"
    using public_url_key [OF assms(3,4)] by (simp add: url_keys_def public_url_not_Nil)
  then have "objects (calls ?st') key = None"
    "DeleteObject (s3_bucket cfg) key \<in> set (drop (length (calls st)) (calls ?st'))"
    by (simp_all only: calls_discard_images objects_append delete_all append_eq_conv_conj) auto
  with patch del show ?thesis by blast
qed

lemma any_object_can_be_deleted_witness:
  "\<exists>w1 resp' w2 st'. delete_menu_item_image demo_env demo_s3 demo_s3_api 40 demo_admin w1
      \<lparr>bucket_ensured = True, calls = []\<rparr> = ((Inr resp', w2), st')
    \<and> DeleteObject ''qorder'' ''qr/of-another-tenant.png'' \<in> set (calls st')"
proof -
  let ?m = "demo_menu_item 40 1 ''Pho bo'' 4500000 True"
  have m: "?m \<in> set (menu_items demo)" "mi_id ?m = 40" "mi_restaurant_id ?m = 1"
    by (simp_all add: demo_def demo_menu_item_def)
  have "check (menu_item_checks ?m demo) = None"
    by (simp add: menu_item_checks_def demo_menu_item_def fits_int4_def fits_numeric_12_2_def
        fk_category_def fk_restaurant_def) (simp add: demo_def demo_restaurant_def)
  then show ?thesis
    using any_object_can_be_deleted [of "\<lparr>db = demo, bus = []\<rparr>" demo_env demo_s3
        "''qr/of-another-tenant.png''" ?m demo_admin demo_s3_api "\<lparr>bucket_ensured = True, calls = []\<rparr>"]
      m demo_plain_base
    by (simp add: quiet_env_def demo_base del: check_None_iff) blast
qed

end
