(* ===== verification/Evolution.thy ===== *)
theory Evolution imports Scheduler Kitchen StaffTables AdminTables AdminSettings AdminMenu begin

text \<open>
  What every write of the program has in common. The interface \<open>row_writes\<close> is a relation on
  databases that is closed under the writes the program makes, to rows of certain restaurants
  (\<open>may\<close>): new rows, updates of rows that keep their keys and their history. Inside it, each
  handler is shown to stay in the relation whatever the other connections do in its gaps, as long
  as they stay in it too. There are two interpretations: \<open>evolves\<close>, which says that history is
  preserved, and \<open>leaves_others r\<close>, which says that only rows of restaurant \<open>r\<close> change.
\<close>

section \<open>What an update of a row may do\<close>

definition session_step :: "TableSession \<Rightarrow> TableSession \<Rightarrow> bool" where
  "session_step s s' \<longleftrightarrow> ts_id s' = ts_id s \<and> ts_restaurant_id s' = ts_restaurant_id s
     \<and> ts_table_id s' = ts_table_id s \<and> ts_opened_by s' = ts_opened_by s \<and> ts_opened_at s' = ts_opened_at s
     \<and> (ts_status s = CLOSED \<longrightarrow> ts_status s' = CLOSED \<and> ts_closed_at s' = ts_closed_at s
          \<and> ts_total_amount s' = ts_total_amount s)"

definition item_step :: "OrderItem \<Rightarrow> OrderItem \<Rightarrow> bool" where
  "item_step i i' \<longleftrightarrow> oi_id i' = oi_id i \<and> oi_restaurant_id i' = oi_restaurant_id i
     \<and> oi_order_id i' = oi_order_id i \<and> oi_menu_item_id i' = oi_menu_item_id i
     \<and> oi_name_snapshot i' = oi_name_snapshot i \<and> oi_price_snapshot i' = oi_price_snapshot i
     \<and> oi_prep_time_snapshot i' = oi_prep_time_snapshot i \<and> oi_quantity i' = oi_quantity i
     \<and> oi_note i' = oi_note i \<and> oi_requested_at i' = oi_requested_at i
     \<and> (oi_status i = CANCELLED \<longrightarrow> i' = i)"

definition call_step :: "StaffCall \<Rightarrow> StaffCall \<Rightarrow> bool" where
  "call_step c c' \<longleftrightarrow> sc_id c' = sc_id c \<and> sc_restaurant_id c' = sc_restaurant_id c
     \<and> sc_table_id c' = sc_table_id c \<and> sc_table_session_id c' = sc_table_session_id c
     \<and> sc_created_at c' = sc_created_at c
     \<and> (sc_status c = CALL_ACKNOWLEDGED \<longrightarrow> sc_status c' = CALL_ACKNOWLEDGED)"

lemmas step_defs = session_step_def item_step_def call_step_def

lemma step_refl [simp]: "session_step s s" "item_step i i" "call_step c c"
  by (simp_all add: step_defs)

lemma step_trans:
  "session_step s1 s2 \<Longrightarrow> session_step s2 s3 \<Longrightarrow> session_step s1 s3"
  "item_step i1 i2 \<Longrightarrow> item_step i2 i3 \<Longrightarrow> item_step i1 i3"
  "call_step c1 c2 \<Longrightarrow> call_step c2 c3 \<Longrightarrow> call_step c1 c3"
  by (simp_all add: step_defs)

text \<open>The row with a key is in one restaurant.\<close>

lemma of_unique:
  assumes "keys_ok d"
  shows "t \<in> set (tables d) \<Longrightarrow> table_of rid (t_id t) d \<Longrightarrow> t_restaurant_id t = rid"
    and "c \<in> set (staff_calls d) \<Longrightarrow> call_of rid (sc_id c) d \<Longrightarrow> sc_restaurant_id c = rid"
    and "k \<in> set (menu_categories d) \<Longrightarrow> category_of rid (mc_id k) d \<Longrightarrow> mc_restaurant_id k = rid"
    and "m \<in> set (menu_items d) \<Longrightarrow> menu_item_of rid (mi_id m) d \<Longrightarrow> mi_restaurant_id m = rid"
    and "u \<in> set (users d) \<Longrightarrow> user_of rid (u_id u) d \<Longrightarrow> u_restaurant_id u = rid"
  using unique_byD [OF keys_okD(4) [OF assms]] unique_byD [OF keys_okD(11) [OF assms]]
    unique_byD [OF keys_okD(6) [OF assms]] unique_byD [OF keys_okD(7) [OF assms]]
    unique_byD [OF keys_okD(3) [OF assms]]
  unfolding of_defs also_of_defs by metis+

section \<open>The interface\<close>

text \<open>The environment of a request whose gaps stay in a relation.\<close>

definition gaps_in :: "(database \<Rightarrow> database \<Rightarrow> bool) \<Rightarrow> env \<Rightarrow> bool" where
  "gaps_in R e \<longleftrightarrow> good_env e \<and> (\<forall>k d. db_inv d \<longrightarrow> R d (others e k d))"

locale row_writes =
  fixes R :: "database \<Rightarrow> database \<Rightarrow> bool"
    and may :: "uuid \<Rightarrow> bool"
  assumes R_refl: "R d d"
    and R_trans: "R d1 d2 \<Longrightarrow> R d2 d3 \<Longrightarrow> R d1 d3"
    and sessions_add: "may (ts_restaurant_id s) \<Longrightarrow> R d (d\<lparr>table_sessions := table_sessions d @ [s]\<rparr>)"
    and sessions_set: "(\<And>s. s \<in> set (table_sessions d) \<Longrightarrow> P s \<Longrightarrow> may (ts_restaurant_id s) \<and> session_step s (f s))
      \<Longrightarrow> R d (d\<lparr>table_sessions := sql_update P f (table_sessions d)\<rparr>)"
    and orders_add: "may (o_restaurant_id r) \<Longrightarrow> R d (d\<lparr>orders := orders d @ [r]\<rparr>)"
    and items_add: "(\<And>i. i \<in> set is \<Longrightarrow> may (oi_restaurant_id i)) \<Longrightarrow> R d (d\<lparr>order_items := order_items d @ is\<rparr>)"
    and items_set: "(\<And>i. i \<in> set (order_items d) \<Longrightarrow> Q i \<Longrightarrow> may (oi_restaurant_id i) \<and> item_step i (g i))
      \<Longrightarrow> R d (d\<lparr>order_items := sql_update Q g (order_items d)\<rparr>)"
    and calls_add: "may (sc_restaurant_id c) \<Longrightarrow> R d (d\<lparr>staff_calls := staff_calls d @ [c]\<rparr>)"
    and calls_set: "(\<And>c. c \<in> set (staff_calls d) \<Longrightarrow> P' c \<Longrightarrow> may (sc_restaurant_id c) \<and> call_step c (f' c))
      \<Longrightarrow> R d (d\<lparr>staff_calls := sql_update P' f' (staff_calls d)\<rparr>)"
    and tables_add: "may (t_restaurant_id t) \<Longrightarrow> R d (d\<lparr>tables := tables d @ [t]\<rparr>)"
    and tables_set: "(\<And>t. t \<in> set (tables d) \<Longrightarrow> Pt t \<Longrightarrow> may (t_restaurant_id t) \<and> t_id (ft t) = t_id t
        \<and> t_restaurant_id (ft t) = t_restaurant_id t)
      \<Longrightarrow> R d (d\<lparr>tables := sql_update Pt ft (tables d)\<rparr>)"
    and categories_add: "may (mc_restaurant_id k) \<Longrightarrow> R d (d\<lparr>menu_categories := menu_categories d @ [k]\<rparr>)"
    and categories_set: "(\<And>k. k \<in> set (menu_categories d) \<Longrightarrow> Pk k \<Longrightarrow> may (mc_restaurant_id k)
        \<and> mc_id (fk k) = mc_id k \<and> mc_restaurant_id (fk k) = mc_restaurant_id k)
      \<Longrightarrow> R d (d\<lparr>menu_categories := sql_update Pk fk (menu_categories d)\<rparr>)"
    and dishes_add: "may (mi_restaurant_id m) \<Longrightarrow> R d (d\<lparr>menu_items := menu_items d @ [m]\<rparr>)"
    and dishes_set: "(\<And>m. m \<in> set (menu_items d) \<Longrightarrow> Pm m \<Longrightarrow> may (mi_restaurant_id m)
        \<and> mi_id (fm m) = mi_id m \<and> mi_restaurant_id (fm m) = mi_restaurant_id m)
      \<Longrightarrow> R d (d\<lparr>menu_items := sql_update Pm fm (menu_items d)\<rparr>)"
    and settings_set: "(\<And>x. x \<in> set (restaurant_settings d) \<Longrightarrow> Ps x \<Longrightarrow> may (rs_restaurant_id x)
        \<and> rs_restaurant_id (fs x) = rs_restaurant_id x)
      \<Longrightarrow> R d (d\<lparr>restaurant_settings := sql_update Ps fs (restaurant_settings d)\<rparr>)"
    and users_set: "(\<And>u. u \<in> set (users d) \<Longrightarrow> Pu u \<Longrightarrow> may (u_restaurant_id u) \<and> u_id (fu u) = u_id u
        \<and> u_restaurant_id (fu u) = u_restaurant_id u)
      \<Longrightarrow> R d (d\<lparr>users := sql_update Pu fu (users d)\<rparr>)"

section \<open>The services stay in the relation\<close>

context row_writes begin

lemma gap:
  assumes "gaps_in R e" and "db_inv d"
  shows "R d (others e k d)" and "db_inv (others e k d)" and "grows d (others e k d)"
  using assms good_envD [of e d k] by (simp_all add: gaps_in_def)

lemma gap_trans:
  assumes "gaps_in R e" and "db_inv d" and "R d0 d"
  shows "R d0 (others e k d)"
  using gap(1) [OF assms(1,2)] R_trans [OF assms(3)] by blast

lemma open_session:
  assumes e: "gaps_in R e" and inv: "db_inv d" and t: "table_of rid tid d" and may: "may rid"
  shows "R d (snd (get_or_open e tid rid by_user d))"
proof -
  let ?s = "new_session e tid rid by_user"
  note g = good_envD
  note d1 = gap [OF e inv, of 0]
  have "db_inv d' \<and> R d d'" if "insert_session ?s (others e 0 d) = Inr d'" for d'
  proof -
    have "db_inv d'"
      using db_inv_insert_session [OF d1(2) that] session_shape_new growsD(1) [OF d1(3) t]
      by (simp add: new_session_def)
    moreover have "d' = (others e 0 d)\<lparr>table_sessions := table_sessions (others e 0 d) @ [?s]\<rparr>"
      using that by (simp add: insert_Inr)
    then have "R (others e 0 d) d'" using may by (simp add: sessions_add new_session_def)
    ultimately show ?thesis using R_trans [OF d1(1)] by blast
  qed
  then have "R d (others e 2 d')" if "insert_session ?s (others e 0 d) = Inr d'" for d'
    using that gap_trans [OF e] by blast
  moreover have "R d (others e 1 (others e 0 d))" using gap_trans [OF e d1(2,1)] .
  ultimately show ?thesis using d1(1)
    by (simp add: get_or_open_def Let_def R_refl split: sum.splits option.splits exn.splits)
qed

lemma touch:
  assumes inv: "db_inv d" and s: "session_of rid sid d" and may: "may rid"
  shows "R d (touch_session sid now d)"
proof -
  from s obtain x where x: "x \<in> set (table_sessions d)" "ts_id x = sid" "ts_restaurant_id x = rid"
    by (auto simp: session_of_def)
  have "s = x" if "s \<in> set (table_sessions d)" "ts_id s = sid" for s
    using unique_byD [OF keys_okD(8) [OF db_invD(1) [OF inv]] that(1) x(1)] that(2) x(2) by simp
  with x(3) may show ?thesis
    unfolding touch_session_def by (intro sessions_set) (auto simp: step_defs)
qed

lemma touch_of_order:
  assumes inv: "db_inv d" and o: "order_of rid oid d" and may: "may rid"
  shows "R d (touch_session_of_order oid now d)"
proof -
  from o obtain r where r: "r \<in> set (orders d)" "o_id r = oid" "o_restaurant_id r = rid"
    by (auto simp: order_of_def)
  then have "filter (\<lambda>x. o_id x = oid) (orders d) = [r]"
    using filter_unique [OF keys_okD(9) [OF db_invD(1) [OF inv]] r(1), of "\<lambda>_. True"] by simp
  then have "touch_session_of_order oid now d = touch_session (o_table_session_id r) now d"
    by (simp add: touch_session_of_order_def touch_session_def)
  moreover have "session_of rid (o_table_session_id r) d" using inv r by (auto simp: inv_defs)
  ultimately show ?thesis using touch [OF inv _ may] by simp
qed

lemma cas_item:
  assumes inv: "db_inv d" and c: "cas_item P f now d = Some (row, d')" and k: "keeps_item f"
    and may: "may rid" and ok: "\<And>i. P i \<Longrightarrow> item_step i (f i) \<and> oi_restaurant_id i = rid"
    and shape: "\<And>i. item_shape i \<Longrightarrow> P i \<Longrightarrow> item_shape (f i)"
  shows "R d d'"
  using c
proof (rule cas_item_Some)
  fix i
  assume i: "i \<in> set (order_items d)" "P i" "row = f i"
    and d': "d' = touch_session_of_order (oi_order_id row) now
      (d\<lparr>order_items := sql_update P f (order_items d)\<rparr>)"
  let ?d1 = "d\<lparr>order_items := sql_update P f (order_items d)\<rparr>"
  have "db_inv ?d1" using db_inv_update_items [OF inv k] shape by blast
  moreover have "order_of rid (oi_order_id row) ?d1"
    using inv i k ok [OF i(2)] by (auto simp: inv_defs order_of_def keeps_defs)
  moreover have "R d ?d1" using ok may by (intro items_set) auto
  ultimately show "R d d'" unfolding d' using touch_of_order [OF _ _ may] R_trans by blast
qed

lemma item_step_set_status:
  "item_transition now i to \<Longrightarrow> item_step i (set_status_set to actor now i)"
  by (auto simp: item_transition_simps step_defs set_status_set_def)

lemma status_change:
  assumes inv: "db_inv d" and s: "set_status item_id to actor rid now d = Inr (row, d')" and may: "may rid"
  shows "R d d'"
  using s
proof (rule set_status_Inr)
  fix i allowed
  assume to: "to \<noteq> CANCELLED" and a: "ALLOWED_FROM to = Some allowed"
    and c: "ItemState.cas_item (set_status_where item_id to rid allowed now) (set_status_set to actor now) now d
      = Some (row, d')"
  show "R d d'"
    by (rule cas_item [OF inv c keeps_set_status_set may])
      (auto simp: set_status_where_iff [OF a] to item_shape_set_status item_step_set_status)
qed

lemma item_step_cancel: "active (oi_status i) \<Longrightarrow> item_step i (cancel_set by_whom reason now i)"
  by (auto simp: step_defs cancel_set_def)

lemma item_cancel:
  assumes inv: "db_inv d" and c: "cancel_item item_id by_whom rid allowed reason now d = Inr (row, d')"
    and act: "\<And>s. s \<in> set allowed \<Longrightarrow> active s" and may: "may rid"
  shows "R d d'"
  using c
proof (rule cancel_item_Inr)
  fix i
  assume c: "ItemState.cas_item (cancel_where item_id rid allowed) (cancel_set by_whom reason now) now d
      = Some (row, d')"
  show "R d d'"
    by (rule cas_item [OF inv c keeps_cancel_set may])
      (auto simp: cancel_where_def intro: act item_shape_cancel item_step_cancel)
qed

text \<open>Closing or abandoning a session: its row, its unserved items, its pending calls.\<close>

lemma end_session:
  assumes inv: "db_inv d" and s: "s \<in> set (table_sessions d)" and may: "may (ts_restaurant_id s)"
    and f: "session_step s (f s)"
    and calls: "\<And>c. P c \<Longrightarrow> sc_table_session_id c = ts_id s"
    and g: "\<And>c. call_step c (g c)"
  shows "R d (d\<lparr>table_sessions := sql_update (\<lambda>x. ts_id x = ts_id s) f (table_sessions d),
    order_items := sql_update (unserved (ts_id s) d) (cancel_set BY_SYSTEM reason now) (order_items d),
    staff_calls := sql_update P g (staff_calls d)\<rparr>)"
proof -
  have only: "x = s" if "x \<in> set (table_sessions d)" "ts_id x = ts_id s" for x
    using unique_byD [OF keys_okD(8) [OF db_invD(1) [OF inv]] that(1) s that(2)] .
  have same: "rid = ts_restaurant_id s" if "session_of rid (ts_id s) d" for rid
    using that only by (auto simp: session_of_def)
  let ?d1 = "d\<lparr>table_sessions := sql_update (\<lambda>x. ts_id x = ts_id s) f (table_sessions d)\<rparr>"
  let ?d2 = "?d1\<lparr>order_items := sql_update (unserved (ts_id s) d) (cancel_set BY_SYSTEM reason now)
    (order_items ?d1)\<rparr>"
  have "R d ?d1" using only f may by (intro sessions_set) auto
  moreover have "R ?d1 ?d2"
  proof (rule items_set)
    fix i
    assume i: "i \<in> set (order_items ?d1)" "unserved (ts_id s) d i"
    then obtain r where r: "r \<in> set (orders d)" "o_id r = oi_order_id i" "o_table_session_id r = ts_id s"
      by (auto simp: unserved_def in_session_iff)
    have "order_of (oi_restaurant_id i) (oi_order_id i) d" using inv i(1) by (simp add: inv_defs)
    then obtain r' where "r' \<in> set (orders d)" "o_id r' = oi_order_id i"
      "o_restaurant_id r' = oi_restaurant_id i" by (auto simp: order_of_def)
    then have "o_restaurant_id r = oi_restaurant_id i"
      using unique_byD [OF keys_okD(9) [OF db_invD(1) [OF inv]] r(1), of r'] r(2) by simp
    moreover have "session_of (o_restaurant_id r) (o_table_session_id r) d"
      using inv r(1) by (simp add: inv_defs)
    ultimately have "oi_restaurant_id i = ts_restaurant_id s" using same r(3) by simp
    with may i(2) show "may (oi_restaurant_id i) \<and> item_step i (cancel_set BY_SYSTEM reason now i)"
      by (simp add: item_step_cancel unserved_active)
  qed
  moreover have "R ?d2 (?d2\<lparr>staff_calls := sql_update P g (staff_calls ?d2)\<rparr>)"
  proof (rule calls_set)
    fix c
    assume c: "c \<in> set (staff_calls ?d2)" "P c"
    have "session_of (sc_restaurant_id c) (sc_table_session_id c) d" using inv c(1) by (simp add: inv_defs)
    with calls [OF c(2)] same may g show "may (sc_restaurant_id c) \<and> call_step c (g c)" by simp
  qed
  ultimately have "R d (?d2\<lparr>staff_calls := sql_update P g (staff_calls ?d2)\<rparr>)"
    using R_trans by blast
  then show ?thesis by simp
qed

lemma settlement:
  assumes "db_inv d" and "s \<in> set (table_sessions d)" and "may (ts_restaurant_id s)"
    and "ts_status s \<noteq> CLOSED"
  shows "R d (settled (ts_id s) rid now d)"
  unfolding settled_def using assms
  by (intro end_session) (auto simp: step_defs close_with_def dismiss_where_def)

lemma abandonment:
  assumes "db_inv d" and "s \<in> set (table_sessions d)" and "may (ts_restaurant_id s)"
    and "ts_status s = OPEN"
  shows "R d (abandoned (ts_id s) rid now d)"
  unfolding abandoned_def using assms
  by (intro end_session) (auto simp: step_defs abandon_set_def dismiss_where_def)

lemma checking_out:
  assumes inv: "db_inv d" and c: "checkout im sid rid now d = Inr (res, d')" and may: "may rid"
  shows "R d d'"
proof (cases "\<exists>s \<in> set (table_sessions d). ts_id s = sid \<and> ts_restaurant_id s = rid")
  case False
  with c checkout_missing [of d sid rid im now] R_refl show ?thesis by auto
next
  case True
  then obtain s where s: "s \<in> set (table_sessions d)" "ts_id s = sid" "ts_restaurant_id s = rid" by blast
  with c checkout_existing [OF keys_okD(8) [OF db_invD(1) [OF inv]], of s im now]
  show ?thesis using settlement [OF inv s(1)] may R_refl by (auto split: if_splits)
qed

lemma reopening:
  assumes r: "reopen sid rid now d = Inr d'" and may: "may rid"
  shows "R d d'"
proof -
  from r have "d' = d\<lparr>table_sessions := sql_update (session_where sid rid ABANDONED) (restore_set now)
      (table_sessions d)\<rparr>"
    by (auto simp: reopen_def split: option.splits if_splits)
  then show ?thesis using may
    by (auto intro!: sessions_set simp: session_where_def step_defs restore_set_def)
qed

lemma restoring:
  assumes inv: "db_inv d" and e: "gaps_in R e" and may: "may rid"
  shows "R d (snd (restore e sid rid d))"
proof -
  note g = gap [OF e inv, of 3]
  have A: "R d d'" if "reopen sid rid (t_db e) (others e 3 d) = Inr d'" for d'
    using R_trans [OF g(1) reopening [OF that may]] .
  have B: "R d d'" if c: "close_abandoned sid rid (t_db e) (others e 3 d) = Inr (cs, amount, n, d')"
    for cs amount n d'
    using c
  proof (rule close_abandoned_Inr [OF g(2)])
    fix s
    assume "s \<in> set (table_sessions (others e 3 d))" "session_where sid rid ABANDONED s"
      "d' = settled sid rid (t_db e) (others e 3 d)"
    with settlement [OF g(2), of s rid "t_db e"] may show "R d d'"
      by (auto simp: session_where_def intro: R_trans [OF g(1)])
  qed
  show ?thesis using A B g(1)
    by (simp add: restore_def Let_def R_refl split: sum.splits option.splits prod.splits)
qed

lemma ordering:
  assumes inv: "db_inv d" and p: "place_order e rid s reqs ms d = Inr (order, ois, d')"
    and s: "session_of rid (ts_id s) d" and ms: "\<And>m. m \<in> set ms \<Longrightarrow> menu_item_of rid (mi_id m) d"
    and may: "may rid"
  shows "R d d'"
proof -
  note o = place_order_Inr [OF p]
  let ?d1 = "d\<lparr>orders := orders d @ [order]\<rparr>"
  let ?d2 = "?d1\<lparr>order_items := order_items ?d1 @ ois\<rparr>"
  have "R d ?d1" using may by (intro orders_add) (simp add: o(1))
  moreover have "R ?d1 ?d2"
    using may by (intro items_add) (auto simp: o(2) new_order_item_def dest!: new_order_items_set)
  moreover have "R ?d2 (touch_session (ts_id s) (t_py e) ?d2)"
  proof -
    from s obtain x where x: "x \<in> set (table_sessions d)" "ts_id x = ts_id s" "ts_restaurant_id x = rid"
      by (auto simp: session_of_def)
    have "y = x" if "y \<in> set (table_sessions d)" "ts_id y = ts_id s" for y
      using unique_byD [OF keys_okD(8) [OF db_invD(1) [OF inv]] that(1) x(1)] that(2) x(2) by simp
    with x(3) may show ?thesis
      unfolding touch_session_def by (intro sessions_set) (auto simp: step_defs)
  qed
  ultimately have "R d (touch_session (ts_id s) (t_py e) ?d2)" using R_trans by blast
  with o(3) show ?thesis by simp
qed

lemma calling:
  assumes inv: "db_inv (db w)" and e: "gaps_in R e" and s: "session_of rid sid (db w)" and may: "may rid"
  shows "R (db w) (db (snd (create_call e tid sid rid w)))"
proof -
  note g = gap [OF e inv, of 3]
  let ?d1 = "touch_session sid (t_db e) (others e 3 (db w))"
  have "R (db w) ?d1" using touch [OF g(2) growsD(2) [OF g(3) s] may] R_trans [OF g(1)] by blast
  moreover have "R ?d1 d'" if "insert_staff_call c ?d1 = Inr d'" "sc_restaurant_id c = rid" for c d'
    using that may by (auto simp: insert_Inr intro!: calls_add)
  ultimately have "R (db w) d'" if "insert_staff_call c ?d1 = Inr d'" "sc_restaurant_id c = rid" for c d'
    using that R_trans by blast
  then show ?thesis using g(1)
    by (auto simp: create_call_def Let_def R_refl split: sum.splits)
qed

lemma acknowledging:
  assumes inv: "db_inv (db w)" and e: "gaps_in R e" and may: "may rid"
  shows "R (db w) (db (snd (ack e call_id actor rid w)))"
proof -
  note g = gap [OF e inv, of 3]
  have "R (db w) ((others e 3 (db w))\<lparr>staff_calls := sql_update (\<lambda>c. sc_id c = call_id) (ack_set actor now)
      (staff_calls (others e 3 (db w)))\<rparr>)"
    if "filter (\<lambda>c. sc_id c = call_id \<and> sc_restaurant_id c = rid) (staff_calls (db w)) = [c0]" for now c0
  proof (rule R_trans [OF g(1)], rule calls_set)
    fix c
    assume c: "c \<in> set (staff_calls (others e 3 (db w)))" "sc_id c = call_id"
    have "call_of rid call_id (db w)" using filter_eq_SingletonD [OF that] by (auto simp: call_of_def)
    then have "call_of rid call_id (others e 3 (db w))" by (rule growsD(5) [OF g(3)])
    then have "sc_restaurant_id c = rid"
      using of_unique(2) [OF db_invD(1) [OF g(2)] c(1)] c(2) by simp
    with may show "may (sc_restaurant_id c) \<and> call_step c (ack_set actor now c)"
      by (auto simp: step_defs ack_set_def)
  qed
  then show ?thesis using g(1)
    by (auto simp: ack_def Let_def R_refl sql split: sum.splits option.splits)
qed

section \<open>The handlers of the guests\<close>

text \<open>All four begin by resolving the code and opening the session; \<open>rid_of\<close> is the restaurant.\<close>

lemma guest:
  assumes inv: "db_inv d" and e: "gaps_in R e" and t: "resolve_table qr d = Inr (t, r)"
    and may: "may (r_id r)" and g: "get_or_open e (t_id t) (r_id r) None d = (res, d')"
  shows "R d d'" and "db_inv d'" and "grows d d'"
    and "res = Inr (s, rb) \<Longrightarrow> session_of (r_id r) (ts_id s) d'"
proof -
  note tab = resolve_table_Inr(7) [OF t]
  have e': "good_env e" using e by (simp add: gaps_in_def)
  show "R d d'" using open_session [OF e inv tab may, of None] g by simp
  show "db_inv d'" "grows d d'" using db_inv_get_or_open [OF inv e' tab, of None] g by simp_all
  show "res = Inr (s, rb) \<Longrightarrow> session_of (r_id r) (ts_id s) d'"
    using get_or_open_session_of [OF inv e' tab] g by simp
qed

lemma snapshot:
  assumes inv: "db_inv (db w)" and e: "gaps_in R e"
    and may: "\<And>t r. resolve_table qr (db w) = Inr (t, r) \<Longrightarrow> may (r_id r)"
  shows "R (db w) (db (snd (get_session_snapshot e qr w)))"
proof -
  have "R (db w) d" if "resolve_table qr (db w) = Inr (t, r)"
    "get_or_open e (t_id t) (r_id r) None (db w) = (res, d)" for t r res d
    using guest(1) [OF inv e that(1) may [OF that(1)] that(2)] .
  then show ?thesis
    by (auto simp: get_session_snapshot_def R_refl split: sum.splits prod.splits)
qed

lemma refreshed:
  assumes e: "gaps_in R e" and "db_inv d" and "R d0 d" and "refresh_order e ord ois d = (x, d')"
  shows "R d0 d'"
  using refresh_order_keeps [of "\<lambda>d. db_inv d \<and> R d0 d" e d ord ois] gap(2) [OF e] gap_trans [OF e] assms(2-4)
  by auto

lemma order:
  assumes inv: "db_inv (db w)" and e: "gaps_in R e"
    and may: "\<And>t r. resolve_table qr (db w) = Inr (t, r) \<Longrightarrow> may (r_id r)"
  shows "R (db w) (db (snd (create_order e qr reqs w)))"
proof (cases "resolve_table qr (db w)")
  case (Inl x)
  then show ?thesis by (simp add: create_order_def R_refl)
next
  case (Inr p)
  obtain t r where p: "p = (t, r)" by (cases p)
  obtain res d where go: "get_or_open e (t_id t) (r_id r) None (db w) = (res, d)" by fastforce
  note may' = may [OF Inr [unfolded p]]
  note g = guest [OF inv e Inr [unfolded p] may' go]
  note d1 = gap [OF e g(2), of 3]
  have "R (db w) (others e 3 d)" using R_trans [OF g(1) d1(1)] .
  moreover have "R (db w) d2"
    if "place_order e (r_id r) s reqs ms (others e 3 d) = Inr (ord, ois, d2)"
      and "validate_items (r_id r) d reqs = Inr ms" and "res = Inr (s, rb)" for s ms ord ois d2 rb
  proof -
    have "session_of (r_id r) (ts_id s) (others e 3 d)" using growsD(2) [OF d1(3) g(4) [OF that(3)]] .
    moreover have "menu_item_of (r_id r) (mi_id m) (others e 3 d)" if "m \<in> set ms" for m
      using validate_items_mem [OF \<open>validate_items (r_id r) d reqs = Inr ms\<close> that] growsD(4) [OF d1(3)]
      by (fastforce simp: orderable_def menu_item_of_def)
    ultimately have "R (others e 3 d) d2" by (rule ordering [OF d1(2) that(1) _ _ may'])
    then show ?thesis using R_trans [OF \<open>R (db w) (others e 3 d)\<close>] by blast
  qed
  ultimately have "R (db w) d3"
    if "place_order e (r_id r) s reqs ms (others e 3 d) = Inr (ord, ois, d2)"
      and "validate_items (r_id r) d reqs = Inr ms" and "res = Inr (s, rb)"
      and "refresh_order e ord ois d2 = (x, d3)" for s ms ord ois d2 rb x d3
    using refreshed [OF e _ _ that(4)] that(1-3)
      db_inv_placed [OF inv _ Inr [unfolded p] _ that(2,1)] go e by (fastforce simp: gaps_in_def)
  with \<open>R (db w) (others e 3 d)\<close> show ?thesis using Inr p go g(1)
    by (auto simp: create_order_def Let_def R_refl split: sum.splits prod.splits)
qed

lemma guest_cancel:
  assumes inv: "db_inv (db w)" and e: "gaps_in R e"
    and may: "\<And>t r. resolve_table qr (db w) = Inr (t, r) \<Longrightarrow> may (r_id r)"
  shows "R (db w) (db (snd (cancel_item_customer e qr item_id reason w)))"
proof (cases "resolve_table qr (db w)")
  case (Inl x)
  then show ?thesis by (simp add: cancel_item_customer_def R_refl)
next
  case (Inr p)
  obtain t r where p: "p = (t, r)" by (cases p)
  obtain res d where go: "get_or_open e (t_id t) (r_id r) None (db w) = (res, d)" by fastforce
  note may' = may [OF Inr [unfolded p]]
  note g = guest [OF inv e Inr [unfolded p] may' go]
  note d1 = gap [OF e g(2), of 3]
  have 1: "R (db w) (others e 3 d)" using R_trans [OF g(1) d1(1)] .
  have "R (db w) d2" if "cancel_item item_id BY_CUSTOMER (r_id r) [PENDING] reason (t_db e) (others e 3 d)
      = Inr (i, d2)" for i d2
    using item_cancel [OF d1(2) that _ may'] R_trans [OF 1] by simp
  then show ?thesis using Inr p go g(1) 1
    by (auto simp: cancel_item_customer_def Let_def R_refl split: sum.splits prod.splits option.splits exn.splits)
qed

lemma guest_call:
  assumes inv: "db_inv (db w)" and e: "gaps_in R e"
    and may: "\<And>t r. resolve_table qr (db w) = Inr (t, r) \<Longrightarrow> may (r_id r)"
  shows "R (db w) (db (snd (call_staff e qr w)))"
proof (cases "resolve_table qr (db w)")
  case (Inl x)
  then show ?thesis by (simp add: call_staff_def R_refl)
next
  case (Inr p)
  obtain t r where p: "p = (t, r)" by (cases p)
  obtain res d where go: "get_or_open e (t_id t) (r_id r) None (db w) = (res, d)" by fastforce
  note may' = may [OF Inr [unfolded p]]
  note g = guest [OF inv e Inr [unfolded p] may' go]
  have "R (db w) (db w')" if "create_call e (t_id t) (ts_id s) (r_id r) (w\<lparr>db := d\<rparr>) = (x, w')"
    "res = Inr (s, rb)" for s x w' rb
    using calling [of "w\<lparr>db := d\<rparr>" e "r_id r" "ts_id s" "t_id t"] g(2) e g(4) [OF that(2)] may' that(1)
      R_trans [OF g(1)] by simp
  then show ?thesis using Inr p go g(1)
    by (auto simp: call_staff_def R_refl split: sum.splits prod.splits option.splits)
qed

section \<open>The handlers of the kitchen and the staff\<close>

lemma kitchen_status:
  assumes inv: "db_inv (db w)" and e: "gaps_in R e" and may: "may (tp_restaurant_id user)"
  shows "R (db w) (db (snd (set_item_status e item_id to user w)))"
proof -
  note g = gap [OF e inv, of 3]
  have 1: "R (db w) d2" "R (db w) (others e 2 d2)"
    if "set_status item_id to (Some (tp_sub user)) (tp_restaurant_id user) (t_db e) (others e 3 (db w))
      = Inr (i, d2)" for i d2
  proof -
    show "R (db w) d2" using status_change [OF g(2) that may] R_trans [OF g(1)] by blast
    then show "R (db w) (others e 2 d2)" using gap_trans [OF e db_inv_set_status [OF g(2) that]] by blast
  qed
  then show ?thesis using g(1)
    by (auto simp: set_item_status_def Let_def R_refl split: sum.splits option.splits exn.splits)
qed

lemma staff_cancel:
  assumes inv: "db_inv (db w)" and e: "gaps_in R e" and may: "may (tp_restaurant_id user)"
  shows "R (db w) (db (snd (cancel_item_staff e item_id user reason w)))"
proof -
  note g = gap [OF e inv, of 3]
  have 1: "R (db w) d2" "R (db w) (others e 2 d2)"
    if c: "cancel_item item_id BY_STAFF (tp_restaurant_id user) [PENDING, COOKING, READY] reason (t_db e)
      (others e 3 (db w)) = Inr (i, d2)" for i d2
  proof -
    have act: "active s" if "s \<in> set [PENDING, COOKING, READY]" for s using that by auto
    show "R (db w) d2" using item_cancel [OF g(2) c act may] R_trans [OF g(1)] by blast
    then show "R (db w) (others e 2 d2)" using gap_trans [OF e db_inv_cancel_item [OF g(2) c act]] by blast
  qed
  then show ?thesis using g(1)
    by (auto simp: cancel_item_staff_def Let_def R_refl split: sum.splits option.splits exn.splits)
qed

lemma staff_ack:
  assumes "db_inv (db w)" and "gaps_in R e" and "may (tp_restaurant_id user)"
  shows "R (db w) (db (snd (ack_staff_call e call_id user w)))"
  using acknowledging [OF assms, of call_id "tp_sub user"]
  by (auto simp: ack_staff_call_def split: prod.splits sum.splits exn.splits)

lemma staff_open:
  assumes inv: "db_inv (db w)" and e: "gaps_in R e" and may: "may (tp_restaurant_id user)"
  shows "R (db w) (db (snd (open_table e table_id user w)))"
proof -
  have "R (db w) d" if "get_or_open e (t_id t) (tp_restaurant_id user) u (db w) = (res, d)"
    "filter (\<lambda>t. t_id t = table_id \<and> t_restaurant_id t = tp_restaurant_id user) (tables (db w)) = [t]"
    for t u res d
  proof -
    have "table_of (tp_restaurant_id user) (t_id t) (db w)"
      using filter_eq_SingletonD [OF that(2)] by (auto simp: table_of_def)
    from open_session [OF e inv this may, of u] that(1) show ?thesis by simp
  qed
  then show ?thesis
    by (auto simp: open_table_def sql R_refl split: sum.splits option.splits prod.splits)
qed

lemma staff_checkout:
  assumes inv: "db_inv (db w)" and e: "gaps_in R e" and may: "may (tp_restaurant_id user)"
  shows "R (db w) (db (snd (checkout_session e session_id user w)))"
proof -
  note g = gap [OF e inv, of 3]
  have "R (db w) d2" if "checkout im session_id (tp_restaurant_id user) (t_db e) (others e 3 (db w))
      = Inr (r, d2)" for im r d2
    using checking_out [OF g(2) that may] R_trans [OF g(1)] by blast
  then show ?thesis using g(1)
    by (auto simp: checkout_session_def Let_def R_refl split: sum.splits option.splits prod.splits)
qed

lemma staff_restore:
  assumes "db_inv (db w)" and "gaps_in R e" and "may (tp_restaurant_id user)"
  shows "R (db w) (db (snd (restore_session e session_id user w)))"
  using restoring [OF assms, of session_id]
  by (auto simp: restore_session_def split: sum.splits option.splits prod.splits exn.splits)

section \<open>The handlers of the admin\<close>

lemma admin_new_table:
  assumes inv: "db_inv (db w)" and e: "gaps_in R e" and may: "may (tp_restaurant_id user)"
  shows "R (db w) (db (snd (fst (create_table e base_url render cfg api qr n user w st))))"
proof -
  note g = gap [OF e inv, of 3]
  let ?set = "\<lambda>t d u. d\<lparr>tables := sql_update (\<lambda>x. t_id x = t_id t) (\<lambda>x. x\<lparr>t_qr_image_url := u\<rparr>) (tables d)\<rparr>"
  have "R (db w) (others e 2 (d\<lparr>tables := sql_update (\<lambda>x. t_id x = i) (\<lambda>x. x\<lparr>t_qr_image_url := u\<rparr>) (tables d)\<rparr>))"
    if i: "insert_table t (others e 3 (db w)) = Inr d" and t: "t_restaurant_id t = tp_restaurant_id user"
      and "t_id t = i" for t d u i
  proof -
    note ins = insert_table_Inr [OF i]
    have d: "db_inv d" using db_inv_insert_table [OF g(2) i] .
    have only: "x = t" if "x \<in> set (tables d)" "t_id x = t_id t" for x
      using unique_byD [OF keys_okD(4) [OF db_invD(1) [OF d]] that(1) _ that(2)] ins(1) by simp
    have "R (others e 3 (db w)) d" unfolding ins(1) using may t by (intro tables_add) simp
    moreover have "R d (?set t d u)"
    proof (rule tables_set)
      fix x
      assume "x \<in> set (tables d)" "t_id x = t_id t"
      then have "x = t" by (rule only)
      with may t show "may (t_restaurant_id x) \<and> t_id (x\<lparr>t_qr_image_url := u\<rparr>) = t_id x
        \<and> t_restaurant_id (x\<lparr>t_qr_image_url := u\<rparr>) = t_restaurant_id x" by simp
    qed
    ultimately have "R (db w) (?set t d u)" using R_trans [OF g(1)] R_trans by blast
    moreover have "db_inv (?set t d u)" using d by (simp add: inv_defs table_of_update unique_by_sql_update)
    ultimately show ?thesis using gap_trans [OF e] that(3) by blast
  qed
  then show ?thesis using g(1)
    by (auto simp: create_table_def answer_table_def Let_def R_refl split: sum.splits prod.splits)
qed

lemma table_update:
  assumes e: "gaps_in R e" and inv: "db_inv (db w)"
    and find: "find_table i rid (db w) = Inr (Some t0)" and may: "may rid"
    and u: "update_table_row i f (others e 3 (db w)) = Inr d"
    and f: "\<And>t. t_id (f t) = t_id t \<and> t_restaurant_id (f t) = t_restaurant_id t"
  shows "R (db w) (others e 2 d)"
proof -
  note g = gap [OF e inv, of 3]
  have "table_of rid i (db w)"
    using find filter_eq_SingletonD by (fastforce simp: find_table_def sql table_of_def)
  then have "table_of rid i (others e 3 (db w))" by (rule growsD(1) [OF g(3)])
  then have "t_restaurant_id t = rid" if "t \<in> set (tables (others e 3 (db w)))" "t_id t = i" for t
    using of_unique(1) [OF db_invD(1) [OF g(2)] that(1)] that(2) by simp
  moreover have "d = (others e 3 (db w))\<lparr>tables := sql_update (\<lambda>t. t_id t = i) f (tables (others e 3 (db w)))\<rparr>"
    using u by (auto simp: update_table_row_def Let_def split: if_splits option.splits)
  ultimately have "R (others e 3 (db w)) d" using may f by (auto intro!: tables_set)
  then have "R (db w) d" by (rule R_trans [OF g(1)])
  with gap_trans [OF e db_inv_update_table [OF g(2) u f]] show ?thesis by blast
qed

lemma admin_table:
  assumes inv: "db_inv (db w)" and e: "gaps_in R e" and may: "may (tp_restaurant_id user)"
  shows "R (db w) (db (snd (update_table e i body user w)))"
proof -
  have "R (db w) (others e 2 d)" if "update_table_row i (patch_table body t) (others e 3 (db w)) = Inr d"
    "find_table i (tp_restaurant_id user) (db w) = Inr (Some t)" for t d
    using table_update [OF e inv that(2) may that(1)] by (simp add: patch_table_def)
  with gap(1) [OF e inv] show ?thesis
    by (auto simp: update_table_def answer_table_def Let_def R_refl split: sum.splits option.splits)
qed

lemma admin_qr:
  assumes inv: "db_inv (db w)" and e: "gaps_in R e" and may: "may (tp_restaurant_id user)"
  shows "R (db w) (db (snd (fst (regenerate_qr e base_url render cfg api qr i user w st))))"
proof -
  have "R (db w) (others e 2 d)" if "update_table_row i (new_qr a b t) (others e 3 (db w)) = Inr d"
    "find_table i (tp_restaurant_id user) (db w) = Inr (Some t)" for a b t d
    using table_update [OF e inv that(2) may that(1)] by (simp add: new_qr_def)
  with gap(1) [OF e inv] show ?thesis
    by (auto simp: regenerate_qr_def answer_table_def Let_def R_refl
        split: sum.splits option.splits prod.splits)
qed

lemma admin_settings:
  assumes inv: "db_inv (db w)" and e: "gaps_in R e" and may: "may (tp_restaurant_id user)"
  shows "R (db w) (db (snd (update_settings e body user w)))"
proof -
  note g = gap [OF e inv, of 3]
  let ?d2 = "\<lambda>s. (others e 3 (db w))\<lparr>restaurant_settings := sql_update (\<lambda>x. rs_restaurant_id x = rs_restaurant_id s)
    (patch_settings body (t_db e) s) (restaurant_settings (others e 3 (db w)))\<rparr>"
  have "R (db w) (others e 2 (?d2 s))" if "find_settings (tp_restaurant_id user) (db w) = Inr (Some s)" for s
  proof -
    have "rs_restaurant_id s = tp_restaurant_id user"
      using that filter_eq_SingletonD by (fastforce simp: find_settings_def sql)
    then have "R (others e 3 (db w)) (?d2 s)" using may by (intro settings_set) (simp add: patch_settings_def)
    moreover have "db_inv (?d2 s)" using g(2) by (simp add: inv_defs unique_by_sql_update patch_settings_def)
    ultimately show ?thesis using R_trans [OF g(1)] gap_trans [OF e] by blast
  qed
  with g(1) show ?thesis
    by (auto simp: update_settings_def Let_def R_refl split: sum.splits option.splits)
qed

lemma admin_pin:
  assumes inv: "db_inv (db w)" and e: "gaps_in R e" and may: "may (tp_restaurant_id user)"
  shows "R (db w) (db (snd (reset_staff_pin bc salt e pin user w)))"
proof -
  note g = gap [OF e inv, of 3]
  have "R (db w) ((others e 3 (db w))\<lparr>users := sql_update (\<lambda>x. u_id x = u_id u)
      (\<lambda>x. x\<lparr>u_pin_hash := h\<rparr>) (users (others e 3 (db w)))\<rparr>)"
    if "scalar_one_or_none (active_staff (tp_restaurant_id user) (db w)) = Inr (Some u)" for u h
  proof (rule R_trans [OF g(1)], rule users_set)
    fix x
    assume x: "x \<in> set (users (others e 3 (db w)))" "u_id x = u_id u"
    have "user_of (tp_restaurant_id user) (u_id u) (db w)"
      using that filter_eq_SingletonD by (fastforce simp: active_staff_def sql user_of_def)
    then have "user_of (tp_restaurant_id user) (u_id u) (others e 3 (db w))" by (rule growsD(7) [OF g(3)])
    then have "u_restaurant_id x = tp_restaurant_id user"
      using of_unique(5) [OF db_invD(1) [OF g(2)] x(1)] x(2) by simp
    with may show "may (u_restaurant_id x) \<and> u_id (x\<lparr>u_pin_hash := h\<rparr>) = u_id x
      \<and> u_restaurant_id (x\<lparr>u_pin_hash := h\<rparr>) = u_restaurant_id x" by simp
  qed
  with g(1) show ?thesis
    by (auto simp: reset_staff_pin_def Let_def R_refl split: sum.splits option.splits)
qed

lemma admin_new_category:
  assumes inv: "db_inv (db w)" and e: "gaps_in R e" and may: "may (tp_restaurant_id user)"
  shows "R (db w) (db (snd (create_menu_category e body user w)))"
proof -
  have "R (db w) (others e 2 d)" if "insert_menu_category c (db w) = Inr d"
    "mc_restaurant_id c = tp_restaurant_id user" for c d
  proof -
    have "d = (db w)\<lparr>menu_categories := menu_categories (db w) @ [c]\<rparr>"
      using that(1) by (auto simp: insert_menu_category_def split: if_splits option.splits)
    then have "R (db w) d" using may that(2) by (auto intro: categories_add)
    with gap_trans [OF e db_inv_insert_menu_category [OF inv that(1)]] show ?thesis by blast
  qed
  then show ?thesis
    by (auto simp: create_menu_category_def answer_category_def Let_def R_refl split: sum.splits)
qed

lemma admin_category:
  assumes inv: "db_inv (db w)" and e: "gaps_in R e" and may: "may (tp_restaurant_id user)"
  shows "R (db w) (db (snd (update_menu_category e i body user w)))"
proof -
  note g = gap [OF e inv, of 3]
  let ?f = "patch_category body"
  have f: "mc_id (?f c x) = mc_id x" "mc_restaurant_id (?f c x) = mc_restaurant_id x" for c x
    by (simp_all add: patch_category_def)
  have "R (db w) (others e 2 d)" if u: "update_category_row i (?f c) (others e 3 (db w)) = Inr d"
    and c: "filter (\<lambda>c. mc_id c = i \<and> mc_restaurant_id c = tp_restaurant_id user) (menu_categories (db w)) = [c]"
    for c d
  proof -
    have "category_of (tp_restaurant_id user) i (db w)"
      using filter_eq_SingletonD [OF c] by (auto simp: category_of_def)
    then have "category_of (tp_restaurant_id user) i (others e 3 (db w))" by (rule growsD(6) [OF g(3)])
    then have own: "mc_restaurant_id k = tp_restaurant_id user"
      if "k \<in> set (menu_categories (others e 3 (db w)))" "mc_id k = i" for k
      using of_unique(3) [OF db_invD(1) [OF g(2)] that(1)] that(2) by simp
    have "d = (others e 3 (db w))\<lparr>menu_categories := sql_update (\<lambda>c. mc_id c = i) (?f c)
        (menu_categories (others e 3 (db w)))\<rparr>"
      using u by (auto simp: update_category_row_def Let_def split: if_splits)
    then have "R (others e 3 (db w)) d" using own may f by (auto intro!: categories_set)
    then have "R (db w) d" by (rule R_trans [OF g(1)])
    with gap_trans [OF e db_inv_update_category [OF g(2) u f(1)]] show ?thesis by blast
  qed
  with g(1) show ?thesis
    by (auto simp: update_menu_category_def answer_category_def Let_def R_refl sql
        split: sum.splits option.splits)
qed

lemma admin_new_item:
  assumes inv: "db_inv (db w)" and e: "gaps_in R e" and may: "may (tp_restaurant_id user)"
  shows "R (db w) (db (snd (create_menu_item e body user w)))"
proof -
  note g = gap [OF e inv, of 3]
  have "R (db w) (others e 2 d)" if i: "insert_menu_item m (others e 3 (db w)) = Inr d"
    "mi_restaurant_id m = tp_restaurant_id user" for m d
  proof -
    have "d = (others e 3 (db w))\<lparr>menu_items := menu_items (others e 3 (db w)) @ [m]\<rparr>"
      using i(1) by (auto simp: insert_menu_item_def simp del: check_None_iff split: if_splits option.splits)
    then have "R (others e 3 (db w)) d" using may i(2) by (auto intro: dishes_add)
    then have "R (db w) d" by (rule R_trans [OF g(1)])
    with gap_trans [OF e db_inv_insert_menu_item [OF g(2) i(1)]] show ?thesis by blast
  qed
  then have "R (db w) (others e 2 d)"
    if "insert_menu_item (new_menu_item e (tp_restaurant_id user) body) (others e 3 (db w)) = Inr d" for d
    using that by (simp add: new_menu_item_def)
  with g(1) show ?thesis
    by (auto simp: create_menu_item_def answer_item_def Let_def R_refl split: sum.splits)
qed

lemma own_item:
  assumes inv: "db_inv d" and "get_own_item i rid d = Inr m"
  shows "menu_item_of rid i d" and "mi_id m = i" and "mi_restaurant_id m = rid"
proof -
  from assms(2) have "filter (\<lambda>m. mi_id m = i \<and> mi_restaurant_id m = rid) (menu_items d) = [m]"
    by (auto simp: get_own_item_def sql split: sum.splits option.splits)
  from filter_eq_SingletonD [OF this] show "menu_item_of rid i d" "mi_id m = i" "mi_restaurant_id m = rid"
    by (auto simp: menu_item_of_def)
qed

lemma item_write:
  assumes e: "gaps_in R e" and inv: "db_inv d" and own: "get_own_item i rid d = Inr m" and may: "may rid"
    and f: "\<And>x. mi_id (f x) = mi_id x \<and> mi_restaurant_id (f x) = mi_restaurant_id x"
  shows "R d (others e 2 ((others e 3 d)\<lparr>menu_items := sql_update (\<lambda>x. mi_id x = i) f (menu_items (others e 3 d))\<rparr>))"
proof -
  note g = gap [OF e inv, of 3]
  have "menu_item_of rid i (others e 3 d)" using growsD(4) [OF g(3) own_item(1) [OF inv own]] .
  then have "mi_restaurant_id k = rid" if "k \<in> set (menu_items (others e 3 d))" "mi_id k = i" for k
    using of_unique(4) [OF db_invD(1) [OF g(2)] that(1)] that(2) by simp
  then have "R (others e 3 d) ((others e 3 d)\<lparr>menu_items := sql_update (\<lambda>x. mi_id x = i) f
      (menu_items (others e 3 d))\<rparr>)"
    using may f by (intro dishes_set) auto
  then have "R d ((others e 3 d)\<lparr>menu_items := sql_update (\<lambda>x. mi_id x = i) f (menu_items (others e 3 d))\<rparr>)"
    by (rule R_trans [OF g(1)])
  with gap_trans [OF e db_inv_update_menu_items [OF g(2) f]] show ?thesis by blast
qed

lemma admin_item:
  assumes inv: "db_inv (db w)" and e: "gaps_in R e" and may: "may (tp_restaurant_id user)"
  shows "R (db w) (db (snd (update_menu_item e i body user w)))"
proof -
  note g = gap [OF e inv, of 3]
  have "R (db w) (others e 2 d)"
    if u: "update_menu_item_row i (patch_menu_item body (t_db e) m) (others e 3 (db w)) = Inr d"
      and own: "get_own_item i (tp_restaurant_id user) (db w) = Inr m" for m d
  proof -
    have "d = others e 3 (db w) \<or> d = (others e 3 (db w))\<lparr>menu_items := sql_update (\<lambda>x. mi_id x = i)
        (patch_menu_item body (t_db e) m) (menu_items (others e 3 (db w)))\<rparr>"
      using u by (auto simp: update_menu_item_row_def simp del: check_None_iff split: option.splits)
    then show ?thesis using item_write [OF e inv own may] gap_trans [OF e g(2,1)] by auto
  qed
  with g(1) show ?thesis
    by (auto simp: update_menu_item_def answer_item_def Let_def R_refl split: sum.splits)
qed

lemma admin_photo:
  assumes inv: "db_inv (db w)" and e: "gaps_in R e" and may: "may (tp_restaurant_id user)"
  shows "R (db w) (db (snd (fst (upload_menu_item_image e pil cfg api i ct file user w st))))"
    and "R (db w) (db (snd (fst (delete_menu_item_image e cfg api i user w st))))"
proof -
  note g = gap [OF e inv, of 3]
  have w: "R (db w) (others e 2 ((others e 3 (db w))\<lparr>menu_items := sql_update (\<lambda>x. mi_id x = mi_id m)
      (set_images a b now m) (menu_items (others e 3 (db w)))\<rparr>))"
    if "get_own_item i (tp_restaurant_id user) (db w) = Inr m" for m a b now
    using item_write [OF e inv that may] own_item(2) [OF inv that] by simp
  have after: "db (snd (fst (discard_after cfg api m (x, w') st'))) = db w'"
    for cfg api m w' st' and x :: "'x result"
    by (simp add: discard_after_def split: sum.split)
  have ans: "db (snd (fst (discard_after cfg api m (answer_item e j d w) st'))) = others e 2 d"
    for cfg api m j d st'
    by (simp add: answer_item_def Let_def after)
  show "R (db w) (db (snd (fst (upload_menu_item_image e pil cfg api i ct file user w st))))"
    unfolding upload_menu_item_image_def Let_def
    by (auto simp: R_refl g(1) ans w split: sum.splits option.splits prod.splits)
  show "R (db w) (db (snd (fst (delete_menu_item_image e cfg api i user w st))))"
    using w by (auto simp: delete_menu_item_image_def Let_def R_refl ans split: sum.splits)
qed

section \<open>The sweep\<close>

lemma sweep_rows:
  assumes all: "\<And>r. may r" and e: "\<And>k. gaps_in R (es k)" and "db_inv (db w)"
  shows "R (db w) (db (sweep_rows es fails k rows w))"
  using assms(3)
proof (induction rows arbitrary: k w)
  case Nil
  then show ?case by (simp add: R_refl)
next
  case (Cons row rows)
  obtain sid rid where row: "row = (sid, rid)" by (cases row)
  note g = gap [OF e Cons.prems, of k 3]
  let ?w1 = "w\<lparr>db := others (es k) 3 (db w)\<rparr>"
  let ?w2 = "if fails sid then ?w1 else abandon_session (es k) sid rid ?w1"
  have inv1: "db_inv (db ?w1)" using g(2) by simp
  have "R (db ?w1) (db (abandon_session (es k) sid rid ?w1))"
    using abandon_session_cases [OF inv1, of "es k" sid rid] abandonment [OF inv1 _ all] R_refl by auto
  then have "R (others (es k) 3 (db w)) (db (abandon_session (es k) sid rid ?w1))" by simp
  from R_trans [OF g(1) this] g(1) have "R (db w) (db ?w2)" by simp
  moreover have "db_inv (db ?w2)" using g(2) by (simp add: db_inv_abandon_session)
  then have "R (db ?w2) (db (sweep_rows es fails (Suc k) rows ?w2))" by (rule Cons.IH)
  ultimately have "R (db w) (db (sweep_rows es fails (Suc k) rows ?w2))" by (rule R_trans)
  then show ?case by (simp add: row Let_def)
qed

lemma sweep:
  assumes "\<And>r. may r" and "\<And>k. gaps_in R (es k)" and "db_inv (db w)"
  shows "R (db w) (db (snd (run_sweep es fails now w)))"
  using sweep_rows [OF assms] by (simp add: run_sweep_def R_refl split: sum.splits)

end

end
