(* ===== verification/History.thy ===== *)
theory History imports Evolution begin

text \<open>
  The two interpretations of \<open>row_writes\<close>. \<open>evolves\<close> is what the tables may become: rows are
  never deleted, a closed session keeps its bill, a cancelled item is final, the snapshots of an
  ordered item do not change. \<open>leaves_others r\<close> is what a request of restaurant \<open>r\<close> may do: the rows
  of all other restaurants stay as they are.
\<close>

section \<open>History is preserved\<close>

definition later :: "('a \<Rightarrow> 'a \<Rightarrow> bool) \<Rightarrow> 'a list \<Rightarrow> 'a list \<Rightarrow> bool" where
  "later step xs ys \<longleftrightarrow> (\<forall>x \<in> set xs. \<exists>y \<in> set ys. step x y)"

lemma later_append: "(\<And>x. step x x) \<Longrightarrow> later step xs (xs @ ys)"
  by (auto simp: later_def)

lemma later_refl: "(\<And>x. step x x) \<Longrightarrow> later step xs xs"
  by (auto simp: later_def)

lemma later_trans:
  assumes "transp step" and "later step xs ys" and "later step ys zs"
  shows "later step xs zs"
  using assms unfolding later_def by (meson transpD)

lemma later_update:
  assumes "\<And>x. step x x" and "\<And>x. x \<in> set xs \<Longrightarrow> P x \<Longrightarrow> step x (f x)"
  shows "later step xs (sql_update P f xs)"
proof -
  have "\<exists>y \<in> set (sql_update P f xs). step x y" if "x \<in> set xs" for x
    using assms that by (cases "P x") (force simp: sql_update_def)+
  then show ?thesis by (simp add: later_def)
qed

definition same_key :: "('a \<Rightarrow> 'k) \<Rightarrow> 'a \<Rightarrow> 'a \<Rightarrow> bool" where
  "same_key k x y \<longleftrightarrow> k y = k x"

lemma same_key_refl [simp]: "same_key k x x"
  by (simp add: same_key_def)

lemma same_key_trans: "same_key k x y \<Longrightarrow> same_key k y z \<Longrightarrow> same_key k x z"
  by (simp add: same_key_def)

text \<open>The later database has the same restaurants and a later version of every row of the earlier one.\<close>

definition evolves :: "database \<Rightarrow> database \<Rightarrow> bool" where
  "evolves d d' \<longleftrightarrow> restaurants d' = restaurants d
     \<and> later session_step (table_sessions d) (table_sessions d')
     \<and> later (=) (orders d) (orders d')
     \<and> later item_step (order_items d) (order_items d')
     \<and> later call_step (staff_calls d) (staff_calls d')
     \<and> later (same_key (\<lambda>t. (t_id t, t_restaurant_id t))) (tables d) (tables d')
     \<and> later (same_key (\<lambda>k. (mc_id k, mc_restaurant_id k))) (menu_categories d) (menu_categories d')
     \<and> later (same_key (\<lambda>m. (mi_id m, mi_restaurant_id m))) (menu_items d) (menu_items d')
     \<and> later (same_key (\<lambda>u. (u_id u, u_restaurant_id u))) (users d) (users d')
     \<and> later (same_key rs_restaurant_id) (restaurant_settings d) (restaurant_settings d')"

lemma evolves_refl: "evolves d d"
  by (simp add: evolves_def later_refl)

lemma transp_steps:
  "transp session_step" "transp item_step" "transp call_step" "transp (=)" "transp (same_key k)"
  by (auto intro!: transpI dest: step_trans same_key_trans)

lemma evolves_trans:
  assumes "evolves d1 d2" and "evolves d2 d3"
  shows "evolves d1 d3"
  unfolding evolves_def
proof (intro conjI)
  note e = assms [unfolded evolves_def]
  show "restaurants d3 = restaurants d1" using e by argo
  show "later session_step (table_sessions d1) (table_sessions d3)"
    by (rule later_trans [where ys = "table_sessions d2"]) (rule transp_steps | use e in argo)+
  show "later (=) (orders d1) (orders d3)"
    by (rule later_trans [where ys = "orders d2"]) (rule transp_steps | use e in argo)+
  show "later item_step (order_items d1) (order_items d3)"
    by (rule later_trans [where ys = "order_items d2"]) (rule transp_steps | use e in argo)+
  show "later call_step (staff_calls d1) (staff_calls d3)"
    by (rule later_trans [where ys = "staff_calls d2"]) (rule transp_steps | use e in argo)+
  show "later (same_key (\<lambda>t. (t_id t, t_restaurant_id t))) (tables d1) (tables d3)"
    by (rule later_trans [where ys = "tables d2"]) (rule transp_steps | use e in argo)+
  show "later (same_key (\<lambda>k. (mc_id k, mc_restaurant_id k))) (menu_categories d1) (menu_categories d3)"
    by (rule later_trans [where ys = "menu_categories d2"]) (rule transp_steps | use e in argo)+
  show "later (same_key (\<lambda>m. (mi_id m, mi_restaurant_id m))) (menu_items d1) (menu_items d3)"
    by (rule later_trans [where ys = "menu_items d2"]) (rule transp_steps | use e in argo)+
  show "later (same_key (\<lambda>u. (u_id u, u_restaurant_id u))) (users d1) (users d3)"
    by (rule later_trans [where ys = "users d2"]) (rule transp_steps | use e in argo)+
  show "later (same_key rs_restaurant_id) (restaurant_settings d1) (restaurant_settings d3)"
    by (rule later_trans [where ys = "restaurant_settings d2"]) (rule transp_steps | use e in argo)+
qed

lemma evolves_grows: "evolves d d' \<Longrightarrow> grows d d'"
  unfolding evolves_def grows_def later_def step_defs same_key_def of_defs also_of_defs
  by (intro allI conjI impI; elim conjE bexE) (metis prod.inject)+

interpretation history: row_writes evolves "\<lambda>_. True"
proof
  show "evolves d1 d2 \<Longrightarrow> evolves d2 d3 \<Longrightarrow> evolves d1 d3" for d1 d2 d3 by (rule evolves_trans)
qed (simp_all add: evolves_def later_refl later_append later_update same_key_def)

section \<open>Other tenants are left alone\<close>

text \<open>The rows of every restaurant but \<open>r\<close> are the same, in the same order.\<close>

definition same_rows :: "uuid \<Rightarrow> database \<Rightarrow> database \<Rightarrow> bool" where
  "same_rows r d d' \<longleftrightarrow>
     filter (\<lambda>x. r_id x = r) (restaurants d') = filter (\<lambda>x. r_id x = r) (restaurants d)
     \<and> filter (\<lambda>x. rs_restaurant_id x = r) (restaurant_settings d')
         = filter (\<lambda>x. rs_restaurant_id x = r) (restaurant_settings d)
     \<and> filter (\<lambda>x. u_restaurant_id x = r) (users d') = filter (\<lambda>x. u_restaurant_id x = r) (users d)
     \<and> filter (\<lambda>x. t_restaurant_id x = r) (tables d') = filter (\<lambda>x. t_restaurant_id x = r) (tables d)
     \<and> filter (\<lambda>x. mc_restaurant_id x = r) (menu_categories d')
         = filter (\<lambda>x. mc_restaurant_id x = r) (menu_categories d)
     \<and> filter (\<lambda>x. mi_restaurant_id x = r) (menu_items d')
         = filter (\<lambda>x. mi_restaurant_id x = r) (menu_items d)
     \<and> filter (\<lambda>x. ts_restaurant_id x = r) (table_sessions d')
         = filter (\<lambda>x. ts_restaurant_id x = r) (table_sessions d)
     \<and> filter (\<lambda>x. o_restaurant_id x = r) (orders d') = filter (\<lambda>x. o_restaurant_id x = r) (orders d)
     \<and> filter (\<lambda>x. oi_restaurant_id x = r) (order_items d')
         = filter (\<lambda>x. oi_restaurant_id x = r) (order_items d)
     \<and> filter (\<lambda>x. sc_restaurant_id x = r) (staff_calls d')
         = filter (\<lambda>x. sc_restaurant_id x = r) (staff_calls d)"

definition leaves_others :: "uuid \<Rightarrow> database \<Rightarrow> database \<Rightarrow> bool" where
  "leaves_others r d d' \<longleftrightarrow> (\<forall>r'. r' \<noteq> r \<longrightarrow> same_rows r' d d')"

lemma filter_update_elsewhere:
  assumes "\<And>x. x \<in> set xs \<Longrightarrow> P x \<Longrightarrow> \<not> Q x \<and> \<not> Q (f x)"
  shows "filter Q (sql_update P f xs) = filter Q xs"
  using assms unfolding sql_update_def by (induction xs) auto

lemma filter_elsewhere: "(\<And>x. x \<in> set xs \<Longrightarrow> \<not> Q x) \<Longrightarrow> filter Q xs = []"
  by simp

interpretation tenant: row_writes "leaves_others r" "\<lambda>r'. r' = r" for r
  by unfold_locales
    (auto simp: leaves_others_def same_rows_def step_defs
      intro!: filter_update_elsewhere)

end
