(* ===== verification/System.thy ===== *)
theory System imports History begin

text \<open>
  The application: the routers of \<^verbatim>\<open>api/\<close> with the dependencies that guard them, mounted together
  as \<^verbatim>\<open>main.py\<close> mounts them, beside the gateway and the job of the scheduler. A request is one
  constructor per endpoint; \<open>handle\<close> runs it on the state of the application (the database and the
  messages published, the object storage, the tickets in Redis). \<open>reaches\<close> is the state machine of
  the whole program: requests and sweeps, one after the other or inside the gaps of one another.
\<close>

section \<open>Requests\<close>

datatype auth_request =
    StaffLogin string string
  | AdminLogin string string
  | WsTicket string "string option"

datatype customer_request =
    ResolveQr string
  | SessionSnapshot string
  | CreateOrder string "CreateOrderItemRequest list"
  | CancelItemCustomer string uuid "string option"
  | CallStaff string

datatype kitchen_request =
    GetKitchenBoard
  | SetItemStatus uuid OrderItemStatus
  | CancelItemStaff uuid "string option"
  | AckStaffCall uuid

datatype staff_table_request =
    OpenTable uuid
  | CheckoutSession uuid
  | RestoreSession uuid

datatype admin_request =
    ResetStaffPin string
  | GetSettings
  | UpdateSettings UpdateSettingsRequest

datatype admin_menu_request =
    CreateMenuCategory MenuCategoryCreate
  | ListMenuCategories
  | UpdateMenuCategory uuid MenuCategoryUpdate
  | CreateMenuItem MenuItemCreate
  | ListMenuItems
  | UpdateMenuItem uuid MenuItemUpdate
  | UploadMenuItemImage uuid string string
  | DeleteMenuItemImage uuid
  | GetPrepTimePresets

datatype admin_table_request =
    CreateTable string
  | ListTables
  | UpdateTable uuid TableUpdate
  | RegenerateQr uuid
  | GetQrImage uuid

datatype ws_request =
    WsKitchen "string option"
  | WsCustomer string

datatype request =
    Health
  | AuthRoute auth_request
  | CustomerRoute customer_request
  | KitchenRoute kitchen_request
  | StaffTableRoute staff_table_request
  | AdminRoute admin_request
  | AdminMenuRoute admin_menu_request
  | AdminTableRoute admin_table_request
  | WsRoute ws_request

datatype reply =
    RHealth
  | RToken string
  | RTicket string
  | RQr QRResolveResponse
  | RSnapshot SessionSnapshotResponse
  | ROrder CreateOrderResponse
  | RCancelled CancelledItemResponse
  | RCallStaff nat CallStaffResponse
  | RBoard "KitchenBoardItemResponse list"
  | RKitchenItem KitchenOrderItemResponse
  | RCall StaffCallResponse
  | RSession SessionResponse
  | RCheckout CheckoutResponse
  | RRestore RestoreResponse
  | RMessage string
  | RSettings SettingsResponse
  | RPresets PrepTimePresetsResponse
  | RCategory MenuCategoryResponse
  | RCategories "MenuCategoryResponse list"
  | RMenuItem MenuItemResponse
  | RMenuItems "MenuItemResponse list"
  | RTable TableResponse
  | RTables "TableResponse list"
  | RImage string
  | RSocket ws_outcome

section \<open>The application\<close>

text \<open>The settings of the process and the libraries and services it uses.\<close>

record ('k, 'r) config =
  cf_jwt :: jwt_api
  cf_auth :: auth_settings
  cf_bcrypt :: bcrypt_api
  cf_tickets :: "'r ticket_api"
  cf_ticket_ttl :: int
  cf_s3 :: s3_settings
  cf_s3_api :: s3_api
  cf_base_url :: string
  cf_render_qr :: "string \<Rightarrow> string"
  cf_process_image :: "string \<Rightarrow> (string \<times> string) result"
  cf_collate :: "string \<Rightarrow> 'k"

text \<open>What a request finds besides its body: its environment, its bearer token, the clock of the
process, and the random values drawn for it.\<close>

record input =
  in_env :: env
  in_credentials :: "string option"
  in_now :: timestamp
  in_random :: string

type_synonym 'r app = "world \<times> s3_state \<times> 'r"

text \<open>An endpoint that works on a part of the state; one that only reads the database.\<close>

definition on_world :: "('a \<Rightarrow> reply) \<Rightarrow> (world \<Rightarrow> 'a result \<times> world) \<Rightarrow> 'r app \<Rightarrow> reply result \<times> 'r app" where
  "on_world f h a = (case a of (w, st, r) \<Rightarrow> (case h w of (res, w') \<Rightarrow> (map_sum id f res, (w', st, r))))"

definition on_storage :: "('a \<Rightarrow> reply) \<Rightarrow> (world \<Rightarrow> s3_state \<Rightarrow> ('a result \<times> world) \<times> s3_state)
    \<Rightarrow> 'r app \<Rightarrow> reply result \<times> 'r app" where
  "on_storage f h a = (case a of (w, st, r) \<Rightarrow>
     (case h w st of ((res, w'), st') \<Rightarrow> (map_sum id f res, (w', st', r))))"

definition on_redis :: "('a \<Rightarrow> reply) \<Rightarrow> (database \<Rightarrow> 'r \<Rightarrow> 'a result \<times> 'r) \<Rightarrow> 'r app \<Rightarrow> reply result \<times> 'r app" where
  "on_redis f h a = (case a of (w, st, r) \<Rightarrow> (case h (db w) r of (res, r') \<Rightarrow> (map_sum id f res, (w, st, r'))))"

definition reading :: "('a \<Rightarrow> reply) \<Rightarrow> (database \<Rightarrow> 'a result) \<Rightarrow> 'r app \<Rightarrow> reply result \<times> 'r app" where
  "reading f h a = (map_sum id f (h (db (fst a))), a)"

lemmas endpoint_defs = on_world_def on_storage_def on_redis_def reading_def

subsection \<open>The routers\<close>

fun auth_route :: "('k, 'r) config \<Rightarrow> input \<Rightarrow> auth_request \<Rightarrow> 'r app \<Rightarrow> reply result \<times> 'r app" where
  "auth_route cf i (StaffLogin slug pin) =
     reading RToken (staff_login (cf_jwt cf) (cf_auth cf) (checkpw (cf_bcrypt cf)) (in_now i) slug pin)"
| "auth_route cf i (AdminLogin email password) =
     reading RToken (admin_login (cf_jwt cf) (cf_auth cf) (checkpw (cf_bcrypt cf)) (in_now i) email password)"
| "auth_route cf i (WsTicket slug authorization) =
     on_redis RTicket (create_ws_ticket (cf_jwt cf) (cf_auth cf) (cf_tickets cf) (cf_ticket_ttl cf)
       (in_random i) (in_now i) slug authorization)"

fun customer_route :: "input \<Rightarrow> customer_request \<Rightarrow> 'r app \<Rightarrow> reply result \<times> 'r app" where
  "customer_route i (ResolveQr qr) = reading RQr (resolve_qr qr)"
| "customer_route i (SessionSnapshot qr) = on_world RSnapshot (get_session_snapshot (in_env i) qr)"
| "customer_route i (CreateOrder qr items) = on_world ROrder (create_order (in_env i) qr items)"
| "customer_route i (CancelItemCustomer qr item_id reason) =
     on_world RCancelled (cancel_item_customer (in_env i) qr item_id reason)"
| "customer_route i (CallStaff qr) = on_world (\<lambda>(code, r). RCallStaff code r) (call_staff (in_env i) qr)"

fun kitchen_route :: "input \<Rightarrow> kitchen_request \<Rightarrow> TokenPayload \<Rightarrow> 'r app \<Rightarrow> reply result \<times> 'r app" where
  "kitchen_route i GetKitchenBoard user = reading RBoard (\<lambda>d. Inr (get_kitchen_board user (in_now i) d))"
| "kitchen_route i (SetItemStatus item_id to) user =
     on_world RKitchenItem (set_item_status (in_env i) item_id to user)"
| "kitchen_route i (CancelItemStaff item_id reason) user =
     on_world RCancelled (cancel_item_staff (in_env i) item_id user reason)"
| "kitchen_route i (AckStaffCall call_id) user = on_world RCall (ack_staff_call (in_env i) call_id user)"

fun staff_table_route :: "input \<Rightarrow> staff_table_request \<Rightarrow> TokenPayload \<Rightarrow> 'r app \<Rightarrow> reply result \<times> 'r app" where
  "staff_table_route i (OpenTable table_id) user = on_world RSession (open_table (in_env i) table_id user)"
| "staff_table_route i (CheckoutSession session_id) user =
     on_world RCheckout (checkout_session (in_env i) session_id user)"
| "staff_table_route i (RestoreSession session_id) user =
     on_world RRestore (restore_session (in_env i) session_id user)"

fun admin_route :: "('k, 'r) config \<Rightarrow> input \<Rightarrow> admin_request \<Rightarrow> TokenPayload \<Rightarrow> 'r app \<Rightarrow> reply result \<times> 'r app" where
  "admin_route cf i (ResetStaffPin pin) user =
     on_world RMessage (reset_staff_pin (cf_bcrypt cf) (in_random i) (in_env i) pin user)"
| "admin_route cf i GetSettings user = reading RSettings (get_settings user)"
| "admin_route cf i (UpdateSettings body) user = on_world RSettings (update_settings (in_env i) body user)"

fun admin_menu_route :: "('k::linorder, 'r) config \<Rightarrow> input \<Rightarrow> admin_menu_request \<Rightarrow> TokenPayload \<Rightarrow> 'r app
    \<Rightarrow> reply result \<times> 'r app" where
  "admin_menu_route cf i (CreateMenuCategory body) user =
     on_world RCategory (create_menu_category (in_env i) body user)"
| "admin_menu_route cf i ListMenuCategories user =
     reading RCategories (\<lambda>d. Inr (list_menu_categories (cf_collate cf) user d))"
| "admin_menu_route cf i (UpdateMenuCategory category_id body) user =
     on_world RCategory (update_menu_category (in_env i) category_id body user)"
| "admin_menu_route cf i (CreateMenuItem body) user = on_world RMenuItem (create_menu_item (in_env i) body user)"
| "admin_menu_route cf i ListMenuItems user =
     reading RMenuItems (\<lambda>d. Inr (list_menu_items (cf_collate cf) user d))"
| "admin_menu_route cf i (UpdateMenuItem item_id body) user =
     on_world RMenuItem (update_menu_item (in_env i) item_id body user)"
| "admin_menu_route cf i (UploadMenuItemImage item_id content_type file) user =
     on_storage RMenuItem (upload_menu_item_image (in_env i) (cf_process_image cf) (cf_s3 cf) (cf_s3_api cf)
       item_id content_type file user)"
| "admin_menu_route cf i (DeleteMenuItemImage item_id) user =
     on_storage RMenuItem (delete_menu_item_image (in_env i) (cf_s3 cf) (cf_s3_api cf) item_id user)"
| "admin_menu_route cf i GetPrepTimePresets user = reading RPresets (get_prep_time_presets user)"

fun admin_table_route :: "('k::linorder, 'r) config \<Rightarrow> input \<Rightarrow> admin_table_request \<Rightarrow> TokenPayload \<Rightarrow> 'r app
    \<Rightarrow> reply result \<times> 'r app" where
  "admin_table_route cf i (CreateTable number) user =
     on_storage RTable (create_table (in_env i) (cf_base_url cf) (cf_render_qr cf) (cf_s3 cf) (cf_s3_api cf)
       (in_random i) number user)"
| "admin_table_route cf i ListTables user =
     reading RTables (\<lambda>d. Inr (list_tables (cf_collate cf) user d))"
| "admin_table_route cf i (UpdateTable table_id body) user =
     on_world RTable (update_table (in_env i) table_id body user)"
| "admin_table_route cf i (RegenerateQr table_id) user =
     on_storage RTable (regenerate_qr (in_env i) (cf_base_url cf) (cf_render_qr cf) (cf_s3 cf) (cf_s3_api cf)
       (in_random i) table_id user)"
| "admin_table_route cf i (GetQrImage table_id) user =
     reading RImage (get_qr_image (cf_base_url cf) (cf_render_qr cf) table_id user)"

fun ws_route :: "('k, 'r) config \<Rightarrow> input \<Rightarrow> ws_request \<Rightarrow> 'r app \<Rightarrow> reply result \<times> 'r app" where
  "ws_route cf i (WsKitchen ticket) =
     on_redis RSocket (\<lambda>d r. case ws_kitchen (cf_tickets cf) ticket r of (res, r') \<Rightarrow> (Inr res, r'))"
| "ws_route cf i (WsCustomer qr) =
     on_world RSocket (\<lambda>w. case ws_customer (in_env i) qr (db w) of (res, d) \<Rightarrow> (res, w\<lparr>db := d\<rparr>))"

subsection \<open>The routers mounted\<close>

definition secured :: "('k, 'r) config \<Rightarrow> input \<Rightarrow> string list
    \<Rightarrow> (TokenPayload \<Rightarrow> 'r app \<Rightarrow> reply result \<times> 'r app) \<Rightarrow> 'r app \<Rightarrow> reply result \<times> 'r app" where
  "secured cf i = guarded (cf_jwt cf) (cf_auth cf) (in_now i) (in_credentials i)"

fun handle :: "('k::linorder, 'r) config \<Rightarrow> input \<Rightarrow> request \<Rightarrow> 'r app \<Rightarrow> reply result \<times> 'r app" where
  "handle cf i Health = reading (\<lambda>_. RHealth) (\<lambda>_. Inr ())"
| "handle cf i (AuthRoute q) = auth_route cf i q"
| "handle cf i (CustomerRoute q) = customer_route i q"
| "handle cf i (KitchenRoute q) = secured cf i [''staff'', ''admin''] (kitchen_route i q)"
| "handle cf i (StaffTableRoute q) = secured cf i [''staff'', ''admin''] (staff_table_route i q)"
| "handle cf i (AdminRoute q) = secured cf i [''admin''] (admin_route cf i q)"
| "handle cf i (AdminMenuRoute q) = secured cf i [''admin''] (admin_menu_route cf i q)"
| "handle cf i (AdminTableRoute q) = secured cf i [''admin''] (admin_table_route cf i q)"
| "handle cf i (WsRoute q) = ws_route cf i q"

definition app_db :: "'r app \<Rightarrow> database" where
  "app_db a = db (fst a)"

lemma app_db_endpoints [simp]:
  "app_db (snd (on_world f h (w, st, r))) = db (snd (h w))"
  "app_db (snd (on_storage f h2 (w, st, r))) = db (snd (fst (h2 w st)))"
  "app_db (snd (on_redis f h3 (w, st, r))) = db w"
  "app_db (snd (reading f h4 (w, st, r))) = db w"
  by (simp_all add: endpoint_defs app_db_def split: prod.splits)

section \<open>Whose request it is\<close>

text \<open>The restaurant of the QR code or of the token of a request; none when it has no right to act.\<close>

definition code_tenant :: "string \<Rightarrow> database \<Rightarrow> uuid option" where
  "code_tenant qr d = (case resolve_table qr d of Inl _ \<Rightarrow> None | Inr (t, r) \<Rightarrow> Some (r_id r))"

definition token_tenant :: "('k, 'r) config \<Rightarrow> input \<Rightarrow> string list \<Rightarrow> uuid option" where
  "token_tenant cf i roles =
     (case get_current_user (cf_jwt cf) (cf_auth cf) (in_now i) (in_credentials i) of
        Inl _ \<Rightarrow> None
      | Inr u \<Rightarrow> if tp_role u \<in> set roles then Some (tp_restaurant_id u) else None)"

fun customer_code :: "customer_request \<Rightarrow> string" where
  "customer_code (ResolveQr qr) = qr"
| "customer_code (SessionSnapshot qr) = qr"
| "customer_code (CreateOrder qr _) = qr"
| "customer_code (CancelItemCustomer qr _ _) = qr"
| "customer_code (CallStaff qr) = qr"

fun tenant_of :: "('k, 'r) config \<Rightarrow> input \<Rightarrow> request \<Rightarrow> database \<Rightarrow> uuid option" where
  "tenant_of cf i (CustomerRoute q) d = code_tenant (customer_code q) d"
| "tenant_of cf i (WsRoute (WsCustomer qr)) d = code_tenant qr d"
| "tenant_of cf i (KitchenRoute _) d = token_tenant cf i [''staff'', ''admin'']"
| "tenant_of cf i (StaffTableRoute _) d = token_tenant cf i [''staff'', ''admin'']"
| "tenant_of cf i (AdminRoute _) d = token_tenant cf i [''admin'']"
| "tenant_of cf i (AdminMenuRoute _) d = token_tenant cf i [''admin'']"
| "tenant_of cf i (AdminTableRoute _) d = token_tenant cf i [''admin'']"
| "tenant_of cf i _ d = None"

lemma code_tenant_iff: "code_tenant qr d = Some r \<longleftrightarrow> (\<exists>t x. resolve_table qr d = Inr (t, x) \<and> r = r_id x)"
  by (auto simp: code_tenant_def split: sum.splits)

text \<open>A guarded route runs its handler for a user of the tenant, or leaves the state alone.\<close>

lemma secured_cases:
  obtains x where "secured cf i roles h a = (Inl x, a)" and "token_tenant cf i roles = None"
  | u where "secured cf i roles h a = h u a" and "token_tenant cf i roles = Some (tp_restaurant_id u)"
proof (cases "get_current_user (cf_jwt cf) (cf_auth cf) (in_now i) (in_credentials i)")
  case (Inr u)
  then show ?thesis
    using that by (cases "tp_role u \<in> set roles")
      (simp_all add: secured_def guarded_def require_role_def token_tenant_def)
qed (simp add: that(1) secured_def guarded_def token_tenant_def)

text \<open>The two look-ups of a code agree.\<close>

lemma resolve_qr_token_Inr:
  assumes "resolve_qr_token qr d = Inr (Some (t, rid))"
  obtains r where "resolve_table qr d = Inr (t, r)" and "r_id r = rid"
  using assms
  by (auto simp: resolve_qr_token_def resolve_table_def scalar_one_or_none_Some_iff
      split: sum.splits option.splits)

lemma unresolved_code:
  assumes "code_tenant qr d = None"
  shows "(\<exists>x. resolve_qr_token qr d = Inl x) \<or> resolve_qr_token qr d = Inr None"
proof -
  have False if q: "resolve_qr_token qr d = Inr (Some (t, rid))" for t rid
    by (rule resolve_qr_token_Inr [OF q]) (use assms in \<open>simp add: code_tenant_def\<close>)
  then show ?thesis by (metis not_None_eq old.prod.exhaust old.sum.exhaust)
qed

section \<open>Every request stays in the relation\<close>

context row_writes begin

lemma socket:
  assumes inv: "db_inv d" and e: "gaps_in R e" and may: "\<And>r. code_tenant qr d = Some r \<Longrightarrow> may r"
  shows "R d (snd (ws_customer e qr d))"
proof -
  have "R d d'" if q: "resolve_qr_token qr d = Inr (Some (t, rid))"
    and g: "get_or_open e (t_id t) rid None d = (res, d')" for t rid res d'
  proof -
    obtain r where "resolve_table qr d = Inr (t, r)" "r_id r = rid"
      using resolve_qr_token_Inr [OF q] .
    with guest(1) [OF inv e] may g show ?thesis by (auto simp: code_tenant_iff)
  qed
  then show ?thesis by (auto simp: ws_customer_def R_refl split: sum.splits option.splits prod.splits)
qed

lemma customer_routes:
  assumes inv: "db_inv (app_db a)" and e: "gaps_in R (in_env i)"
    and may: "\<And>r. code_tenant (customer_code q) (app_db a) = Some r \<Longrightarrow> may r"
  shows "R (app_db a) (app_db (snd (customer_route i q a)))"
proof -
  obtain w st x where a: "a = (w, st, x)" by (cases a)
  have inv': "db_inv (db w)" using inv by (simp add: a app_db_def)
  have may': "may (r_id r)" if "resolve_table (customer_code q) (db w) = Inr (t, r)" for t r
    using may that by (auto simp: code_tenant_iff a app_db_def)
  show ?thesis
    using snapshot [OF inv' e] order [OF inv' e] guest_cancel [OF inv' e] guest_call [OF inv' e] may' R_refl
    by (cases q) (simp_all add: a, simp_all add: app_db_def)
qed

lemma kitchen_routes:
  assumes "db_inv (app_db a)" and "gaps_in R (in_env i)" and "may (tp_restaurant_id user)"
  shows "R (app_db a) (app_db (snd (kitchen_route i q user a)))"
proof -
  obtain w st x where a: "a = (w, st, x)" by (cases a)
  have "app_db a = db w" by (simp add: a app_db_def)
  with assms show ?thesis
    by (cases q) (simp_all add: a kitchen_status staff_cancel staff_ack R_refl)
qed

lemma staff_table_routes:
  assumes "db_inv (app_db a)" and "gaps_in R (in_env i)" and "may (tp_restaurant_id user)"
  shows "R (app_db a) (app_db (snd (staff_table_route i q user a)))"
proof -
  obtain w st x where a: "a = (w, st, x)" by (cases a)
  have "app_db a = db w" by (simp add: a app_db_def)
  with assms show ?thesis
    by (cases q) (simp_all add: a staff_open staff_checkout staff_restore)
qed

lemma admin_routes:
  assumes "db_inv (app_db a)" and "gaps_in R (in_env i)" and "may (tp_restaurant_id user)"
  shows "R (app_db a) (app_db (snd (admin_route cf i q user a)))"
    and "R (app_db a) (app_db (snd (admin_menu_route cf i m user a)))"
    and "R (app_db a) (app_db (snd (admin_table_route cf i t user a)))"
proof -
  obtain w st x where a: "a = (w, st, x)" by (cases a)
  have d: "app_db a = db w" by (simp add: a app_db_def)
  show "R (app_db a) (app_db (snd (admin_route cf i q user a)))"
    using assms d by (cases q) (simp_all add: a admin_pin admin_settings R_refl)
  show "R (app_db a) (app_db (snd (admin_menu_route cf i m user a)))"
    using assms d by (cases m) (simp_all add: a admin_new_category admin_category admin_new_item
        admin_item admin_photo R_refl)
  show "R (app_db a) (app_db (snd (admin_table_route cf i t user a)))"
    using assms d by (cases t) (simp_all add: a admin_new_table admin_table admin_qr R_refl)
qed

lemma guarded_routes:
  assumes h: "\<And>u. may (tp_restaurant_id u) \<Longrightarrow> R (app_db a) (app_db (snd (h u a)))"
    and may: "\<And>r. token_tenant cf i roles = Some r \<Longrightarrow> may r"
  shows "R (app_db a) (app_db (snd (secured cf i roles h a)))"
  by (rule secured_cases [of cf i roles h a]) (use h may in \<open>simp_all add: R_refl\<close>)

lemma handling:
  assumes inv: "db_inv (app_db a)" and e: "gaps_in R (in_env i)"
    and may: "\<And>r. tenant_of cf i q (app_db a) = Some r \<Longrightarrow> may r"
  shows "R (app_db a) (app_db (snd (handle cf i q a)))"
proof (cases q)
  case Health
  then show ?thesis by (simp add: reading_def R_refl)
next
  case (AuthRoute p)
  obtain w st x where "a = (w, st, x)" by (cases a)
  with AuthRoute show ?thesis by (cases p) (simp_all, simp_all add: app_db_def R_refl)
next
  case (WsRoute p)
  obtain w st x where a: "a = (w, st, x)" by (cases a)
  have "db (snd (case ws_customer e qr d of (res, d') \<Rightarrow> (res, w\<lparr>db := d'\<rparr>))) = snd (ws_customer e qr d)"
    for e qr d by (simp split: prod.split)
  with WsRoute a inv e may show ?thesis
    by (cases p) (simp_all add: socket app_db_def [of "(w, st, x)"] R_refl)
qed (use assms in \<open>auto intro!: customer_routes guarded_routes kitchen_routes staff_table_routes admin_routes\<close>)

end

section \<open>The invariant of the database\<close>

lemma db_inv_guest:
  assumes "db_inv d" and "good_env e" and "resolve_table qr d = Inr (t, r)"
    and "get_or_open e (t_id t) (r_id r) None d = (res, d')"
  shows "db_inv d'" and "table_of (r_id r) (t_id t) d'"
    and "res = Inr (s, rb) \<Longrightarrow> session_of (r_id r) (ts_id s) d'"
  using growsD(1) [of d d'] resolve_table_Inr(7) [OF assms(3)] db_inv_get_or_open [OF assms(1,2) resolve_table_Inr(7) [OF assms(3)], of None]
    get_or_open_session_of [OF assms(1,2) resolve_table_Inr(7) [OF assms(3)]] assms(4) by simp_all

lemma db_inv_snapshot:
  assumes "db_inv (db w)" and "good_env e"
  shows "db_inv (db (snd (get_session_snapshot e qr w)))"
  using assms db_inv_guest(1) [OF assms]
  by (auto simp: get_session_snapshot_def split: sum.splits prod.splits)

lemma db_inv_cancel_item_customer:
  assumes inv: "db_inv (db w)" and e: "good_env e"
  shows "db_inv (db (snd (cancel_item_customer e qr i reason w)))"
proof -
  note g = good_envD(1) [OF e]
  have "db_inv d2" if "cancel_item i by_whom rid [PENDING] reason now d = Inr (row, d2)" "db_inv d"
    for by_whom rid now d row d2
    using db_inv_cancel_item [OF that(2,1)] by simp
  with assms g db_inv_guest(1) [OF assms] show ?thesis
    by (auto simp: cancel_item_customer_def Let_def split: sum.splits prod.splits option.splits exn.splits)
qed

lemma db_inv_call_staff:
  assumes inv: "db_inv (db w)" and e: "good_env e"
  shows "db_inv (db (snd (call_staff e qr w)))"
proof -
  have "db_inv (db w')" if p: "resolve_table qr (db w) = Inr (t, r)"
    "get_or_open e (t_id t) (r_id r) None (db w) = (Inr (s, rb), d)"
    and c: "create_call e (t_id t) (ts_id s) (r_id r) (w\<lparr>db := d\<rparr>) = (res, w')" for t r s rb d res w'
  proof -
    note d = db_inv_guest [OF assms p]
    have "db_inv (db (snd (create_call e (t_id t) (ts_id s) (r_id r) (w\<lparr>db := d\<rparr>))))"
      using d good_envD [OF e] growsD(1,2) [OF good_envD(2) [OF e d(1)]]
      by (intro db_inv_create_call) simp_all
    with c show ?thesis by simp
  qed
  with inv db_inv_guest(1) [OF assms] show ?thesis
    by (auto simp: call_staff_def split: sum.splits prod.splits option.splits)
qed

lemma db_inv_ws_customer:
  assumes inv: "db_inv d" and e: "good_env e"
  shows "db_inv (snd (ws_customer e qr d))"
proof -
  have "db_inv d'" if q: "resolve_qr_token qr d = Inr (Some (t, rid))"
    and g: "get_or_open e (t_id t) rid None d = (res, d')" for t rid res d'
    by (rule resolve_qr_token_Inr [OF q]) (use db_inv_guest(1) [OF assms] g in auto)
  with inv show ?thesis by (auto simp: ws_customer_def split: sum.splits option.splits prod.splits)
qed

lemma db_inv_secured:
  assumes "db_inv (app_db a)" and "\<And>u. db_inv (app_db (snd (h u a)))"
  shows "db_inv (app_db (snd (secured cf i roles h a)))"
  by (rule secured_cases [of cf i roles h a]) (use assms in simp_all)

lemmas db_inv_handlers = db_inv_snapshot db_inv_create_order db_inv_cancel_item_customer db_inv_call_staff
  db_inv_ws_customer db_inv_set_item_status db_inv_cancel_item_staff db_inv_ack_staff_call
  db_inv_open_table db_inv_checkout_session db_inv_restore_session db_inv_reset_staff_pin
  db_inv_update_settings db_inv_create_menu_category db_inv_update_menu_category
  db_inv_create_menu_item db_inv_update_menu_item_handler db_inv_upload_menu_item_image
  db_inv_delete_menu_item_image db_inv_create_table db_inv_update_table_handler db_inv_regenerate_qr

lemma db_inv_handle:
  assumes inv: "db_inv (app_db a)" and e: "good_env (in_env i)"
  shows "db_inv (app_db (snd (handle cf i q a)))"
proof -
  obtain w st x where a: "a = (w, st, x)" by (cases a)
  have w: "db_inv (db w)" using inv by (simp add: a app_db_def)
  have soc: "db (snd (case ws_customer e qr d of (res, d') \<Rightarrow> (res, w\<lparr>db := d'\<rparr>))) = snd (ws_customer e qr d)"
    for e qr d by (simp split: prod.split)
  show ?thesis
  proof (cases q)
    case (AuthRoute p) with w show ?thesis by (cases p) (simp_all add: a)
  next
    case (CustomerRoute p) with w e show ?thesis by (cases p) (simp_all add: a db_inv_handlers)
  next
    case (KitchenRoute p)
    have "db_inv (app_db (snd (kitchen_route i p u a)))" for u
      using w e by (cases p) (simp_all add: a db_inv_handlers)
    with KitchenRoute inv show ?thesis by (simp add: db_inv_secured)
  next
    case (StaffTableRoute p)
    have "db_inv (app_db (snd (staff_table_route i p u a)))" for u
      using w e by (cases p) (simp_all add: a db_inv_handlers)
    with StaffTableRoute inv show ?thesis by (simp add: db_inv_secured)
  next
    case (AdminRoute p)
    have "db_inv (app_db (snd (admin_route cf i p u a)))" for u
      using w e by (cases p) (simp_all add: a db_inv_handlers)
    with AdminRoute inv show ?thesis by (simp add: db_inv_secured)
  next
    case (AdminMenuRoute p)
    have "db_inv (app_db (snd (admin_menu_route cf i p u a)))" for u
      using w e by (cases p) (simp_all add: a db_inv_handlers)
    with AdminMenuRoute inv show ?thesis by (simp add: db_inv_secured)
  next
    case (AdminTableRoute p)
    have "db_inv (app_db (snd (admin_table_route cf i p u a)))" for u
      using w e by (cases p) (simp_all add: a db_inv_handlers)
    with AdminTableRoute inv show ?thesis by (simp add: db_inv_secured)
  next
    case (WsRoute p) with w e show ?thesis by (cases p) (simp_all add: a soc db_inv_handlers)
  qed (simp add: a w)
qed

section \<open>Runs of the program\<close>

text \<open>
  A run from one database to a later one: requests that the filter admits, and sweeps where they are
  admitted, one after the other. What the other connections do in a gap of a request or a sweep is a
  run of the same kind.
\<close>

inductive runs :: "('k::linorder, 'r) config \<Rightarrow> (input \<Rightarrow> request \<Rightarrow> database \<Rightarrow> bool) \<Rightarrow> bool
    \<Rightarrow> database \<Rightarrow> database \<Rightarrow> bool" for cf admits sweeps where
  runs_none: "runs cf admits sweeps d d"
| runs_request: "runs cf admits sweeps d (app_db a) \<Longrightarrow> admits i q (app_db a)
    \<Longrightarrow> (\<And>k x. db_inv x \<Longrightarrow> runs cf admits sweeps x (others (in_env i) k x))
    \<Longrightarrow> runs cf admits sweeps d (app_db (snd (handle cf i q a)))"
| runs_sweep: "runs cf admits sweeps d (db w) \<Longrightarrow> sweeps
    \<Longrightarrow> (\<And>j k x. db_inv x \<Longrightarrow> runs cf admits sweeps x (others (es j) k x))
    \<Longrightarrow> runs cf admits sweeps d (db (snd (run_sweep es fails now w)))"

text \<open>The history is preserved by a run, and so is the invariant.\<close>

lemma runs_evolve:
  assumes "runs cf admits sweeps d d'" and "db_inv d"
  shows "db_inv d' \<and> evolves d d'"
  using assms
proof (induction rule: runs.induct)
  case (runs_none d)
  then show ?case by (simp add: evolves_refl)
next
  case (runs_request d a i q)
  then have "gaps_in evolves (in_env i)" by (simp add: gaps_in_def good_env_def evolves_grows)
  then show ?case
    using runs_request.IH(1) [OF runs_request.prems] db_inv_handle [of a i cf q]
      history.handling [of a i cf q] evolves_trans by (auto simp: gaps_in_def)
next
  case (runs_sweep d w es fails now)
  then have "gaps_in evolves (es j)" for j by (simp add: gaps_in_def good_env_def evolves_grows)
  then show ?case
    using runs_sweep.IH(1) [OF runs_sweep.prems] db_inv_run_sweep [of w es]
      history.sweep [of es w] evolves_trans by (auto simp: gaps_in_def)
qed

context row_writes begin

lemma run_stays:
  assumes "runs cf admits sweeps d d'" and "db_inv d" and "\<not> sweeps"
    and may: "\<And>i q x r. admits i q x \<Longrightarrow> tenant_of cf i q x = Some r \<Longrightarrow> may r"
  shows "R d d'"
  using assms(1-3)
proof (induction rule: runs.induct)
  case (runs_none d)
  then show ?case by (simp add: R_refl)
next
  case (runs_request d a i q)
  have "gaps_in R (in_env i)"
    using runs_request.IH(2) runs_evolve [OF runs_request.hyps(3)] runs_request.prems
    by (simp add: gaps_in_def good_env_def evolves_grows)
  moreover have "db_inv (app_db a)" using runs_evolve runs_request.hyps(1) runs_request.prems(1) by blast
  ultimately have "R (app_db a) (app_db (snd (handle cf i q a)))"
    by (intro handling may [OF runs_request.hyps(2)])
  with runs_request.IH(1) [OF runs_request.prems] show ?case by (rule R_trans)
qed simp

end

fun behind_guard :: "request \<Rightarrow> bool" where
  "behind_guard (KitchenRoute _) = True"
| "behind_guard (StaffTableRoute _) = True"
| "behind_guard (AdminRoute _) = True"
| "behind_guard (AdminMenuRoute _) = True"
| "behind_guard (AdminTableRoute _) = True"
| "behind_guard _ = False"

lemma guarded_request:
  assumes "behind_guard q"
  shows "\<exists>roles h. (\<forall>a. handle cf i q a = secured cf i roles h a)
    \<and> (\<forall>d. tenant_of cf i q d = token_tenant cf i roles)"
  using assms by (cases q) (simp_all, blast+)

lemma unauthorised_route:
  assumes "token_tenant cf i roles = None"
  shows "\<exists>s m. secured cf i roles h a = (Inl (HTTPException s m), a) \<and> s \<in> {401, 403}"
  using assms
  by (auto simp: secured_def guarded_def token_tenant_def require_role_def get_current_user_def
      split: sum.splits option.splits if_splits)

text \<open>The demo application, with plain functions for the libraries, and an order placed in it.\<close>

definition demo_config :: "(nat, string \<rightharpoonup> ticket_payload \<times> int) config" where
  "demo_config = \<lparr>cf_jwt = plain_jwt, cf_auth = demo_auth,
     cf_bcrypt = \<lparr>hashpw = (\<lambda>p s. ''hash:'' @ p), checkpw = (\<lambda>p h. h = ''hash:'' @ p)\<rparr>,
     cf_tickets = map_tickets, cf_ticket_ttl = 30, cf_s3 = demo_s3, cf_s3_api = demo_s3_api,
     cf_base_url = ''http://localhost:3000'', cf_render_qr = (\<lambda>url. url),
     cf_process_image = (\<lambda>b. Inr (b, b)), cf_collate = length\<rparr>"

definition demo_input :: "string option \<Rightarrow> input" where
  "demo_input credentials = \<lparr>in_env = demo_env, in_credentials = credentials, in_now = hours 4,
     in_random = ''token''\<rparr>"

lemma demo_input_sel [simp]:
  "in_env (demo_input c) = demo_env" "in_credentials (demo_input c) = c" "in_now (demo_input c) = hours 4"
  by (simp_all add: demo_input_def)

definition demo_app :: "(string \<rightharpoonup> ticket_payload \<times> int) app" where
  "demo_app = (\<lparr>db = demo, bus = []\<rparr>, \<lparr>bucket_ensured = False, calls = []\<rparr>, Map.empty)"

lemma demo_app_db [simp]: "app_db demo_app = demo"
  by (simp add: demo_app_def app_db_def)

lemma demo_run:
  assumes "admits (demo_input None) (CustomerRoute (CreateOrder ''qr-20'' demo_request)) demo"
  shows "\<exists>d'. runs demo_config admits sweeps demo d' \<and> length (orders d') = 3"
proof -
  let ?q = "CustomerRoute (CreateOrder ''qr-20'' demo_request)"
  obtain ord ois d' where p: "place_order demo_env 1 (demo_session 50 20 OPEN None) demo_request
      [demo_menu_item 40 1 ''Pho bo'' 4500000 True] demo = Inr (ord, ois, d')"
    using demo_place_order by blast
  have "runs demo_config admits sweeps demo (app_db (snd (handle demo_config (demo_input None) ?q demo_app)))"
    by (rule runs_request) (use assms in \<open>simp_all add: runs_none\<close>)
  moreover have "app_db (snd (handle demo_config (demo_input None) ?q demo_app)) = d'"
    using demo_create_order [of demo_env] p by (simp add: demo_app_def frame quiet_env_def)
  moreover have "length (orders d') = length (orders demo) + 1"
    using place_order_Inr [OF p] by (auto simp: touch_session_def)
  then have "length (orders d') = 3" by (simp add: demo_def)
  ultimately show ?thesis by auto
qed

section \<open>What holds of every run\<close>

text \<open>
  C24 (history). Whatever requests arrive, with whatever rights and however they and the sweeps of the
  scheduler interleave, the invariant of the database is kept and no history is lost: no restaurant,
  order, session, ordered item or call disappears, orders do not change, a closed session stays closed
  with the same time and the same bill, a cancelled item stays as it was cancelled, and the name, price,
  quantity and time of an ordered item never change.
\<close>

theorem history_is_preserved:
  assumes "db_inv d" and "runs cf admits sweeps d d'"
  shows "db_inv d' \<and> restaurants d' = restaurants d \<and> set (orders d) \<subseteq> set (orders d')
    \<and> (\<forall>s \<in> set (table_sessions d). \<exists>s' \<in> set (table_sessions d'). ts_id s' = ts_id s
          \<and> ts_table_id s' = ts_table_id s
          \<and> (ts_status s = CLOSED \<longrightarrow> ts_status s' = CLOSED \<and> ts_closed_at s' = ts_closed_at s
               \<and> ts_total_amount s' = ts_total_amount s))
    \<and> (\<forall>i \<in> set (order_items d). \<exists>i' \<in> set (order_items d'). oi_id i' = oi_id i
          \<and> oi_order_id i' = oi_order_id i \<and> oi_name_snapshot i' = oi_name_snapshot i
          \<and> oi_price_snapshot i' = oi_price_snapshot i \<and> oi_quantity i' = oi_quantity i
          \<and> oi_requested_at i' = oi_requested_at i \<and> (oi_status i = CANCELLED \<longrightarrow> i' = i))
    \<and> (\<forall>c \<in> set (staff_calls d). \<exists>c' \<in> set (staff_calls d'). sc_id c' = sc_id c
          \<and> (sc_status c = CALL_ACKNOWLEDGED \<longrightarrow> sc_status c' = CALL_ACKNOWLEDGED))"
proof -
  from runs_evolve [OF assms(2,1)] have e: "db_inv d'" "evolves d d'" by simp_all
  from e(2) have "later session_step (table_sessions d) (table_sessions d')"
    "later item_step (order_items d) (order_items d')" "later call_step (staff_calls d) (staff_calls d')"
    "set (orders d) \<subseteq> set (orders d')" "restaurants d' = restaurants d"
    by (auto simp: evolves_def later_def)
  with e(1) show ?thesis
    by (intro conjI) (auto simp: later_def step_defs elim!: ballE bexE intro: bexI)
qed

text \<open>
  C25 (tenants). Whatever the requests that carry a token or a QR code of one restaurant do, together
  with all requests that carry none, and however they interleave, the rows of every other restaurant in
  all ten tables stay the same, in the same order.
\<close>

theorem tenants_are_isolated:
  assumes "db_inv d" and "runs cf (\<lambda>i q x. tenant_of cf i q x \<in> {None, Some r}) False d d'"
    and "r' \<noteq> r"
  shows "same_rows r' d d'"
proof -
  have "leaves_others r d d'" by (rule tenant.run_stays [OF assms(2,1)]) auto
  with assms(3) show ?thesis by (simp add: leaves_others_def)
qed

text \<open>
  C26 (authorisation). A request that carries neither the QR code of an active table of an active
  restaurant nor a valid token of a role the route admits changes nothing: not the database, not the
  channels, not the object storage. Behind a guard its answer is 401 or 403, and nothing at all changes.
\<close>

theorem unauthorised_requests_change_nothing:
  assumes "tenant_of cf i q (app_db a) = None"
  shows "fst (snd (handle cf i q a)) = fst a \<and> fst (snd (snd (handle cf i q a))) = fst (snd a)
    \<and> (behind_guard q \<longrightarrow> snd (handle cf i q a) = a
         \<and> (\<exists>s m. fst (handle cf i q a) = Inl (HTTPException s m) \<and> s \<in> {401, 403}))"
proof (cases "behind_guard q")
  case True
  obtain roles h where q: "handle cf i q a = secured cf i roles h a" "token_tenant cf i roles = None"
    using guarded_request [OF True, of cf i] assms by metis
  from unauthorised_route [OF q(2), of h a] q(1) show ?thesis by auto
next
  case False
  obtain w st x where a: "a = (w, st, x)" by (cases a)
  have code: "(\<exists>x. resolve_table qr (db w) = Inl x)" if "code_tenant qr (db w) = None" for qr
    using that by (auto simp: code_tenant_def split: sum.splits)
  show ?thesis
  proof (cases q)
    case (AuthRoute p) with False show ?thesis by (cases p) (simp_all add: a endpoint_defs split: prod.splits)
  next
    case (CustomerRoute p)
    with assms code [of "customer_code p"] show ?thesis
      by (cases p) (auto simp: a app_db_def endpoint_defs resolve_qr_def get_session_snapshot_def
          create_order_def cancel_item_customer_def call_staff_def)
  next
    case (WsRoute p)
    show ?thesis
    proof (cases p)
      case (WsCustomer qr)
      with WsRoute assms have "code_tenant qr (db w) = None" by (simp add: a app_db_def)
      note unresolved_code [OF this]
      with WsRoute WsCustomer show ?thesis
        by (auto simp: a endpoint_defs ws_customer_def split: prod.splits)
    qed (use WsRoute in \<open>simp add: a endpoint_defs split: prod.splits\<close>)
  qed (use False in \<open>simp_all add: a endpoint_defs\<close>)
qed

lemma history_is_preserved_witness:
  "\<exists>d'. runs demo_config (\<lambda>_ _ _. True) True demo d' \<and> length (orders d') = 3 \<and> db_inv d'"
  using demo_run [of "\<lambda>_ _ _. True" True] history_is_preserved [OF demo_inv] by blast

lemma tenants_are_isolated_witness:
  "\<exists>d'. runs demo_config (\<lambda>i q x. tenant_of demo_config i q x \<in> {None, Some 1}) False demo d'
     \<and> length (orders d') = 3 \<and> same_rows 2 demo d'"
proof -
  let ?P = "\<lambda>i q x. tenant_of demo_config i q x \<in> {None, Some 1}"
  have "\<exists>d'. runs demo_config ?P False demo d' \<and> length (orders d') = 3"
    by (rule demo_run) (simp add: code_tenant_def demo_resolve demo_restaurant_def)
  with tenants_are_isolated [OF demo_inv, of demo_config 1 _ 2] show ?thesis by force
qed

text \<open>The token of a staff member does not open the routes of the administrator.\<close>

lemma unauthorised_requests_change_nothing_witness:
  "snd (handle demo_config (demo_input (Some (create_access_token plain_jwt demo_auth 0 10 ''staff'' 1)))
      (AdminRoute (ResetStaffPin ''0000'')) demo_app) = demo_app"
proof -
  let ?i = "demo_input (Some (create_access_token plain_jwt demo_auth 0 10 ''staff'' 1))"
  have "get_current_user plain_jwt demo_auth (hours 4)
      (Some (create_access_token plain_jwt demo_auth 0 10 ''staff'' 1))
    = Inr \<lparr>tp_sub = 10, tp_restaurant_id = 1, tp_role = ''staff''\<rparr>"
    using decode_created [OF plain_jwt_laws, of demo_auth "hours 4" 0 10 "''staff''" 1]
    by (simp add: get_current_user_def demo_auth_def time_units)
  then have "tenant_of demo_config ?i (AdminRoute (ResetStaffPin ''0000'')) (app_db demo_app) = None"
    by (simp add: token_tenant_def demo_config_def)
  from unauthorised_requests_change_nothing [OF this] show ?thesis by simp
qed

end
