(* ===== verification/Gateway.thy ===== *)
theory Gateway imports Auth "HOL-Library.Sublist" begin

text \<open>
  The life of the sockets of \<^verbatim>\<open>qorder_api/ws/gateway.py\<close>, after the decision that \<open>ws_kitchen\<close> and \<open>ws_customer\<close>
  make: the subscription, the task that forwards (\<^verbatim>\<open>_bridge_redis_to_ws\<close>) and the receive loop, beside the Pub/Sub of
  Redis, which hands a message to those that are subscribed when it is published and keeps nothing. What happens is
  a list of events in whatever order the network and the tasks bring it about. \<open>Connect\<close> is the moment of the
  subscription, or of the refusal.
\<close>

section \<open>Sockets\<close>

text \<open>
  The channel, what \<^verbatim>\<open>pubsub.listen()\<close> still has to give (the kind of an event and its data), what was sent to the
  client, and whether the forwarding task still runs.
\<close>

record socket =
  so_channel :: string
  so_inbox :: "(string \<times> payload) list"
  so_sent :: "payload list"
  so_bridge :: bool

text \<open>The open sockets, and the codes of those that were closed before they were accepted.\<close>

record gateway =
  sockets :: "nat \<Rightarrow> socket option"
  refused :: "(nat \<times> nat) list"

definition empty_gateway :: gateway where
  "empty_gateway = \<lparr>sockets = (\<lambda>_. None), refused = []\<rparr>"

datatype gw_event =
    Connect nat ws_outcome
  | Publish message
  | Forward nat bool
  | ListenFails nat
  | Disconnect nat

text \<open>A new subscription is confirmed by an event of its own, which is no message.\<close>

definition new_socket :: "string \<Rightarrow> socket" where
  "new_socket channel = \<lparr>so_channel = channel, so_inbox = [(''subscribe'', PInt 1)], so_sent = [], so_bridge = True\<rparr>"

definition deliver :: "message \<Rightarrow> socket \<Rightarrow> socket" where
  "deliver m s = (if so_channel s = msg_channel m then s\<lparr>so_inbox := so_inbox s @ [(''message'', msg_body m)]\<rparr> else s)"

text \<open>
  One round of the forwarding task. Sending may raise (\<open>ok\<close> is false); the exception is swallowed and ends the task.
\<close>

definition forward :: "bool \<Rightarrow> socket \<Rightarrow> socket" where
  "forward ok s =
     (if so_bridge s then
        (case so_inbox s of
           [] \<Rightarrow> s
         | (kind, data) # rest \<Rightarrow>
             if kind \<noteq> ''message'' then s\<lparr>so_inbox := rest\<rparr>
             else if ok then s\<lparr>so_inbox := rest, so_sent := so_sent s @ [data]\<rparr>
             else s\<lparr>so_inbox := rest, so_bridge := False\<rparr>)
      else s)"

definition on_socket :: "nat \<Rightarrow> (socket \<Rightarrow> socket) \<Rightarrow> gateway \<Rightarrow> gateway" where
  "on_socket i f g = g\<lparr>sockets := (sockets g)(i := map_option f (sockets g i))\<rparr>"

text \<open>When the client is gone, the task is cancelled and the subscription given up.\<close>

fun gateway_step :: "gw_event \<Rightarrow> gateway \<Rightarrow> gateway" where
  "gateway_step (Connect i (Closed code)) g = g\<lparr>refused := refused g @ [(i, code)]\<rparr>"
| "gateway_step (Connect i (Subscribed channel)) g = g\<lparr>sockets := (sockets g)(i \<mapsto> new_socket channel)\<rparr>"
| "gateway_step (Publish m) g = g\<lparr>sockets := (\<lambda>i. map_option (deliver m) (sockets g i))\<rparr>"
| "gateway_step (Forward i ok) g = on_socket i (forward ok) g"
| "gateway_step (ListenFails i) g = on_socket i (\<lambda>s. s\<lparr>so_bridge := False\<rparr>) g"
| "gateway_step (Disconnect i) g = g\<lparr>sockets := (sockets g)(i := None)\<rparr>"

fun gateway_run :: "gw_event list \<Rightarrow> gateway \<Rightarrow> gateway" where
  "gateway_run [] g = g"
| "gateway_run (x # xs) g = gateway_run xs (gateway_step x g)"

lemma gateway_run_append [simp]: "gateway_run (xs @ ys) g = gateway_run ys (gateway_run xs g)"
  by (induction xs arbitrary: g) simp_all

section \<open>One socket\<close>

text \<open>What the events mean for one open socket, as long as it is neither closed nor replaced.\<close>

fun stays :: "nat \<Rightarrow> gw_event \<Rightarrow> bool" where
  "stays i (Connect j (Subscribed _)) = (j \<noteq> i)"
| "stays i (Disconnect j) = (j \<noteq> i)"
| "stays i _ = True"

fun socket_step :: "nat \<Rightarrow> gw_event \<Rightarrow> socket \<Rightarrow> socket" where
  "socket_step i (Publish m) s = deliver m s"
| "socket_step i (Forward j ok) s = (if j = i then forward ok s else s)"
| "socket_step i (ListenFails j) s = (if j = i then s\<lparr>so_bridge := False\<rparr> else s)"
| "socket_step i _ s = s"

definition socket_run :: "nat \<Rightarrow> gw_event list \<Rightarrow> socket \<Rightarrow> socket" where
  "socket_run i xs s = fold (socket_step i) xs s"

lemma gateway_step_socket:
  "sockets g i = Some s \<Longrightarrow> stays i x \<Longrightarrow> sockets (gateway_step x g) i = Some (socket_step i x s)"
  by (cases "(x, g)" rule: gateway_step.cases) (auto simp: on_socket_def)

lemma gateway_run_socket:
  "sockets g i = Some s \<Longrightarrow> list_all (stays i) xs \<Longrightarrow> sockets (gateway_run xs g) i = Some (socket_run i xs s)"
  by (induction xs arbitrary: g s) (simp_all add: socket_run_def gateway_step_socket)

text \<open>The messages of a channel among the events.\<close>

fun published :: "string \<Rightarrow> gw_event list \<Rightarrow> payload list" where
  "published channel [] = []"
| "published channel (Publish m # xs) = (if msg_channel m = channel then [msg_body m] else []) @ published channel xs"
| "published channel (_ # xs) = published channel xs"

lemma published_append [simp]: "published channel (xs @ ys) = published channel xs @ published channel ys"
  by (induction channel xs rule: published.induct) simp_all

definition pending :: "socket \<Rightarrow> payload list" where
  "pending s = bridge_redis_to_ws (so_inbox s)"

lemma channel_step [simp]: "so_channel (socket_step i x s) = so_channel s"
  by (cases "(i, x, s)" rule: socket_step.cases)
    (auto simp: deliver_def forward_def split: list.split)

lemma channel_run [simp]: "so_channel (socket_run i xs s) = so_channel s"
  by (induction xs arbitrary: s) (simp_all add: socket_run_def)

lemma forward_stream:
  "so_bridge (forward ok s) \<Longrightarrow> so_sent (forward ok s) @ pending (forward ok s) = so_sent s @ pending s"
  "so_bridge (forward ok s) \<Longrightarrow> so_bridge s"
  "prefix (so_sent (forward ok s)) (so_sent s @ pending s)"
  by (auto simp: forward_def pending_def bridge_redis_to_ws_def prefix_def split: list.split if_splits)

lemma socket_step_stream:
  "so_bridge (socket_step i x s) \<Longrightarrow> so_bridge s"
  "so_bridge (socket_step i x s) \<Longrightarrow>
     so_sent (socket_step i x s) @ pending (socket_step i x s)
     = so_sent s @ pending s @ published (so_channel s) [x]"
  by (cases "(i, x, s)" rule: socket_step.cases;
      force simp: deliver_def pending_def bridge_redis_to_ws_def forward_stream(2)
        forward_stream(1) [unfolded pending_def bridge_redis_to_ws_def] split: if_splits)+

text \<open>Once the task has ended, nothing is sent any more.\<close>

lemma dead_bridge_step: "\<not> so_bridge s \<Longrightarrow> so_sent (socket_step i x s) = so_sent s \<and> \<not> so_bridge (socket_step i x s)"
  by (cases "(i, x, s)" rule: socket_step.cases) (simp_all add: deliver_def forward_def)

lemma dead_bridge_run: "\<not> so_bridge s \<Longrightarrow> so_sent (socket_run i xs s) = so_sent s \<and> \<not> so_bridge (socket_run i xs s)"
proof (induction xs arbitrary: s)
  case (Cons x xs)
  with dead_bridge_step [OF Cons.prems, of i x] show ?case by (simp add: socket_run_def)
qed (simp add: socket_run_def)

lemma socket_step_prefix: "prefix (so_sent (socket_step i x s)) (so_sent s @ pending s @ published (so_channel s) [x])"
  by (cases "(i, x, s)" rule: socket_step.cases)
    (auto simp: deliver_def forward_stream(3))

lemma socket_run_stream:
  "so_bridge (socket_run i xs s) \<Longrightarrow>
     so_sent (socket_run i xs s) @ pending (socket_run i xs s) = so_sent s @ pending s @ published (so_channel s) xs"
  "prefix (so_sent (socket_run i xs s)) (so_sent s @ pending s @ published (so_channel s) xs)"
proof (induction xs arbitrary: s)
  case Nil
  { case 1 show ?case by (simp add: socket_run_def) }
  { case 2 show ?case by (simp add: socket_run_def) }
next
  case (Cons x xs)
  have run: "socket_run i (x # xs) s = socket_run i xs (socket_step i x s)" for s by (simp add: socket_run_def)
  have pub: "published c (x # xs) = published c [x] @ published c xs" for c
    using published_append [of c "[x]" xs] by simp
  { case 1
    then have alive: "so_bridge (socket_run i xs (socket_step i x s))" unfolding run .
    then have "so_bridge (socket_step i x s)" using dead_bridge_run by blast
    from socket_step_stream(2) [OF this] Cons.IH(1) [OF alive] show ?case
      unfolding run pub channel_step by (metis append_assoc) }
  { case 2
    show ?case
    proof (cases "so_bridge (socket_step i x s)")
      case True
      with Cons.IH(2) [of "socket_step i x s"] socket_step_stream(2) [OF True] show ?thesis
        unfolding run pub channel_step by (metis append_assoc)
    next
      case False
      then have "so_sent (socket_run i xs (socket_step i x s)) = so_sent (socket_step i x s)"
        using dead_bridge_run by blast
      moreover have "prefix (so_sent (socket_step i x s))
          ((so_sent s @ pending s @ published (so_channel s) [x]) @ published (so_channel s) xs)"
        using socket_step_prefix by (rule prefix_prefix)
      ultimately show ?thesis unfolding run pub by simp
    qed }
qed

text \<open>What the socket of a new connection makes of the events after it.\<close>

lemma new_socket_stream:
  "so_bridge (socket_run i xs (new_socket channel)) \<Longrightarrow>
     so_sent (socket_run i xs (new_socket channel)) @ pending (socket_run i xs (new_socket channel)) = published channel xs"
  "prefix (so_sent (socket_run i xs (new_socket channel))) (published channel xs)"
  using socket_run_stream [of i xs "new_socket channel"]
  by (simp_all add: new_socket_def pending_def bridge_redis_to_ws_def)

lemma connected:
  "list_all (stays i) xs \<Longrightarrow> sockets (gateway_run (before @ Connect i (Subscribed channel) # xs) g) i
     = Some (socket_run i xs (new_socket channel))"
  by (simp add: gateway_run_socket)

text \<open>Enough rounds of a task that nothing ends empty the inbox.\<close>

lemma forward_rounds:
  "so_bridge s \<Longrightarrow> length (so_inbox s) \<le> n \<Longrightarrow>
     so_bridge ((forward True ^^ n) s) \<and> so_inbox ((forward True ^^ n) s) = []"
proof (induction n arbitrary: s)
  case (Suc n)
  have "so_bridge (forward True s)" "length (so_inbox (forward True s)) \<le> n"
    using Suc.prems by (auto simp: forward_def split: list.split)
  from Suc.IH [OF this] show ?case by (simp add: funpow_swap1)
qed simp

lemma socket_run_rounds: "socket_run i (replicate n (Forward i True)) s = (forward True ^^ n) s"
  by (induction n arbitrary: s) (simp_all add: socket_run_def funpow_swap1)

fun fails_at :: "nat \<Rightarrow> gw_event \<Rightarrow> bool" where
  "fails_at i (Forward j ok) = (j = i \<and> \<not> ok)"
| "fails_at i (ListenFails j) = (j = i)"
| "fails_at i _ = False"

lemma bridge_step: "so_bridge s \<Longrightarrow> \<not> fails_at i x \<Longrightarrow> so_bridge (socket_step i x s)"
  by (cases "(i, x, s)" rule: socket_step.cases) (auto simp: deliver_def forward_def split: list.split)

lemma bridge_run: "so_bridge s \<Longrightarrow> list_all (\<lambda>x. \<not> fails_at i x) xs \<Longrightarrow> so_bridge (socket_run i xs s)"
proof (induction xs arbitrary: s)
  case (Cons x xs)
  with bridge_step [of s i x] show ?case by (simp add: socket_run_def)
qed (simp add: socket_run_def)

lemma inbox_step: "length (so_inbox (socket_step i x s)) \<le> length (so_inbox s) + length (published (so_channel s) [x])"
  by (cases "(i, x, s)" rule: socket_step.cases) (auto simp: deliver_def forward_def split: list.split)

lemma inbox_run: "length (so_inbox (socket_run i xs s)) \<le> length (so_inbox s) + length (published (so_channel s) xs)"
proof (induction xs arbitrary: s)
  case (Cons x xs)
  have "published (so_channel s) (x # xs) = published (so_channel s) [x] @ published (so_channel s) xs"
    using published_append [of "so_channel s" "[x]" xs] by simp
  with Cons [of "socket_step i x s"] inbox_step [of i x s] show ?case by (simp add: socket_run_def)
qed (simp add: socket_run_def)

section \<open>Properties\<close>

text \<open>
  C36 (the stream of a socket). Whatever happened before a client connects and whatever happens until it leaves,
  what it has been sent is an initial part, in order and without repetitions or gaps, of what was published on the
  one channel of its handshake since then, and nothing else; as long as its forwarding task lives, the rest is
  waiting for it. What was published before is never sent.
\<close>

theorem socket_stream:
  assumes "list_all (stays i) later"
  shows "\<exists>s. sockets (gateway_run (before @ Connect i (Subscribed channel) # later) empty_gateway) i = Some s
    \<and> so_channel s = channel \<and> prefix (so_sent s) (published channel later)
    \<and> (so_bridge s \<longrightarrow> so_sent s @ pending s = published channel later)"
proof -
  have "so_channel (socket_run i later (new_socket channel)) = channel" by (simp add: new_socket_def)
  with connected [OF assms] new_socket_stream [of i later channel] show ?thesis by auto
qed

lemma messages_delivered:
  assumes "list_all (stays i) later" and "list_all (\<lambda>x. \<not> fails_at i x) later"
    and "Suc (length (published channel later)) \<le> n"
  shows "map_option so_sent (sockets (gateway_run (before @ Connect i (Subscribed channel) # later
      @ replicate n (Forward i True)) empty_gateway) i) = Some (published channel later)"
proof -
  let ?s = "socket_run i later (new_socket channel)" and ?xs = "later @ replicate n (Forward i True)"
  have run: "socket_run i ?xs (new_socket channel) = (forward True ^^ n) ?s"
    using socket_run_rounds [of i n ?s] by (simp add: socket_run_def)
  have "so_bridge ?s" by (rule bridge_run [OF _ assms(2)]) (simp add: new_socket_def)
  moreover have "length (so_inbox ?s) \<le> n"
    using inbox_run [of i later "new_socket channel"] assms(3) by (simp add: new_socket_def)
  ultimately have idle: "so_bridge (socket_run i ?xs (new_socket channel))"
    "so_inbox (socket_run i ?xs (new_socket channel)) = []"
    using forward_rounds by (simp_all add: run)
  have "published channel (replicate n (Forward i True)) = []" by (induction n) simp_all
  then have "so_sent (socket_run i ?xs (new_socket channel)) = published channel later"
    using new_socket_stream(1) [OF idle(1)] idle(2) by (simp add: pending_def bridge_redis_to_ws_def)
  moreover have "list_all (stays i) ?xs" using assms(1) by (simp add: list_all_iff set_replicate_conv_if)
  ultimately show ?thesis using connected [of i ?xs before channel empty_gateway] by simp
qed

text \<open>
  C37 (delivery). If neither the subscription nor a send of it fails, then from some number of rounds of its
  forwarding task on, a client has been sent exactly the messages that were published on its channel since it
  connected, each once and in order.
\<close>

theorem messages_are_delivered:
  assumes "list_all (stays i) later" and "list_all (\<lambda>x. \<not> fails_at i x) later"
  shows "\<exists>n. \<forall>k \<ge> n. map_option so_sent (sockets (gateway_run (before @ Connect i (Subscribed channel) # later
      @ replicate k (Forward i True)) empty_gateway) i) = Some (published channel later)"
  using messages_delivered [OF assms] by blast

text \<open>What a request publishes, as events of the gateway.\<close>

definition events_of :: "world \<Rightarrow> world \<Rightarrow> gw_event list" where
  "events_of w w' = map Publish (drop (length (bus w)) (bus w'))"

definition event_body :: "env \<Rightarrow> nat \<Rightarrow> string \<Rightarrow> (string \<times> payload) list \<Rightarrow> payload" where
  "event_body e k ty pl = PDict ([(''type'', PStr ty), (''seq'', PInt (seq_ns e k))] @ pl)"

lemma events_of_publish_both:
  assumes "redis_ok e 0" and "redis_ok e 1"
  shows "events_of w (publish_both e r s ty pl w)
    = [Publish \<lparr>msg_channel = kitchen_channel r, msg_body = event_body e 0 ty pl\<rparr>,
       Publish \<lparr>msg_channel = session_channel r s, msg_body = event_body e 1 ty pl\<rparr>]"
  using assms by (simp add: events_of_def publish_both_def publish_def event_body_def Let_def)

text \<open>
  Fan-out: What a service publishes reaches those it is for and nobody else: a screen of the restaurant's
  kitchen is sent the event once, a guest of the session once, and every other socket, of another restaurant or of
  another session, nothing.
\<close>

theorem event_reaches_its_listeners:
  assumes "redis_ok e 0" and "redis_ok e 1" and "3 \<le> n"
  shows "map_option so_sent (sockets (gateway_run (before @ Connect i (Subscribed channel)
      # events_of w (publish_both e r s ty pl w) @ replicate n (Forward i True)) empty_gateway) i)
    = Some (if channel = kitchen_channel r then [event_body e 0 ty pl]
            else if channel = session_channel r s then [event_body e 1 ty pl] else [])"
proof -
  have "length (kitchen_channel r) \<noteq> length (session_channel r s)"
    by (simp add: kitchen_channel_def session_channel_def)
  then have ne: "kitchen_channel r \<noteq> session_channel r s" by metis
  then show ?thesis
    using messages_delivered [of i "events_of w (publish_both e r s ty pl w)" channel n before] assms(3)
    unfolding events_of_publish_both [OF assms(1,2)] by (auto split: if_splits)
qed

text \<open>When the task ends, the receive loop goes on: the socket stays open and silent, whatever is published.\<close>

lemma dead_bridge_stays_open:
  assumes "sockets g i = Some s" and "list_all (stays i) later"
  shows "\<exists>s'. sockets (gateway_run (ListenFails i # later) g) i = Some s' \<and> so_sent s' = so_sent s"
proof -
  have "sockets (gateway_step (ListenFails i) g) i = Some (s\<lparr>so_bridge := False\<rparr>)"
    using assms(1) by (simp add: on_socket_def)
  from gateway_run_socket [OF this assms(2)] dead_bridge_run [of "s\<lparr>so_bridge := False\<rparr>" i later]
  show ?thesis by simp
qed

text \<open>A message between a client's snapshot and its subscription is in neither.\<close>

lemma message_before_the_subscription_is_lost:
  assumes "list_all (stays i) later" and "m \<notin> set (published channel later)"
  shows "\<exists>s. sockets (gateway_run (before @ Publish \<lparr>msg_channel = channel, msg_body = m\<rparr>
      # Connect i (Subscribed channel) # later) empty_gateway) i = Some s \<and> m \<notin> set (so_sent s)"
proof -
  have "m \<notin> set (so_sent (socket_run i later (new_socket channel)))"
    using new_socket_stream(2) [of i later channel] assms(2) set_mono_prefix by blast
  with connected [OF assms(1), of "before @ [Publish \<lparr>msg_channel = channel, msg_body = m\<rparr>]" channel empty_gateway]
  show ?thesis by simp
qed

section \<open>Witnesses\<close>

lemma socket_stream_witness:
  "\<exists>s. sockets (gateway_run [Publish \<lparr>msg_channel = ''a'', msg_body = PInt 1\<rparr>, Connect 7 (Subscribed ''a''),
      Publish \<lparr>msg_channel = ''b'', msg_body = PInt 2\<rparr>, Publish \<lparr>msg_channel = ''a'', msg_body = PInt 3\<rparr>,
      Forward 7 True] empty_gateway) 7 = Some s \<and> prefix (so_sent s) [PInt 3]"
  using socket_stream [where i = 7 and channel = "''a''"
      and before = "[Publish \<lparr>msg_channel = ''a'', msg_body = PInt 1\<rparr>]"
      and later = "[Publish \<lparr>msg_channel = ''b'', msg_body = PInt 2\<rparr>,
        Publish \<lparr>msg_channel = ''a'', msg_body = PInt 3\<rparr>, Forward 7 True]"]
  by auto

lemma messages_are_delivered_witness:
  "\<exists>n. map_option so_sent (sockets (gateway_run ([] @ Connect 7 (Subscribed ''a'')
      # [Publish \<lparr>msg_channel = ''a'', msg_body = PInt 3\<rparr>] @ replicate n (Forward 7 True)) empty_gateway) 7)
    = Some [PInt 3]"
proof -
  let ?later = "[Publish \<lparr>msg_channel = ''a'', msg_body = PInt 3\<rparr>]"
  have "list_all (stays 7) ?later" and "list_all (\<lambda>x. \<not> fails_at 7 x) ?later" and p: "published ''a'' ?later = [PInt 3]"
    by simp_all
  from messages_are_delivered [OF this(1,2), of "[]" "''a''"] obtain n where
    "\<forall>k \<ge> n. map_option so_sent (sockets (gateway_run ([] @ Connect 7 (Subscribed ''a'') # ?later
      @ replicate k (Forward 7 True)) empty_gateway) 7) = Some [PInt 3]" unfolding p by blast
  then show ?thesis by blast
qed

lemma event_reaches_its_listeners_witness:
  "map_option so_sent (sockets (gateway_run ([] @ Connect 7 (Subscribed (kitchen_channel 1))
      # events_of \<lparr>db = demo, bus = []\<rparr> (publish_both demo_env 1 50 ITEM_UPDATED [] \<lparr>db = demo, bus = []\<rparr>)
      @ replicate 3 (Forward 7 True)) empty_gateway) 7)
    = Some [event_body demo_env 0 ITEM_UPDATED []]"
  using event_reaches_its_listeners [of demo_env 3 "[]" 7 "kitchen_channel 1" "\<lparr>db = demo, bus = []\<rparr>" 1 50 ITEM_UPDATED "[]"]
  by simp

end
