(* ===== verification/Events.thy ===== *)
theory Events imports System Gateway begin

text \<open>
  From a request to the sockets: on which channels each handler publishes, and so which sockets of \<^verbatim>\<open>Gateway\<close> what
  \<^verbatim>\<open>System\<close> handles can reach.
\<close>

section \<open>Channels of a restaurant\<close>

definition own_channels :: "uuid \<Rightarrow> string set" where
  "own_channels r = insert (kitchen_channel r) (range (session_channel r))"

lemma own_channels_disjoint: "r \<noteq> r' \<Longrightarrow> own_channels r \<inter> own_channels r' = {}"
proof -
  have "length (kitchen_channel a) \<noteq> length (session_channel b s)" for a b s
    by (simp add: kitchen_channel_def session_channel_def)
  then have "kitchen_channel a \<noteq> session_channel b s" for a b s by metis
  then show "r \<noteq> r' \<Longrightarrow> own_channels r \<inter> own_channels r' = {}"
    by (auto simp: own_channels_def kitchen_channel_def session_channel_def dest: sym)
qed

text \<open>A channel is extended by messages for the restaurants \<open>rs\<close> only.\<close>

definition posts :: "uuid set \<Rightarrow> world \<Rightarrow> world \<Rightarrow> bool" where
  "posts rs w w' \<longleftrightarrow> (\<exists>ms. bus w' = bus w @ ms \<and> (\<forall>m \<in> set ms. \<exists>r \<in> rs. msg_channel m \<in> own_channels r))"

lemma posts_same [simp]: "bus w' = bus w \<Longrightarrow> posts rs w w'"
  by (simp add: posts_def)

lemma posts_publish_both [simp]:
  "bus w' = bus w \<Longrightarrow> r \<in> rs \<Longrightarrow> posts rs w (publish_both e r s ty pl w')"
  by (auto simp: posts_def publish_both_def publish_def own_channels_def Let_def)

lemma posts_trans: "posts rs w w' \<Longrightarrow> posts rs w' w'' \<Longrightarrow> posts rs w w''"
  unfolding posts_def by (elim exE conjE) (force simp: ball_Un)

section \<open>The handlers\<close>

text \<open>The three services that publish.\<close>

lemma posts_create_call: "create_call e tid sid rid (w\<lparr>db := d\<rparr>) = (res, w') \<Longrightarrow> posts {rid} w w'"
  by (auto simp: create_call_def Let_def split: sum.splits option.splits if_splits)

lemma posts_ack: "ack e cid u rid w = (res, w') \<Longrightarrow> posts {rid} w w'"
  by (auto simp: ack_def Let_def split: sum.splits option.splits if_splits)

lemma posts_create_order:
  "posts (set_option (code_tenant qr (db w))) w (snd (create_order e qr items w))"
  by (auto simp: create_order_def code_tenant_def Let_def split: sum.splits prod.splits)

lemma posts_cancel_item_customer:
  "posts (set_option (code_tenant qr (db w))) w (snd (cancel_item_customer e qr i reason w))"
  by (auto simp: cancel_item_customer_def code_tenant_def Let_def split: sum.splits prod.splits option.splits exn.splits)

lemma posts_call_staff: "posts (set_option (code_tenant qr (db w))) w (snd (call_staff e qr w))"
  by (auto simp: call_staff_def code_tenant_def Let_def intro: posts_create_call
      split: sum.splits prod.splits option.splits)

lemma posts_get_session_snapshot: "bus (snd (get_session_snapshot e qr w)) = bus w"
  by (auto simp: get_session_snapshot_def Let_def split: sum.splits prod.splits option.splits)

lemma posts_set_item_status: "posts {tp_restaurant_id user} w (snd (set_item_status e i to user w))"
  by (auto simp: set_item_status_def Let_def split: sum.splits prod.splits option.splits exn.splits)

lemma posts_cancel_item_staff: "posts {tp_restaurant_id user} w (snd (cancel_item_staff e i user reason w))"
  by (auto simp: cancel_item_staff_def Let_def split: sum.splits prod.splits option.splits exn.splits)

lemma posts_ack_staff_call: "posts {tp_restaurant_id user} w (snd (ack_staff_call e c user w))"
  by (auto simp: ack_staff_call_def Let_def intro: posts_ack split: sum.splits prod.splits option.splits exn.splits)

lemma posts_checkout_session: "posts {tp_restaurant_id user} w (snd (checkout_session e s user w))"
  by (auto simp: checkout_session_def Let_def split: sum.splits prod.splits option.splits exn.splits)

lemma posts_restore_session: "posts {tp_restaurant_id user} w (snd (restore_session e s user w))"
  by (auto simp: restore_session_def Let_def split: sum.splits prod.splits option.splits exn.splits)

text \<open>The others publish nothing.\<close>

lemma bus_open_table [simp]: "bus (snd (open_table e t user w)) = bus w"
  by (auto simp: open_table_def Let_def split: sum.splits prod.splits option.splits)

lemma bus_settings [simp]:
  "bus (snd (reset_staff_pin bc salt e pin user w)) = bus w" "bus (snd (update_settings e body user w)) = bus w"
  by (auto simp: reset_staff_pin_def update_settings_def Let_def split: sum.splits prod.splits option.splits)

lemma bus_menu [simp]:
  "bus (snd (create_menu_category e cb user w)) = bus w" "bus (snd (update_menu_category e i ub user w)) = bus w"
  "bus (snd (create_menu_item e ib user w)) = bus w" "bus (snd (update_menu_item e i pb user w)) = bus w"
  by (auto simp: create_menu_category_def update_menu_category_def create_menu_item_def update_menu_item_def
      answer_category_def answer_item_def Let_def split: sum.splits prod.splits option.splits)

lemma bus_photos [simp]:
  "bus (snd (fst (upload_menu_item_image e pil cfg api i ct file user w st))) = bus w"
  "bus (snd (fst (delete_menu_item_image e cfg api i user w st))) = bus w"
  by (auto simp: upload_menu_item_image_def delete_menu_item_image_def discard_after_def answer_item_def Let_def
      split: sum.splits prod.splits option.splits)

lemma bus_tables [simp]:
  "bus (snd (fst (create_table e base render cfg api qr n user w st))) = bus w"
  "bus (snd (update_table e i tb user w)) = bus w"
  "bus (snd (fst (regenerate_qr e base render cfg api qr i user w st))) = bus w"
  by (auto simp: create_table_def update_table_def regenerate_qr_def answer_table_def Let_def
      split: sum.splits prod.splits option.splits)

section \<open>The application\<close>

lemma world_endpoints [simp]:
  "fst (snd (on_world f h a)) = snd (h (fst a))" "fst (snd (on_storage f h2 a)) = snd (fst (h2 (fst a) (fst (snd a))))"
  "fst (snd (on_redis f h3 a)) = fst a" "fst (snd (reading f h4 a)) = fst a"
  by (simp_all add: endpoint_defs split: prod.splits)

lemma posts_secured:
  assumes "\<And>u. posts {tp_restaurant_id u} (fst a) (fst (snd (h u a)))"
  shows "posts (set_option (token_tenant cf i roles)) (fst a) (fst (snd (secured cf i roles h a)))"
  by (rule secured_cases [of cf i roles h a]) (simp_all add: assms)

lemma posts_customer_route:
  "posts (set_option (code_tenant (customer_code q) (app_db a))) (fst a) (fst (snd (customer_route i q a)))"
  by (cases q) (simp_all add: app_db_def posts_create_order posts_cancel_item_customer posts_call_staff
      posts_get_session_snapshot)

lemma posts_staff_routes:
  "posts {tp_restaurant_id u} (fst a) (fst (snd (kitchen_route i kq u a)))"
  "posts {tp_restaurant_id u} (fst a) (fst (snd (staff_table_route i sq u a)))"
  by ((cases kq; simp add: posts_set_item_status posts_cancel_item_staff posts_ack_staff_call),
      (cases sq; simp add: posts_checkout_session posts_restore_session))

lemma posts_admin_routes:
  "posts {tp_restaurant_id u} (fst a) (fst (snd (admin_route cf i q1 u a)))"
  "posts {tp_restaurant_id u} (fst a) (fst (snd (admin_menu_route cf i q2 u a)))"
  "posts {tp_restaurant_id u} (fst a) (fst (snd (admin_table_route cf i q3 u a)))"
  by ((cases q1; simp), (cases q2; simp), (cases q3; simp))

lemma posts_handle: "posts (set_option (tenant_of cf i q (app_db a))) (fst a) (fst (snd (handle cf i q a)))"
proof (cases q)
  case (AuthRoute p)
  then show ?thesis by (cases p) simp_all
next
  case (WsRoute p)
  then show ?thesis by (cases p) (simp_all split: prod.split)
qed (simp_all add: posts_secured posts_customer_route posts_staff_routes posts_admin_routes)

text \<open>A row of requests, each with what it finds besides its body.\<close>

fun serve :: "('k::linorder, 'r) config \<Rightarrow> (input \<times> request) list \<Rightarrow> 'r app \<Rightarrow> 'r app" where
  "serve cf [] a = a"
| "serve cf ((i, q) # qs) a = serve cf qs (snd (handle cf i q a))"

text \<open>None of them has, when its turn comes, the rights of restaurant \<open>r\<close>.\<close>

fun foreign :: "('k::linorder, 'r) config \<Rightarrow> uuid \<Rightarrow> (input \<times> request) list \<Rightarrow> 'r app \<Rightarrow> bool" where
  "foreign cf r [] a = True"
| "foreign cf r ((i, q) # qs) a = (tenant_of cf i q (app_db a) \<noteq> Some r \<and> foreign cf r qs (snd (handle cf i q a)))"

lemma posts_mono: "posts rs w w' \<Longrightarrow> rs \<subseteq> rs' \<Longrightarrow> posts rs' w w'"
  unfolding posts_def by blast

lemma posts_serve: "foreign cf r qs a \<Longrightarrow> posts (- {r}) (fst a) (fst (serve cf qs a))"
proof (induction qs arbitrary: a)
  case (Cons p qs)
  obtain i q where p: "p = (i, q)" by (cases p)
  have "posts (- {r}) (fst a) (fst (snd (handle cf i q a)))"
    by (rule posts_mono [OF posts_handle]) (use Cons.prems p in \<open>auto simp: elem_set\<close>)
  moreover have "posts (- {r}) (fst (snd (handle cf i q a))) (fst (serve cf qs (snd (handle cf i q a))))"
    by (rule Cons.IH) (use Cons.prems p in simp)
  ultimately show ?case unfolding p serve.simps by (rule posts_trans)
qed simp

text \<open>Messages for other channels leave a socket as it is.\<close>

lemma socket_unmoved:
  assumes "posts rs w w'" and "sockets g k = Some s" and "\<And>r. r \<in> rs \<Longrightarrow> so_channel s \<notin> own_channels r"
  shows "sockets (gateway_run (events_of w w') g) k = Some s"
proof -
  from assms(1) obtain ms where ms: "bus w' = bus w @ ms" "\<forall>m \<in> set ms. \<exists>r \<in> rs. msg_channel m \<in> own_channels r"
    by (auto simp: posts_def)
  have "sockets (gateway_run (map Publish ms) g) k = Some s"
    using ms(2) assms(2)
  proof (induction ms arbitrary: g)
    case (Cons m ms)
    from Cons.prems(1) assms(3) have "so_channel s \<noteq> msg_channel m" by auto
    then have "sockets (gateway_step (Publish m) g) k = Some s" using Cons.prems(2) by (simp add: deliver_def)
    with Cons show ?case by simp
  qed simp
  then show ?thesis by (simp add: events_of_def ms(1))
qed

section \<open>Properties\<close>

text \<open>
  C27 (events stay in the restaurant). A socket on a channel of a restaurant, kitchen or session, is left exactly
  as it is by whatever requests, however many, none of which carries a QR code or an admissible token of that
  restaurant: not one message of theirs is put into its inbox.
\<close>

theorem events_stay_in_the_restaurant:
  assumes "foreign cf r qs a" and "sockets g k = Some s" and "so_channel s \<in> own_channels r"
  shows "sockets (gateway_run (events_of (fst a) (fst (serve cf qs a))) g) k = Some s"
  by (rule socket_unmoved [OF posts_serve [OF assms(1)] assms(2)]) (use assms(3) own_channels_disjoint in blast)

text \<open>A guest of the first restaurant orders; the kitchen screen of the second sees nothing of it.\<close>

lemma events_stay_in_the_restaurant_witness:
  "(let qs = [(demo_input None, CustomerRoute (CreateOrder ''qr-20'' demo_request))];
        g = gateway_run [Connect 7 (Subscribed (kitchen_channel 2))] empty_gateway
    in sockets (gateway_run (events_of (fst demo_app) (fst (serve demo_config qs demo_app))) g) 7
       = Some (new_socket (kitchen_channel 2)))"
proof -
  have "foreign demo_config 2 [(demo_input None, CustomerRoute (CreateOrder ''qr-20'' demo_request))] demo_app"
    by (simp add: code_tenant_def demo_resolve demo_restaurant_def)
  from events_stay_in_the_restaurant [OF this, of "gateway_run [Connect 7 (Subscribed (kitchen_channel 2))] empty_gateway" 7
      "new_socket (kitchen_channel 2)"]
  show ?thesis unfolding Let_def by (simp add: new_socket_def own_channels_def)
qed

end
