(* ===== verification/Images.thy ===== *)
theory Images imports Prelude begin

text \<open>
  \<^verbatim>\<open>qorder_api/images.py\<close>: the pipeline from an uploaded photo to its two variants. The calls of Pillow it is made of
  are a parameter (\<open>pillow\<close>), with images of any type; those that the documentation lets raise do so here. What the
  program relies on of Pillow is \<open>pillow_laws\<close>: modes and sizes, not pixels.
\<close>

section \<open>Pillow\<close>

type_synonym size = "nat \<times> nat"

record 'i pillow =
  open_load :: "string \<Rightarrow> string + 'i"
  exif_transpose :: "'i \<Rightarrow> string + 'i"
  img_mode :: "'i \<Rightarrow> string"
  img_size :: "'i \<Rightarrow> size"
  convert :: "'i \<Rightarrow> string \<Rightarrow> string + 'i"
  new_image :: "string \<Rightarrow> size \<Rightarrow> nat \<times> nat \<times> nat \<Rightarrow> string + 'i"
  last_band :: "'i \<Rightarrow> string + 'i"
  paste :: "'i \<Rightarrow> 'i \<Rightarrow> 'i \<Rightarrow> string + 'i"
  ops_fit :: "'i \<Rightarrow> size \<Rightarrow> string + 'i"
  img_copy :: "'i \<Rightarrow> string + 'i"
  img_thumbnail :: "'i \<Rightarrow> size \<Rightarrow> string + 'i"
  save_webp :: "'i \<Rightarrow> nat \<Rightarrow> string + string"

text \<open>
  What a call gives when it does not raise: \<^verbatim>\<open>fit\<close> exactly the size asked for, \<^verbatim>\<open>thumbnail\<close> one within it, leaving an
  image that is within it already; pasting and copying change neither size nor mode, converting only the mode.
\<close>

definition pillow_laws :: "'i pillow \<Rightarrow> bool" where
  "pillow_laws p \<longleftrightarrow>
     (\<forall>i m j. convert p i m = Inr j \<longrightarrow> img_mode p j = m \<and> img_size p j = img_size p i)
     \<and> (\<forall>m s c j. new_image p m s c = Inr j \<longrightarrow> img_mode p j = m \<and> img_size p j = s)
     \<and> (\<forall>i k b j. paste p i k b = Inr j \<longrightarrow> img_mode p j = img_mode p i \<and> img_size p j = img_size p i)
     \<and> (\<forall>i s j. ops_fit p i s = Inr j \<longrightarrow> img_mode p j = img_mode p i \<and> img_size p j = s)
     \<and> (\<forall>i j. img_copy p i = Inr j \<longrightarrow> img_mode p j = img_mode p i \<and> img_size p j = img_size p i)
     \<and> (\<forall>i a b j. img_thumbnail p i (a, b) = Inr j \<longrightarrow> img_mode p j = img_mode p i
          \<and> fst (img_size p j) \<le> a \<and> snd (img_size p j) \<le> b
          \<and> (fst (img_size p i) \<le> a \<and> snd (img_size p i) \<le> b \<longrightarrow> img_size p j = img_size p i))"

section \<open>The pipeline\<close>

definition THUMB_SIZE :: size where "THUMB_SIZE = (400, 400)"
definition LARGE_MAX_SIDE :: nat where "LARGE_MAX_SIDE = 1000"
definition THUMB_QUALITY :: nat where "THUMB_QUALITY = 80"
definition LARGE_QUALITY :: nat where "LARGE_QUALITY = 82"

definition raising :: "string + 'a \<Rightarrow> 'a result" where
  "raising r = (case r of Inl msg \<Rightarrow> Inl (PillowError msg) | Inr x \<Rightarrow> Inr x)"

definition on_success :: "'a result \<Rightarrow> ('a \<Rightarrow> 'b result) \<Rightarrow> 'b result" where
  "on_success r k = (case r of Inl x \<Rightarrow> Inl x | Inr a \<Rightarrow> k a)"

definition load_flattened :: "'i pillow \<Rightarrow> string \<Rightarrow> 'i result" where
  "load_flattened p raw =
     (case open_load p raw of
        Inl _ \<Rightarrow> Inl ImageValidationError
      | Inr img \<Rightarrow>
          on_success (raising (exif_transpose p img)) (\<lambda>img.
            if img_mode p img \<in> {''RGBA'', ''LA'', ''P''} then
              on_success (raising (convert p img ''RGBA'')) (\<lambda>img.
              on_success (raising (new_image p ''RGB'' (img_size p img) (255, 255, 255))) (\<lambda>canvas.
              on_success (raising (last_band p img)) (\<lambda>mask.
                raising (paste p canvas img mask))))
            else raising (convert p img ''RGB'')))"

definition encode_webp :: "'i pillow \<Rightarrow> 'i \<Rightarrow> nat \<Rightarrow> string result" where
  "encode_webp p img quality = raising (save_webp p img quality)"

definition process_menu_image :: "'i pillow \<Rightarrow> string \<Rightarrow> (string \<times> string) result" where
  "process_menu_image p raw =
     on_success (load_flattened p raw) (\<lambda>base.
     on_success (raising (ops_fit p base THUMB_SIZE)) (\<lambda>thumb.
     on_success (raising (img_copy p base)) (\<lambda>copy.
     on_success (raising (img_thumbnail p copy (LARGE_MAX_SIDE, LARGE_MAX_SIDE))) (\<lambda>large.
     on_success (encode_webp p thumb THUMB_QUALITY) (\<lambda>t.
     on_success (encode_webp p large LARGE_QUALITY) (\<lambda>l. Inr (t, l)))))))"

section \<open>Facts\<close>

lemma raising_iff [simp]:
  "raising r = Inr x \<longleftrightarrow> r = Inr x" "raising r = Inl y \<longleftrightarrow> (\<exists>msg. r = Inl msg \<and> y = PillowError msg)"
  by (cases r; auto simp: raising_def)+

lemma on_success_iff [simp]:
  "on_success r k = Inr y \<longleftrightarrow> (\<exists>a. r = Inr a \<and> k a = Inr y)"
  "on_success r k = Inl x \<longleftrightarrow> r = Inl x \<or> (\<exists>a. r = Inr a \<and> k a = Inl x)"
  by (cases r; auto simp: on_success_def)+

lemma pillow_lawsD:
  assumes "pillow_laws p"
  shows "convert p i m = Inr j \<Longrightarrow> img_mode p j = m \<and> img_size p j = img_size p i"
    and "new_image p m s c = Inr j \<Longrightarrow> img_mode p j = m \<and> img_size p j = s"
    and "paste p i k b = Inr j \<Longrightarrow> img_mode p j = img_mode p i \<and> img_size p j = img_size p i"
    and "ops_fit p i s = Inr j \<Longrightarrow> img_mode p j = img_mode p i \<and> img_size p j = s"
    and "img_copy p i = Inr j \<Longrightarrow> img_mode p j = img_mode p i \<and> img_size p j = img_size p i"
    and "img_thumbnail p i (n, n) = Inr j \<Longrightarrow> img_mode p j = img_mode p i
          \<and> fst (img_size p j) \<le> n \<and> snd (img_size p j) \<le> n
          \<and> (fst (img_size p i) \<le> n \<and> snd (img_size p i) \<le> n \<longrightarrow> img_size p j = img_size p i)"
  using assms unfolding pillow_laws_def by blast+

lemma load_flattened_Inr:
  assumes "pillow_laws p" and "load_flattened p raw = Inr base"
  obtains img up where "open_load p raw = Inr img" and "exif_transpose p img = Inr up"
    and "img_mode p base = ''RGB''" and "img_size p base = img_size p up"
proof -
  note laws = pillow_lawsD [OF assms(1)]
  obtain img up where up: "open_load p raw = Inr img" "exif_transpose p img = Inr up"
    using assms(2) by (auto simp: load_flattened_def split: sum.splits)
  show thesis
  proof (cases "img_mode p up \<in> {''RGBA'', ''LA'', ''P''}")
    case True
    with assms(2) up obtain i canvas mask where "convert p up ''RGBA'' = Inr i"
      and "new_image p ''RGB'' (img_size p i) (255, 255, 255) = Inr canvas" and "paste p canvas i mask = Inr base"
      by (auto simp: load_flattened_def)
    with laws(1-3) up show thesis by (intro that) auto
  next
    case False
    with assms(2) up have "convert p up ''RGB'' = Inr base" by (simp add: load_flattened_def)
    with laws(1) up show thesis by (intro that) auto
  qed
qed

lemma load_flattened_Inl:
  "load_flattened p raw = Inl x \<Longrightarrow> x = ImageValidationError \<and> isl (open_load p raw)
     \<or> \<not> isl (open_load p raw) \<and> (\<exists>msg. x = PillowError msg)"
  by (auto simp: load_flattened_def split: sum.splits if_splits)

lemma process_menu_image_Inl:
  assumes "process_menu_image p raw = Inl x"
  shows "(x = ImageValidationError \<longleftrightarrow> isl (open_load p raw)) \<and> (x = ImageValidationError \<or> (\<exists>msg. x = PillowError msg))"
proof (cases "load_flattened p raw")
  case (Inl y)
  with load_flattened_Inl [OF Inl] assms show ?thesis by (auto simp: process_menu_image_def)
next
  case (Inr base)
  then have "\<not> isl (open_load p raw)" by (auto simp: load_flattened_def split: sum.splits)
  with Inr assms show ?thesis by (auto simp: process_menu_image_def encode_webp_def)
qed

section \<open>Properties\<close>

text \<open>
  C40 (photos). A photo that is processed gives two encodings of opaque RGB images: one of exactly 400 by 400 pixels, and
  one with no side over 1000, which is the upright photo in its own size when that fits already: nothing is
  enlarged. Bytes that cannot be decoded, and only those, raise the validation error that the route answers with
  400; what Pillow raises later, on turning, converting, scaling or encoding, is not caught.
\<close>

theorem photo_variants:
  assumes "pillow_laws p"
  shows "case process_menu_image p raw of
      Inr (thumb, large) \<Rightarrow> \<exists>img up t l. open_load p raw = Inr img \<and> exif_transpose p img = Inr up
        \<and> save_webp p t 80 = Inr thumb \<and> save_webp p l 82 = Inr large
        \<and> img_mode p t = ''RGB'' \<and> img_size p t = (400, 400) \<and> img_mode p l = ''RGB''
        \<and> fst (img_size p l) \<le> 1000 \<and> snd (img_size p l) \<le> 1000
        \<and> (fst (img_size p up) \<le> 1000 \<and> snd (img_size p up) \<le> 1000 \<longrightarrow> img_size p l = img_size p up)
    | Inl x \<Rightarrow> (x = ImageValidationError \<longleftrightarrow> isl (open_load p raw)) \<and> (x = ImageValidationError \<or> (\<exists>msg. x = PillowError msg))"
proof (cases "process_menu_image p raw")
  case (Inl x)
  show ?thesis unfolding Inl sum.case by (rule process_menu_image_Inl [OF Inl])
next
  case (Inr r)
  obtain thumb large where r: "r = (thumb, large)" by (cases r)
  from Inr r obtain base t copy l where base: "load_flattened p raw = Inr base" and t: "ops_fit p base THUMB_SIZE = Inr t"
    and copy: "img_copy p base = Inr copy" and l: "img_thumbnail p copy (LARGE_MAX_SIDE, LARGE_MAX_SIDE) = Inr l"
    and saved: "save_webp p t THUMB_QUALITY = Inr thumb" "save_webp p l LARGE_QUALITY = Inr large"
    by (auto simp: process_menu_image_def encode_webp_def)
  note laws = pillow_lawsD [OF assms]
  obtain img up where "open_load p raw = Inr img" "exif_transpose p img = Inr up"
    "img_mode p base = ''RGB''" "img_size p base = img_size p up"
    by (rule load_flattened_Inr [OF assms base])
  with saved laws(4) [OF t] laws(5) [OF copy] laws(6) [OF l] Inr r show ?thesis
    by (auto simp: THUMB_QUALITY_def LARGE_QUALITY_def THUMB_SIZE_def LARGE_MAX_SIDE_def)
qed

text \<open>A Pillow that only keeps modes and sizes.\<close>

definition demo_pillow :: "(string \<times> size) pillow" where
  "demo_pillow = \<lparr>open_load = (\<lambda>raw. if raw = ''photo'' then Inr (''P'', (1200, 900)) else Inl ''cannot identify image file''),
     exif_transpose = Inr, img_mode = fst, img_size = snd, convert = (\<lambda>i m. Inr (m, snd i)),
     new_image = (\<lambda>m s c. Inr (m, s)), last_band = (\<lambda>i. Inr (''L'', snd i)), paste = (\<lambda>i j k. Inr i),
     ops_fit = (\<lambda>i s. Inr (fst i, s)), img_copy = Inr,
     img_thumbnail = (\<lambda>i s. Inr (fst i, (min (fst (snd i)) (fst s), min (snd (snd i)) (snd s)))),
     save_webp = (\<lambda>i q. Inr (fst i))\<rparr>"

lemma demo_pillow_laws: "pillow_laws demo_pillow"
  by (auto simp: pillow_laws_def demo_pillow_def min_def)

lemma photo_variants_witness:
  "process_menu_image demo_pillow ''photo'' = Inr (''RGB'', ''RGB'')
   \<and> process_menu_image demo_pillow ''text'' = Inl ImageValidationError
   \<and> (\<exists>t. save_webp demo_pillow t 80 = Inr ''RGB'' \<and> img_size demo_pillow t = (400, 400))"
proof -
  have photo: "process_menu_image demo_pillow ''photo'' = Inr (''RGB'', ''RGB'')" by code_simp
  have bad: "process_menu_image demo_pillow ''text'' = Inl ImageValidationError" by code_simp
  from photo_variants [OF demo_pillow_laws, of "''photo''"] show ?thesis unfolding photo bad by auto
qed

end
