(* ===== verification/Reports.thy ===== *)
theory Reports imports Scheduler PyFloat "HOL-Library.Multiset" begin

text \<open>
  \<^verbatim>\<open>qorder_api/reporting/__init__.py\<close>: the daily revenue and the best-selling items of a restaurant,
  and their transfer to a Google spreadsheet. The calendar (the time zone of the database session, the
  zone of the process, the text of a date) and \<^verbatim>\<open>gspread\<close> are parameters; every call of \<^verbatim>\<open>gspread\<close> may
  raise, depending on the calls before it.
\<close>

section \<open>The aggregation\<close>

record calendar =
  day_of :: "timestamp \<Rightarrow> int"
  midnight :: "int \<Rightarrow> timestamp"
  date_text :: "int \<Rightarrow> string"

text \<open>\<^verbatim>\<open>SUM\<close> leaves NULL out and is NULL of no value.\<close>

definition sql_sum :: "int option list \<Rightarrow> int option" where
  "sql_sum xs = (let ys = map the (filter (\<lambda>x. x \<noteq> None) xs) in if ys = [] then None else Some (sum_list ys))"

definition closed_since :: "uuid \<Rightarrow> timestamp \<Rightarrow> database \<Rightarrow> TableSession list" where
  "closed_since rid since d =
     filter (\<lambda>s. ts_restaurant_id s = rid \<and> ts_status s = CLOSED
       \<and> (case ts_closed_at s of None \<Rightarrow> False | Some t \<Rightarrow> since \<le> t)) (table_sessions d)"

definition closed_day :: "calendar \<Rightarrow> TableSession \<Rightarrow> int" where
  "closed_day cal s = (case ts_closed_at s of None \<Rightarrow> 0 | Some t \<Rightarrow> day_of cal t)"

text \<open>\<^verbatim>\<open>GROUP BY closed_at::date ORDER BY day\<close>: the day, \<^verbatim>\<open>SUM(total_amount)\<close> and \<^verbatim>\<open>COUNT(*)\<close>.\<close>

definition daily_revenue :: "calendar \<Rightarrow> uuid \<Rightarrow> timestamp \<Rightarrow> database \<Rightarrow> (int \<times> money option \<times> nat) list" where
  "daily_revenue cal rid since d =
     (let rows = closed_since rid since d
      in map (\<lambda>day. let g = filter (\<lambda>s. closed_day cal s = day) rows
                    in (day, sql_sum (map ts_total_amount g), length g))
           (sort (remdups (map (closed_day cal) rows))))"

record RevenueRow =
  rr_day :: string
  rr_revenue :: rat
  rr_sessions :: nat

definition revenue_row :: "calendar \<Rightarrow> int \<times> money option \<times> nat \<Rightarrow> RevenueRow" where
  "revenue_row cal r = (case r of (day, revenue, sessions) \<Rightarrow>
     \<lparr>rr_day = date_text cal day,
      rr_revenue = (case revenue of None \<Rightarrow> 0 | Some v \<Rightarrow> if v = 0 then 0 else fl (of_int v / 100)),
      rr_sessions = sessions\<rparr>)"

text \<open>The join repeats an item for each order with its key.\<close>

definition served_since :: "uuid \<Rightarrow> timestamp \<Rightarrow> database \<Rightarrow> OrderItem list" where
  "served_since rid since d =
     concat (map (\<lambda>i. map (\<lambda>_. i) (filter (\<lambda>r. o_id r = oi_order_id i) (orders d)))
       (filter (\<lambda>i. oi_restaurant_id i = rid \<and> oi_status i = SERVED
          \<and> (case oi_served_at i of None \<Rightarrow> False | Some t \<Rightarrow> since \<le> t)) (order_items d)))"

definition sold :: "OrderItem list \<Rightarrow> string \<Rightarrow> int" where
  "sold rows name = sum_list (map oi_quantity (filter (\<lambda>i. oi_name_snapshot i = name) rows))"

text \<open>
  \<^verbatim>\<open>GROUP BY name ORDER BY total_sold DESC LIMIT 50\<close>. \<open>agg\<close> is the order in which the database delivers
  the groups; it decides between items sold equally often.
\<close>

definition top_items :: "(string list \<Rightarrow> string list) \<Rightarrow> uuid \<Rightarrow> timestamp \<Rightarrow> database \<Rightarrow> (string \<times> int) list" where
  "top_items agg rid since d =
     (let rows = served_since rid since d
      in take 50 (sort_key (\<lambda>(name, n). - n)
           (map (\<lambda>name. (name, sold rows name)) (agg (remdups (map oi_name_snapshot rows))))))"

section \<open>The spreadsheet\<close>

datatype cell = CellText string | CellNumber rat | CellCount int

datatype gs_call =
    ServiceAccountFile string
  | Authorize
  | OpenByKey string
  | GetWorksheet string string
  | AddWorksheet string string nat nat
  | ClearWorksheet string string
  | UpdateWorksheet string string "cell list list"

text \<open>What a call raises, if it does, after the calls made so far; and the worksheets of the books.\<close>

record gs_api =
  gs_raises :: "gs_call list \<Rightarrow> gs_call \<Rightarrow> string option"

record gs_state =
  gs_calls :: "gs_call list"
  gs_books :: "string \<Rightarrow> string \<Rightarrow> cell list list option"

definition gs_do :: "gs_api \<Rightarrow> gs_call \<Rightarrow> ((string \<Rightarrow> string \<Rightarrow> cell list list option)
    \<Rightarrow> (string \<Rightarrow> string \<Rightarrow> cell list list option)) \<Rightarrow> gs_state \<Rightarrow> string option \<times> gs_state" where
  "gs_do api c effect st =
     (case gs_raises api (gs_calls st) c of
        Some msg \<Rightarrow> (Some msg, st\<lparr>gs_calls := gs_calls st @ [c]\<rparr>)
      | None \<Rightarrow> (None, st\<lparr>gs_calls := gs_calls st @ [c], gs_books := effect (gs_books st)\<rparr>))"

definition set_sheet :: "string \<Rightarrow> string \<Rightarrow> cell list list \<Rightarrow> (string \<Rightarrow> string \<Rightarrow> cell list list option)
    \<Rightarrow> (string \<Rightarrow> string \<Rightarrow> cell list list option)" where
  "set_sheet book title cells books = books(book := (books book)(title \<mapsto> cells))"

text \<open>A step that is not run after an exception.\<close>

definition next_step :: "string option \<times> gs_state \<Rightarrow> (gs_state \<Rightarrow> string option \<times> gs_state)
    \<Rightarrow> string option \<times> gs_state" where
  "next_step r k = (case r of (Some msg, st) \<Rightarrow> (Some msg, st) | (None, st) \<Rightarrow> k st)"

definition replace_worksheet :: "gs_api \<Rightarrow> string \<Rightarrow> string \<Rightarrow> nat \<Rightarrow> cell list list \<Rightarrow> gs_state
    \<Rightarrow> string option \<times> gs_state" where
  "replace_worksheet api book title cols values st =
     next_step (gs_do api (GetWorksheet book title) (\<lambda>b. b) st) (\<lambda>st.
     next_step (if gs_books st book title \<noteq> None then (None, st)
                else gs_do api (AddWorksheet book title 100 cols) (set_sheet book title []) st) (\<lambda>st.
     next_step (gs_do api (ClearWorksheet book title) (set_sheet book title []) st) (\<lambda>st.
       gs_do api (UpdateWorksheet book title values) (set_sheet book title values) st)))"

definition revenue_values :: "RevenueRow list \<Rightarrow> cell list list" where
  "revenue_values rows =
     [CellText (''Ng'' @ [CHR 0xC3, CHR 0xA0] @ ''y''), CellText ''Doanh thu'',
      CellText (''S'' @ [CHR 0xE1, CHR 0xBB, CHR 0x91] @ '' phi'' @ [CHR 0xC3, CHR 0xAA] @ ''n'')]
     # map (\<lambda>r. [CellText (rr_day r), CellNumber (rr_revenue r), CellCount (int (rr_sessions r))]) rows"

definition top_values :: "(string \<times> int) list \<Rightarrow> cell list list" where
  "top_values rows =
     [CellText (''M'' @ [CHR 0xC3, CHR 0xB3] @ ''n''),
      CellText (''S'' @ [CHR 0xE1, CHR 0xBB, CHR 0x91] @ '' l'' @ [CHR 0xC6, CHR 0xB0, CHR 0xE1, CHR 0xBB, CHR 0xA3]
        @ ''ng b'' @ [CHR 0xC3, CHR 0xA1] @ ''n'')]
     # map (\<lambda>(name, n). [CellText name, CellCount n]) rows"

definition write_revenue_worksheet :: "gs_api \<Rightarrow> string \<Rightarrow> RevenueRow list \<Rightarrow> gs_state \<Rightarrow> string option \<times> gs_state" where
  "write_revenue_worksheet api book rows = replace_worksheet api book ''Revenue'' 3 (revenue_values rows)"

definition write_top_items_worksheet :: "gs_api \<Rightarrow> string \<Rightarrow> (string \<times> int) list \<Rightarrow> gs_state
    \<Rightarrow> string option \<times> gs_state" where
  "write_top_items_worksheet api book rows = replace_worksheet api book ''Top Items'' 2 (top_values rows)"

definition not_configured :: string where
  "not_configured = ''google_service_account_json is not configured '' @ [CHR 0xE2, CHR 0x80, CHR 0x94] @ '' cannot sync reports.''"

definition get_gspread_client :: "gs_api \<Rightarrow> string option \<Rightarrow> gs_state \<Rightarrow> string option \<times> gs_state" where
  "get_gspread_client api sa_path st =
     (case sa_path of
        None \<Rightarrow> (Some not_configured, st)
      | Some path \<Rightarrow>
          if path = [] then (Some not_configured, st)
          else next_step (gs_do api (ServiceAccountFile path) (\<lambda>b. b) st) (gs_do api Authorize (\<lambda>b. b)))"

definition write_to_sheet :: "gs_api \<Rightarrow> string option \<Rightarrow> string \<Rightarrow> RevenueRow list \<Rightarrow> (string \<times> int) list \<Rightarrow> gs_state
    \<Rightarrow> string option \<times> gs_state" where
  "write_to_sheet api sa_path sheet_id revenue_data top_items_data st =
     next_step (get_gspread_client api sa_path st) (\<lambda>st.
     next_step (gs_do api (OpenByKey sheet_id) (\<lambda>b. b) st) (\<lambda>st.
     next_step (write_revenue_worksheet api sheet_id revenue_data st)
       (write_top_items_worksheet api sheet_id top_items_data)))"

section \<open>The service\<close>

definition report_sheet :: "uuid \<Rightarrow> database \<Rightarrow> string option" where
  "report_sheet rid d =
     (case filter (\<lambda>x. rs_restaurant_id x = rid) (restaurant_settings d) of
        [] \<Rightarrow> None
      | x # _ \<Rightarrow> (case rs_report_sheet_id x of None \<Rightarrow> None | Some i \<Rightarrow> if i = [] then None else Some i))"

definition do_sync :: "calendar \<Rightarrow> (string list \<Rightarrow> string list) \<Rightarrow> gs_api \<Rightarrow> string option \<Rightarrow> int \<Rightarrow> database \<Rightarrow> uuid
    \<Rightarrow> gs_state \<Rightarrow> string option \<times> gs_state" where
  "do_sync cal agg api sa_path today d rid st =
     (case report_sheet rid d of
        None \<Rightarrow> (None, st)
      | Some sheet_id \<Rightarrow>
          (let since = midnight cal (today - 30)
           in write_to_sheet api sa_path sheet_id (map (revenue_row cal) (daily_revenue cal rid since d))
                (top_items agg rid since d) st))"

text \<open>\<^verbatim>\<open>ReportSyncService.sync\<close> logs an exception and returns.\<close>

definition sync :: "calendar \<Rightarrow> (string list \<Rightarrow> string list) \<Rightarrow> gs_api \<Rightarrow> string option \<Rightarrow> int \<Rightarrow> database \<Rightarrow> uuid
    \<Rightarrow> gs_state \<Rightarrow> unit result \<times> gs_state" where
  "sync cal agg api sa_path today d rid st = (Inr (), snd (do_sync cal agg api sa_path today d rid st))"

section \<open>Sums over groups\<close>

lemma sum_list_no_group:
  "k0 \<notin> set ks \<Longrightarrow> sum_list (map (\<lambda>k. if k0 = k then v else 0) ks) = (0 :: 'b::comm_monoid_add)"
  by (induction ks) auto

lemma sum_list_groups:
  assumes "distinct ks" and "\<And>x. x \<in> set xs \<Longrightarrow> f x \<in> set ks"
  shows "sum_list (map (\<lambda>k. sum_list (map g (filter (\<lambda>x. f x = k) xs))) ks) = (sum_list (map g xs) :: 'b::comm_monoid_add)"
  using assms(2)
proof (induction xs)
  case (Cons x xs)
  have one: "sum_list (map (\<lambda>k. if f x = k then v else 0) ks) = v" if "f x \<in> set ks" for v :: 'b
    using assms(1) that by (induction ks) (auto simp: sum_list_no_group)
  have "sum_list (map (\<lambda>k. sum_list (map g (filter (\<lambda>x. f x = k) (x # xs)))) ks)
    = sum_list (map (\<lambda>k. (if f x = k then g x else 0) + sum_list (map g (filter (\<lambda>x. f x = k) xs))) ks)"
    by (rule arg_cong [of _ _ sum_list], rule map_cong) auto
  also have "\<dots> = g x + sum_list (map g xs)"
    using Cons one [of "g x"] by (simp add: sum_list_addf)
  finally show ?case by simp
qed simp

lemma length_groups:
  assumes "distinct ks" and "\<And>x. x \<in> set xs \<Longrightarrow> f x \<in> set ks"
  shows "sum_list (map (\<lambda>k. length (filter (\<lambda>x. f x = k) xs)) ks) = length xs"
  using sum_list_groups [OF assms, where g = "\<lambda>_. 1 :: nat"] by (simp add: sum_list_triv)

lemma sql_sum_Some:
  assumes "\<And>x. x \<in> set xs \<Longrightarrow> f x \<noteq> None" and "xs \<noteq> []"
  shows "sql_sum (map f xs) = Some (sum_list (map (the \<circ> f) xs))"
proof -
  have "filter (\<lambda>x. x \<noteq> None) (map f xs) = map f xs" using assms(1) by (intro filter_True) auto
  with assms(2) show ?thesis by (simp add: sql_sum_def)
qed

lemma set_closed_since:
  "s \<in> set (closed_since rid since d) \<longleftrightarrow> s \<in> set (table_sessions d) \<and> ts_restaurant_id s = rid
     \<and> ts_status s = CLOSED \<and> (\<exists>t. ts_closed_at s = Some t \<and> since \<le> t)"
  by (auto simp: closed_since_def split: option.splits)

lemma closed_total:
  assumes "db_inv d" and "s \<in> set (closed_since rid since d)"
  shows "ts_total_amount s \<noteq> None"
  using assms by (auto simp: set_closed_since inv_defs session_shape_def)

definition day_rows :: "calendar \<Rightarrow> uuid \<Rightarrow> timestamp \<Rightarrow> database \<Rightarrow> int \<Rightarrow> TableSession list" where
  "day_rows cal rid since d day = filter (\<lambda>s. closed_day cal s = day) (closed_since rid since d)"

definition bill_of :: "TableSession \<Rightarrow> money" where
  "bill_of s = the (ts_total_amount s)"

lemma daily_revenue_eq:
  assumes "db_inv d"
  shows "daily_revenue cal rid since d =
    map (\<lambda>day. (day, Some (sum_list (map bill_of (day_rows cal rid since d day))), length (day_rows cal rid since d day)))
      (sort (remdups (map (closed_day cal) (closed_since rid since d))))"
proof -
  have "sql_sum (map ts_total_amount (day_rows cal rid since d day))
      = Some (sum_list (map bill_of (day_rows cal rid since d day)))"
    if "day \<in> set (map (closed_day cal) (closed_since rid since d))" for day
  proof -
    from that have "day_rows cal rid since d day \<noteq> []" by (auto simp: day_rows_def filter_empty_conv)
    then show ?thesis
      using sql_sum_Some [of "day_rows cal rid since d day" ts_total_amount] closed_total [OF assms, of _ rid since]
      by (simp add: day_rows_def bill_of_def [abs_def] comp_def)
  qed
  then show ?thesis by (auto simp: daily_revenue_def day_rows_def Let_def)
qed

section \<open>Rankings\<close>

definition ranking :: "('k \<Rightarrow> int) \<Rightarrow> 'k list \<Rightarrow> ('k \<times> int) list" where
  "ranking f ks = sort_key (\<lambda>(k, n). - n) (map (\<lambda>k. (k, f k)) ks)"

lemma ranking_facts:
  shows "set (ranking f ks) = (\<lambda>k. (k, f k)) ` set ks" and "sorted_wrt (\<ge>) (map snd (ranking f ks))"
    and "distinct ks \<Longrightarrow> distinct (map fst (ranking f ks))"
proof -
  have "sorted (map (\<lambda>(k, n). - n) (ranking f ks))" by (simp add: ranking_def)
  then show "sorted_wrt (\<ge>) (map snd (ranking f ks))" by (simp add: sorted_wrt_map case_prod_beta)
  have "mset (map fst (ranking f ks)) = mset ks" by (simp add: ranking_def multiset.map_comp comp_def)
  then show "distinct ks \<Longrightarrow> distinct (map fst (ranking f ks))" using mset_eq_imp_distinct_iff by blast
qed (simp add: ranking_def)

text \<open>What is cut off is not above what is kept.\<close>

lemma take_falling:
  assumes "sorted_wrt (\<ge>) (map snd xs)" and "x \<in> set xs" and "x \<notin> set (take k xs)"
  shows "length (take k xs) = k \<and> (\<forall>y \<in> set (take k xs). snd x \<le> snd y)"
proof -
  have x: "x \<in> set (drop k xs)" using assms(2,3) by (metis Un_iff append_take_drop_id set_append)
  then have "length (take k xs) = k" by (auto dest: length_pos_if_in_set)
  moreover have "sorted_wrt (\<ge>) (map snd (take k xs) @ map snd (drop k xs))"
    using assms(1) by (metis append_take_drop_id map_append)
  ultimately show ?thesis using x by (auto simp: sorted_wrt_append)
qed

section \<open>Properties\<close>

text \<open>Lists of rows with different keys as sets.\<close>

lemma sum_list_rows:
  assumes "unique_by k rows"
  shows "sum_list (map f (filter P rows)) = (\<Sum>x | x \<in> set rows \<and> P x. f x)"
    and "length (filter P rows) = card {x \<in> set rows. P x}"
proof -
  have "distinct rows" using assms by (auto simp: unique_by_def distinct_map)
  then show "sum_list (map f (filter P rows)) = (\<Sum>x | x \<in> set rows \<and> P x. f x)"
    and "length (filter P rows) = card {x \<in> set rows. P x}"
    by (simp_all add: sum_list_distinct_conv_sum_set distinct_card [symmetric])
qed

lemma day_rows_filter:
  "day_rows cal rid since d day = filter (\<lambda>s. ts_restaurant_id s = rid \<and> ts_status s = CLOSED
     \<and> (\<exists>t. ts_closed_at s = Some t \<and> since \<le> t \<and> day_of cal t = day)) (table_sessions d)"
  by (auto simp: day_rows_def closed_since_def closed_day_def intro!: filter_cong split: option.splits)

lemma served_since_filter:
  assumes "db_inv d"
  shows "served_since rid since d = filter (\<lambda>i. oi_restaurant_id i = rid \<and> oi_status i = SERVED
      \<and> (\<exists>t. oi_served_at i = Some t \<and> since \<le> t)) (order_items d)"
proof -
  have one: "map (\<lambda>_. i) (filter (\<lambda>r. o_id r = oi_order_id i) (orders d)) = [i]" if "i \<in> set (order_items d)" for i
  proof -
    from assms that obtain r where "r \<in> set (orders d)" "o_id r = oi_order_id i"
      by (auto simp: db_inv_def tenants_ok_def order_of_def)
    then show ?thesis
      using filter_unique [OF keys_okD(9) [OF db_invD(1) [OF assms]], of r "\<lambda>_. True"] by simp
  qed
  have "concat (map (\<lambda>i. map (\<lambda>_. i) (filter (\<lambda>r. o_id r = oi_order_id i) (orders d))) is) = is"
    if "set is \<subseteq> set (order_items d)" for "is"
    using that by (induction "is") (simp_all add: one)
  then show ?thesis
    unfolding served_since_def by (subst \<open>\<And>is. _ \<Longrightarrow> _ is = is\<close>) (auto intro!: filter_cong split: option.splits)
qed

text \<open>
  C30 (daily revenue). The days of the report are in order and each appears once; they are exactly the days on
  which a session of the restaurant was closed since the start. The row of a day has the number of the restaurant's
  sessions that were closed on that day and the sum of their stored bills, so no bill is left out, counted twice or
  taken from another restaurant. If no such session was closed outside the thirty days before today and today, there are at
  most 31 rows.
\<close>

theorem daily_revenue_is_exact:
  assumes "db_inv d"
  shows "sorted_wrt (<) (map fst (daily_revenue cal rid since d))
    \<and> fst ` set (daily_revenue cal rid since d)
        = {day_of cal t | s t. s \<in> set (table_sessions d) \<and> ts_restaurant_id s = rid \<and> ts_status s = CLOSED
            \<and> ts_closed_at s = Some t \<and> since \<le> t}
    \<and> (\<forall>(day, revenue, n) \<in> set (daily_revenue cal rid since d).
          revenue = Some (\<Sum>s | s \<in> set (table_sessions d) \<and> ts_restaurant_id s = rid \<and> ts_status s = CLOSED
              \<and> (\<exists>t. ts_closed_at s = Some t \<and> since \<le> t \<and> day_of cal t = day). the (ts_total_amount s))
          \<and> n = card {s \<in> set (table_sessions d). ts_restaurant_id s = rid \<and> ts_status s = CLOSED
              \<and> (\<exists>t. ts_closed_at s = Some t \<and> since \<le> t \<and> day_of cal t = day)} \<and> 0 < n)
    \<and> ((\<forall>s \<in> set (table_sessions d). \<forall>t. ts_restaurant_id s = rid \<longrightarrow> ts_status s = CLOSED \<longrightarrow>
            ts_closed_at s = Some t \<longrightarrow> since \<le> t \<longrightarrow> today - 30 \<le> day_of cal t \<and> day_of cal t \<le> today)
         \<longrightarrow> length (daily_revenue cal rid since d) \<le> 31)"
proof -
  let ?xs = "closed_since rid since d" and ?f = "closed_day cal"
  let ?ks = "sort (remdups (map ?f ?xs))"
  note eq = daily_revenue_eq [OF assms, of cal rid since]
  note rows = sum_list_rows [OF keys_okD(8) [OF db_invD(1) [OF assms]]]
  have keys: "map fst (daily_revenue cal rid since d) = ?ks" unfolding eq by (simp add: comp_def)
  then have 1: "sorted_wrt (<) (map fst (daily_revenue cal rid since d))"
    using strict_sorted_iff [of ?ks] by simp
  have days: "?f ` set ?xs = {day_of cal t | s t. s \<in> set (table_sessions d) \<and> ts_restaurant_id s = rid
      \<and> ts_status s = CLOSED \<and> ts_closed_at s = Some t \<and> since \<le> t}"
    by (force simp: set_closed_since closed_day_def image_iff split: option.splits)
  have 2: "length (daily_revenue cal rid since d) \<le> 31" if "?f ` set ?xs \<subseteq> {today - 30..today}"
  proof -
    have "length ?ks = card (?f ` set ?xs)" by (simp add: length_remdups_card_conv)
    also have "\<dots> \<le> card {today - 30..today}" using that by (intro card_mono) auto
    finally show ?thesis by (simp add: eq)
  qed
  have 3: "fst ` set (daily_revenue cal rid since d) = ?f ` set ?xs"
    using arg_cong [OF keys, of set] by simp
  have pos: "0 < length (day_rows cal rid since d day)" if "day \<in> ?f ` set ?xs" for day
    using that by (auto simp: day_rows_def filter_empty_conv)
  have 4: "sum_list (map bill_of (day_rows cal rid since d day))
      = (\<Sum>s | s \<in> set (table_sessions d) \<and> ts_restaurant_id s = rid \<and> ts_status s = CLOSED
          \<and> (\<exists>t. ts_closed_at s = Some t \<and> since \<le> t \<and> day_of cal t = day). the (ts_total_amount s))
    \<and> length (day_rows cal rid since d day) = card {s \<in> set (table_sessions d). ts_restaurant_id s = rid
        \<and> ts_status s = CLOSED \<and> (\<exists>t. ts_closed_at s = Some t \<and> since \<le> t \<and> day_of cal t = day)}" for day
    unfolding day_rows_filter rows by (simp add: bill_of_def)
  have 5: "(day, revenue, n) \<in> set (daily_revenue cal rid since d) \<Longrightarrow>
      revenue = Some (sum_list (map bill_of (day_rows cal rid since d day)))
      \<and> n = length (day_rows cal rid since d day) \<and> 0 < n" for day revenue n
    using pos by (auto simp: eq)
  show ?thesis
  proof (intro conjI)
    show "\<forall>(day, revenue, n) \<in> set (daily_revenue cal rid since d).
          revenue = Some (\<Sum>s | s \<in> set (table_sessions d) \<and> ts_restaurant_id s = rid \<and> ts_status s = CLOSED
              \<and> (\<exists>t. ts_closed_at s = Some t \<and> since \<le> t \<and> day_of cal t = day). the (ts_total_amount s))
          \<and> n = card {s \<in> set (table_sessions d). ts_restaurant_id s = rid \<and> ts_status s = CLOSED
              \<and> (\<exists>t. ts_closed_at s = Some t \<and> since \<le> t \<and> day_of cal t = day)} \<and> 0 < n"
      using 5 unfolding 4 [THEN conjunct1] 4 [THEN conjunct2] by blast
    show "(\<forall>s \<in> set (table_sessions d). \<forall>t. ts_restaurant_id s = rid \<longrightarrow> ts_status s = CLOSED \<longrightarrow>
            ts_closed_at s = Some t \<longrightarrow> since \<le> t \<longrightarrow> today - 30 \<le> day_of cal t \<and> day_of cal t \<le> today)
         \<longrightarrow> length (daily_revenue cal rid since d) \<le> 31"
      by (intro impI 2, unfold days) auto
  qed (use 1 3 in \<open>simp_all only: days\<close>)
qed

text \<open>
  C31 (best sellers). The list of items has at most fifty rows, in falling order, and each name appears once. The quantity of a
  row is the sum of the quantities of the restaurant's items that were served under that name since the start, every
  listed name has such items, and a name that has some and is left out was served at most as often as every name
  listed, and only when the list is full. This holds for every order in which the database delivers the groups.
\<close>

theorem top_items_are_the_best:
  assumes "db_inv d" and "\<And>ns. mset (agg ns) = mset ns"
  shows "let best = top_items agg rid since d;
      served = {i \<in> set (order_items d). oi_restaurant_id i = rid \<and> oi_status i = SERVED
        \<and> (\<exists>t. oi_served_at i = Some t \<and> since \<le> t)};
      quantity = (\<lambda>name. \<Sum>i | i \<in> served \<and> oi_name_snapshot i = name. oi_quantity i)
    in length best \<le> 50 \<and> sorted_wrt (\<ge>) (map snd best) \<and> distinct (map fst best)
      \<and> fst ` set best \<subseteq> oi_name_snapshot ` served
      \<and> (\<forall>(name, n) \<in> set best. n = quantity name)
      \<and> (\<forall>i \<in> served. oi_name_snapshot i \<notin> fst ` set best \<longrightarrow>
            length best = 50 \<and> (\<forall>(name, n) \<in> set best. quantity (oi_name_snapshot i) \<le> n))"
proof -
  let ?rows = "served_since rid since d" and ?best = "top_items agg rid since d"
  define served where "served = {i \<in> set (order_items d). oi_restaurant_id i = rid \<and> oi_status i = SERVED
        \<and> (\<exists>t. oi_served_at i = Some t \<and> since \<le> t)}"
  define quantity where "quantity = (\<lambda>name. \<Sum>i | i \<in> served \<and> oi_name_snapshot i = name. oi_quantity i)"
  note key = keys_okD(10) [OF db_invD(1) [OF assms(1)]]
  have rows: "set ?rows = served" by (simp add: served_since_filter [OF assms(1)] served_def)
  have "sold ?rows name = (\<Sum>i | i \<in> served \<and> oi_name_snapshot i = name. oi_quantity i)" for name
    unfolding sold_def served_since_filter [OF assms(1)] filter_filter sum_list_rows(1) [OF key] served_def
    by (rule sum.cong) auto
  then have sold: "sold ?rows = quantity" by (simp add: quantity_def fun_eq_iff)
  define names where "names = agg (remdups (map oi_name_snapshot ?rows))"
  define all where "all = ranking quantity names"
  have best: "?best = take 50 all"
    by (simp add: top_items_def all_def names_def ranking_def Let_def sold)
  have set: "set names = oi_name_snapshot ` served" "distinct names"
    using mset_eq_setD [OF assms(2)] mset_eq_imp_distinct_iff [OF assms(2)] rows
    by (simp_all add: names_def)
  note all = ranking_facts [where f = quantity and ks = names, folded all_def]
  have cut: "length ?best = 50 \<and> (\<forall>(name, n) \<in> set ?best. quantity (oi_name_snapshot i) \<le> n)"
    if "i \<in> served" "oi_name_snapshot i \<notin> fst ` set ?best" for i
  proof -
    let ?x = "(oi_name_snapshot i, quantity (oi_name_snapshot i))"
    have "?x \<in> set all" and "?x \<notin> set (take 50 all)" using that set(1) all(1) best by force+
    from take_falling [OF all(2) this] show ?thesis by (auto simp: best)
  qed
  have sub: "set ?best \<subseteq> (\<lambda>k. (k, quantity k)) ` oi_name_snapshot ` served"
    using set_take_subset [of 50 all] unfolding best all(1) set(1) .
  have "length ?best \<le> 50 \<and> sorted_wrt (\<ge>) (map snd ?best) \<and> distinct (map fst ?best)"
    using all(2) all(3) [OF set(2)] by (auto simp: best take_map [symmetric] distinct_take sorted_wrt_take)
  moreover have "fst ` set ?best \<subseteq> oi_name_snapshot ` served" "\<forall>(name, n) \<in> set ?best. n = quantity name"
    using sub by auto
  moreover have "\<forall>i \<in> served. oi_name_snapshot i \<notin> fst ` set ?best \<longrightarrow>
      length ?best = 50 \<and> (\<forall>(name, n) \<in> set ?best. quantity (oi_name_snapshot i) \<le> n)"
    using cut by blast
  ultimately have "length ?best \<le> 50 \<and> sorted_wrt (\<ge>) (map snd ?best) \<and> distinct (map fst ?best)
      \<and> fst ` set ?best \<subseteq> oi_name_snapshot ` served
      \<and> (\<forall>(name, n) \<in> set ?best. n = quantity name)
      \<and> (\<forall>i \<in> served. oi_name_snapshot i \<notin> fst ` set ?best \<longrightarrow>
            length ?best = 50 \<and> (\<forall>(name, n) \<in> set ?best. quantity (oi_name_snapshot i) \<le> n))"
    by (elim conjE, intro conjI)
  then show ?thesis unfolding Let_def quantity_def served_def .
qed

text \<open>What the steps leave alone, whatever raises.\<close>

lemma gs_do_books:
  "gs_books (snd (gs_do api c effect st)) = gs_books st \<or> gs_books (snd (gs_do api c effect st)) = effect (gs_books st)"
  by (simp add: gs_do_def split: option.split)

definition only_in :: "string \<Rightarrow> string set \<Rightarrow> gs_state \<Rightarrow> gs_state \<Rightarrow> bool" where
  "only_in book titles st st' \<longleftrightarrow>
     (\<forall>b t. (b \<noteq> book \<or> t \<notin> titles) \<longrightarrow> gs_books st' b t = gs_books st b t)"

lemma only_in_refl: "only_in book titles st st"
  by (simp add: only_in_def)

lemma only_in_next:
  assumes "only_in book titles st (snd r)" and "\<And>st'. only_in book titles st st' \<Longrightarrow> only_in book titles st (snd (k st'))"
  shows "only_in book titles st (snd (next_step r k))"
  using assms by (cases r; cases "fst r") (simp_all add: next_step_def)

lemma only_in_do:
  assumes "only_in book titles st st'" and "effect = (\<lambda>b. b) \<or> (\<exists>t \<in> titles. \<exists>v. effect = set_sheet book t v)"
  shows "only_in book titles st (snd (gs_do api c effect st'))"
  using assms gs_do_books [of api c effect st'] by (auto simp: only_in_def set_sheet_def)

lemma only_in_replace:
  assumes "only_in book titles st st'" and "title \<in> titles"
  shows "only_in book titles st (snd (replace_worksheet api book title cols v st'))"
  unfolding replace_worksheet_def
  by (intro only_in_next only_in_do) (use assms in \<open>auto intro: only_in_do\<close>)

lemma only_in_client:
  "only_in book titles st st' \<Longrightarrow> only_in book titles st (snd (get_gspread_client api sa st'))"
  unfolding get_gspread_client_def by (auto intro!: only_in_next only_in_do split: option.split)

lemma write_to_sheet_only_in:
  "only_in book {''Revenue'', ''Top Items''} st (snd (write_to_sheet api sa book revenue items st))"
  unfolding write_to_sheet_def write_revenue_worksheet_def write_top_items_worksheet_def
  by (intro only_in_next only_in_do only_in_client only_in_replace only_in_refl) auto

text \<open>When no call raises that is on the spreadsheet, or on none: the others may.\<close>

fun call_book :: "gs_call \<Rightarrow> string option" where
  "call_book (ServiceAccountFile _) = None"
| "call_book Authorize = None"
| "call_book (OpenByKey b) = Some b"
| "call_book (GetWorksheet b _) = Some b"
| "call_book (AddWorksheet b _ _ _) = Some b"
| "call_book (ClearWorksheet b _) = Some b"
| "call_book (UpdateWorksheet b _ _) = Some b"

definition quiet_on :: "gs_api \<Rightarrow> string \<Rightarrow> bool" where
  "quiet_on api book \<longleftrightarrow> (\<forall>cs c. call_book c \<in> {None, Some book} \<longrightarrow> gs_raises api cs c = None)"

lemma gs_do_quiet:
  assumes "quiet_on api book" and "call_book c \<in> {None, Some book}"
  shows "gs_do api c effect st = (None, st\<lparr>gs_calls := gs_calls st @ [c], gs_books := effect (gs_books st)\<rparr>)"
  using assms by (auto simp: gs_do_def quiet_on_def)

lemma replace_worksheet_quiet:
  assumes "quiet_on api book"
  shows "\<exists>st'. replace_worksheet api book title cols v st = (None, st') \<and> gs_books st' book title = Some v
    \<and> only_in book {title} st st'"
  by (simp add: replace_worksheet_def next_step_def gs_do_quiet [OF assms] set_sheet_def only_in_def)

lemma write_to_sheet_quiet:
  assumes "quiet_on api book" and "sa_path = Some path" and "path \<noteq> []"
  shows "\<exists>st'. write_to_sheet api sa_path book rows best st = (None, st')
    \<and> gs_books st' book ''Revenue'' = Some (revenue_values rows) \<and> gs_books st' book ''Top Items'' = Some (top_values best)"
proof -
  obtain st1 where 1: "next_step (get_gspread_client api sa_path st) (gs_do api (OpenByKey book) (\<lambda>b. b)) = (None, st1)"
    using assms(2,3) by (simp add: get_gspread_client_def gs_do_quiet [OF assms(1)] next_step_def)
  obtain st2 where 2: "write_revenue_worksheet api book rows st1 = (None, st2)"
    "gs_books st2 book ''Revenue'' = Some (revenue_values rows)"
    using replace_worksheet_quiet [OF assms(1), of "''Revenue''" 3 "revenue_values rows" st1]
    by (auto simp: write_revenue_worksheet_def)
  obtain st3 where 3: "write_top_items_worksheet api book best st2 = (None, st3)"
    "gs_books st3 book ''Top Items'' = Some (top_values best)" "only_in book {''Top Items''} st2 st3"
    using replace_worksheet_quiet [OF assms(1), of "''Top Items''" 2 "top_values best" st2]
    by (auto simp: write_top_items_worksheet_def)
  have "write_to_sheet api sa_path book rows best st = (None, st3)"
    using 1 2(1) 3(1) by (auto simp: write_to_sheet_def next_step_def split: prod.splits option.splits)
  then show ?thesis using 2(2) 3(2,3) by (simp add: only_in_def)
qed

text \<open>
  Report: Whatever raises, the synchronisation of a restaurant returns, and it touches nothing but the two
  worksheets of the spreadsheet of that restaurant; without a configured spreadsheet it makes no call at all. When
  nothing raises and the service account is configured, the two worksheets hold the two tables afterwards.
\<close>

theorem report_sync_outcome:
  assumes "sync cal agg api sa_path today d rid st = (res, st')"
  shows "res = Inr ()
    \<and> (report_sheet rid d = None \<longrightarrow> st' = st)
    \<and> (\<forall>book. report_sheet rid d = Some book \<longrightarrow>
        (\<forall>b t. b \<noteq> book \<or> t \<notin> {''Revenue'', ''Top Items''} \<longrightarrow> gs_books st' b t = gs_books st b t)
        \<and> ((\<forall>cs c. gs_raises api cs c = None) \<and> sa_path \<noteq> None \<and> sa_path \<noteq> Some [] \<longrightarrow>
            gs_books st' book ''Revenue'' = Some (revenue_values
              (map (revenue_row cal) (daily_revenue cal rid (midnight cal (today - 30)) d)))
            \<and> gs_books st' book ''Top Items'' = Some (top_values
              (top_items agg rid (midnight cal (today - 30)) d))))"
proof -
  let ?rev = "map (revenue_row cal) (daily_revenue cal rid (midnight cal (today - 30)) d)"
  let ?best = "top_items agg rid (midnight cal (today - 30)) d"
  from assms have res: "res = Inr ()" and st': "st' = snd (do_sync cal agg api sa_path today d rid st)"
    by (simp_all add: sync_def)
  have eq: "st' = snd (write_to_sheet api sa_path book ?rev ?best st)" if "report_sheet rid d = Some book" for book
    using that by (simp add: st' do_sync_def Let_def)
  have "gs_books st' book ''Revenue'' = Some (revenue_values ?rev)
      \<and> gs_books st' book ''Top Items'' = Some (top_values ?best)"
    if b: "report_sheet rid d = Some book" and q: "\<And>cs c. gs_raises api cs c = None" and p: "sa_path = Some path" "path \<noteq> []"
    for book path
    using write_to_sheet_quiet [of api book, OF _ p, of ?rev ?best st] q eq [OF b] by (auto simp: quiet_on_def)
  moreover have "only_in book {''Revenue'', ''Top Items''} st st'" if "report_sheet rid d = Some book" for book
    unfolding eq [OF that] by (rule write_to_sheet_only_in)
  moreover have "st' = st" if "report_sheet rid d = None" using that by (simp add: st' do_sync_def)
  ultimately show ?thesis using res by (auto simp: only_in_def)
qed

text \<open>The worksheet is cleared before the new table is sent: when sending fails, the old table is gone, and the
service reports success to its caller.\<close>

lemma failed_update_empties_the_sheet:
  assumes "\<And>cs c. gs_raises api cs c = (case c of UpdateWorksheet _ _ _ \<Rightarrow> Some msg | _ \<Rightarrow> None)"
    and "report_sheet rid d = Some book" and "sa_path = Some path" and "path \<noteq> []"
  shows "\<exists>st'. sync cal agg api sa_path today d rid st = (Inr (), st') \<and> gs_books st' book ''Revenue'' = Some []"
  using assms
  by (simp add: sync_def do_sync_def write_to_sheet_def get_gspread_client_def write_revenue_worksheet_def
      replace_worksheet_def next_step_def gs_do_def set_sheet_def Let_def)

section \<open>Witnesses\<close>

definition demo_calendar :: calendar where
  "demo_calendar = \<lparr>day_of = (\<lambda>t. t div hours 24), midnight = (\<lambda>day. day * hours 24), date_text = (\<lambda>_. ''day'')\<rparr>"

text \<open>A table whose guests paid 90,000 dong.\<close>

definition demo_paid :: database where
  "demo_paid = empty_db\<lparr>tables := [demo_table 20 1 ''B01'' ''qr-20'' True],
     restaurant_settings := [(demo_settings 1)\<lparr>rs_report_sheet_id := Some ''sheet''\<rparr>],
     table_sessions := [(demo_session 50 20 CLOSED None)\<lparr>ts_closed_at := Some (hours 5), ts_total_amount := Some 9000000\<rparr>]\<rparr>"

lemma demo_paid_inv: "db_inv demo_paid"
  by (simp add: inv_defs demo_paid_def empty_db_def demo_rows of_defs session_shape_def open_tables_def)

lemma daily_revenue_is_exact_witness:
  "\<exists>rows. daily_revenue demo_calendar 1 0 demo_paid = rows \<and> fst ` set rows = {0}
    \<and> (0, Some 9000000, 1) \<in> set rows \<and> length rows \<le> 31"
proof -
  let ?rows = "daily_revenue demo_calendar 1 0 demo_paid"
  obtain s where only: "table_sessions demo_paid = [s]" and row: "ts_restaurant_id s = 1" "ts_status s = CLOSED"
    "ts_closed_at s = Some (hours 5)" "ts_total_amount s = Some 9000000"
    by (simp add: demo_paid_def demo_session_def)
  have day: "day_of demo_calendar (hours 5) = 0" "0 \<le> hours 5" by (simp_all add: demo_calendar_def hours_def seconds_def)
  have one: "{x. x = s \<and> P x} = (if P s then {s} else {})" for P by auto
  note exact = daily_revenue_is_exact [OF demo_paid_inv, of demo_calendar 1 0 0, unfolded only]
  have days: "fst ` set ?rows = {0}"
    unfolding exact [THEN conjunct2, THEN conjunct1] by (auto simp: row day)
  have "0 \<in> fst ` set ?rows" unfolding days by (rule singletonI)
  then obtain revenue n where r: "(0, revenue, n) \<in> set ?rows" by (metis imageE prod.collapse)
  have "revenue = Some 9000000 \<and> n = 1"
    using bspec [OF exact [THEN conjunct2, THEN conjunct2, THEN conjunct1] r] by (simp add: one row day)
  moreover have "length ?rows \<le> 31"
    by (rule exact [THEN conjunct2, THEN conjunct2, THEN conjunct2, THEN mp]) (simp add: row day)
  ultimately show ?thesis using days r by simp
qed

lemma top_items_are_the_best_witness:
  "top_items (\<lambda>ns. ns) 1 0 demo = [(''Pho bo'', 5)]
   \<and> 5 = (\<Sum>i | i \<in> set (order_items demo) \<and> oi_restaurant_id i = 1 \<and> oi_status i = SERVED
        \<and> (\<exists>t. oi_served_at i = Some t \<and> 0 \<le> t) \<and> oi_name_snapshot i = ''Pho bo''. oi_quantity i)"
proof -
  have eq: "top_items (\<lambda>ns. ns) 1 0 demo = [(''Pho bo'', 5)]" by code_simp
  have "5 = (\<Sum>i | i \<in> {i \<in> set (order_items demo). oi_restaurant_id i = 1 \<and> oi_status i = SERVED
      \<and> (\<exists>t. oi_served_at i = Some t \<and> 0 \<le> t)} \<and> oi_name_snapshot i = ''Pho bo''. oi_quantity i)"
    using top_items_are_the_best [OF demo_inv, of "\<lambda>ns. ns" 1 0, OF refl, unfolded eq Let_def,
        THEN conjunct2, THEN conjunct2, THEN conjunct2, THEN conjunct2, THEN conjunct1]
    by (simp only: list.set ball_simps(5,7) prod.case simp_thms)
  then show ?thesis unfolding eq mem_Collect_eq conj_assoc by (rule conjI [OF refl])
qed

lemma report_sync_outcome_witness:
  "\<exists>st'. sync demo_calendar (\<lambda>ns. ns) \<lparr>gs_raises = (\<lambda>_ _. None)\<rparr> (Some ''key.json'') 0 demo_paid 1
       \<lparr>gs_calls = [], gs_books = (\<lambda>_ _. None)\<rparr> = (Inr (), st')
     \<and> gs_books st' ''sheet'' ''Top Items'' \<noteq> None \<and> gs_books st' ''other'' ''Revenue'' = None"
proof -
  let ?api = "\<lparr>gs_raises = (\<lambda>_ _. None)\<rparr>" and ?st = "\<lparr>gs_calls = [], gs_books = (\<lambda>_ _. None)\<rparr>"
  have sheet: "report_sheet 1 demo_paid = Some ''sheet''"
    by (simp add: report_sheet_def demo_paid_def demo_settings_def)
  obtain st' where s: "sync demo_calendar (\<lambda>ns. ns) ?api (Some ''key.json'') 0 demo_paid 1 ?st = (Inr (), st')"
    by (simp add: sync_def)
  from report_sync_outcome [OF s] sheet s show ?thesis by auto
qed

end
