(* ===== verification/ReportJob.thy ===== *)
theory ReportJob imports Reports begin

text \<open>
  The hourly job as a whole: the lock and the loop of \<^verbatim>\<open>Scheduler\<close> (\<^verbatim>\<open>sync_reports\<close>, \<^verbatim>\<open>_run_report_sync\<close>) around the
  service of \<^verbatim>\<open>Reports\<close>, restaurant by restaurant. Each restaurant finds the database as it is when its turn comes.
\<close>

text \<open>What \<^verbatim>\<open>sync\<close> is called with, for each restaurant.\<close>

definition sync_at :: "calendar \<Rightarrow> (string list \<Rightarrow> string list) \<Rightarrow> gs_api \<Rightarrow> string option \<Rightarrow> int \<Rightarrow> (uuid \<Rightarrow> database)
    \<Rightarrow> uuid \<Rightarrow> gs_state \<Rightarrow> unit result \<times> gs_state" where
  "sync_at cal agg api sa_path today ds rid = sync cal agg api sa_path today (ds rid) rid"

definition filled :: "calendar \<Rightarrow> (string list \<Rightarrow> string list) \<Rightarrow> int \<Rightarrow> database \<Rightarrow> uuid \<Rightarrow> string \<Rightarrow> gs_state \<Rightarrow> bool" where
  "filled cal agg today d rid book st \<longleftrightarrow>
     gs_books st book ''Revenue'' = Some (revenue_values
       (map (revenue_row cal) (daily_revenue cal rid (midnight cal (today - 30)) d)))
     \<and> gs_books st book ''Top Items'' = Some (top_values (top_items agg rid (midnight cal (today - 30)) d))"

lemma sync_fills:
  assumes "quiet_on api book" and "sa_path = Some path" and "path \<noteq> []" and "report_sheet rid (ds rid) = Some book"
  shows "filled cal agg today (ds rid) rid book (snd (sync_at cal agg api sa_path today ds rid st))"
  using write_to_sheet_quiet [OF assms(1-3), of "map (revenue_row cal) (daily_revenue cal rid (midnight cal (today - 30)) (ds rid))"
      "top_items agg rid (midnight cal (today - 30)) (ds rid)" st] assms(4)
  by (auto simp: filled_def sync_at_def sync_def do_sync_def Let_def)

lemma sync_elsewhere:
  assumes "report_sheet rid (ds rid) \<noteq> Some book"
  shows "gs_books (snd (sync_at cal agg api sa_path today ds rid st)) book = gs_books st book"
proof (cases "report_sheet rid (ds rid)")
  case (Some b)
  with assms write_to_sheet_only_in [of b st api sa_path] show ?thesis
    by (auto simp: sync_at_def sync_def do_sync_def Let_def only_in_def)
qed (simp add: sync_at_def sync_def do_sync_def)

lemma sync_each_elsewhere:
  "(\<And>rid. rid \<in> set rids \<Longrightarrow> report_sheet rid (ds rid) \<noteq> Some book) \<Longrightarrow>
    gs_books (sync_each (sync_at cal agg api sa_path today ds) rids st) book = gs_books st book"
  by (induction rids arbitrary: st) (simp_all add: sync_elsewhere)

lemma sync_each_fills:
  assumes "quiet_on api book" and "sa_path = Some path" and "path \<noteq> []" and "report_sheet rid (ds rid) = Some book"
    and "\<And>r. r \<in> set rids \<Longrightarrow> r \<noteq> rid \<Longrightarrow> report_sheet r (ds r) \<noteq> Some book"
    and "rid \<in> set rids \<or> filled cal agg today (ds rid) rid book st"
  shows "filled cal agg today (ds rid) rid book (sync_each (sync_at cal agg api sa_path today ds) rids st)"
  using assms(5,6)
proof (induction rids arbitrary: st)
  case (Cons r rids)
  let ?st = "snd (sync_at cal agg api sa_path today ds r st)"
  have "rid \<in> set rids \<or> filled cal agg today (ds rid) rid book ?st"
  proof (cases "r = rid")
    case False
    with Cons.prems sync_elsewhere [of r ds book cal agg api sa_path today st] show ?thesis by (auto simp: filled_def)
  qed (simp add: sync_fills [where ds = ds, OF assms(1-4)])
  with Cons.prems(1) Cons.IH [of ?st] show ?case by simp
qed simp

lemma sync_reports_acquired:
  assumes "fst (set_nx_ex redis REPORT_LOCK_KEY me ttl r)"
  shows "snd (sync_reports redis gap me ttl d f r st) = sync_each f (report_restaurants d) st"
  using assms by (auto simp: sync_reports_def with_lock_def run_report_sync_def Let_def split: prod.splits)

section \<open>Properties\<close>

text \<open>
  C32 (report job). When an instance gets the lock, every restaurant with a spreadsheet of its own that Google serves has
  both worksheets replaced by its own figures, whatever the calls for the other restaurants raise, before or after it;
  a spreadsheet of no restaurant is not touched. An instance that does not get the lock changes nothing.
\<close>

theorem report_job_fills_every_sheet:
  assumes "rid \<in> set (report_restaurants d)" and "report_sheet rid (ds rid) = Some book"
    and "\<And>r. r \<in> set (report_restaurants d) \<Longrightarrow> r \<noteq> rid \<Longrightarrow> report_sheet r (ds r) \<noteq> Some book"
    and "\<And>cs c. call_book c = None \<or> call_book c = Some book \<Longrightarrow> gs_raises api cs c = None"
    and "sa_path = Some path" and "path \<noteq> []"
    and "sync_reports redis gap me ttl d (sync_at cal agg api sa_path today ds) r st = (r', st')"
  shows "if fst (set_nx_ex redis REPORT_LOCK_KEY me ttl r) then
      gs_books st' book ''Revenue'' = Some (revenue_values
        (map (revenue_row cal) (daily_revenue cal rid (midnight cal (today - 30)) (ds rid))))
      \<and> gs_books st' book ''Top Items'' = Some (top_values (top_items agg rid (midnight cal (today - 30)) (ds rid)))
      \<and> (\<forall>b. (\<forall>r \<in> set (report_restaurants d). report_sheet r (ds r) \<noteq> Some b) \<longrightarrow> gs_books st' b = gs_books st b)
    else st' = st"
proof (cases "fst (set_nx_ex redis REPORT_LOCK_KEY me ttl r)")
  case True
  let ?sync = "sync_at cal agg api sa_path today ds"
  have quiet: "quiet_on api book" using assms(4) by (simp add: quiet_on_def)
  have st': "st' = sync_each ?sync (report_restaurants d) st"
    using sync_reports_acquired [OF True, of gap d ?sync st] assms(7) by simp
  have "filled cal agg today (ds rid) rid book st'"
    unfolding st' by (rule sync_each_fills [where ds = ds, OF quiet assms(5,6,2)]) (use assms(1,3) in auto)
  moreover have "gs_books st' b = gs_books st b" if "\<forall>r \<in> set (report_restaurants d). report_sheet r (ds r) \<noteq> Some b" for b
    unfolding st' by (rule sync_each_elsewhere) (use that in blast)
  ultimately show ?thesis using True by (simp add: filled_def)
next
  case False
  with assms(7) show ?thesis by (auto simp: sync_reports_def with_lock_def split: prod.splits)
qed

text \<open>Nothing keeps two restaurants from naming the same spreadsheet: the last one's figures are all that is left.\<close>

lemma shared_sheet_keeps_the_last:
  assumes "report_restaurants d = rids @ [rid]" and "report_sheet rid (ds rid) = Some book"
    and "quiet_on api book" and "sa_path = Some path" and "path \<noteq> []"
  shows "filled cal agg today (ds rid) rid book (snd (run_report_sync d (sync_at cal agg api sa_path today ds) st))"
proof -
  have snoc: "sync_each f (xs @ [x]) s = snd (f x (sync_each f xs s))" for f :: "uuid \<Rightarrow> gs_state \<Rightarrow> unit result \<times> gs_state" and xs x s
    by (induction xs arbitrary: s) simp_all
  show ?thesis
    using sync_fills [where ds = ds, OF assms(3-5,2)] by (simp add: run_report_sync_def assms(1) snoc)
qed

section \<open>Witnesses\<close>

text \<open>Two restaurants; Google refuses whatever concerns the spreadsheet of the other.\<close>

definition two_reports :: database where
  "two_reports = demo_paid\<lparr>restaurant_settings :=
     [(demo_settings 2)\<lparr>rs_report_sheet_id := Some ''broken''\<rparr>, (demo_settings 1)\<lparr>rs_report_sheet_id := Some ''sheet''\<rparr>]\<rparr>"

definition half_broken :: gs_api where
  "half_broken = \<lparr>gs_raises = (\<lambda>_ c. if call_book c = Some ''broken'' then Some ''PermissionError'' else None)\<rparr>"

lemma report_job_fills_every_sheet_witness:
  "\<exists>r' st'. sync_reports map_redis (\<lambda>_ m. m) ''me'' 300 two_reports
      (sync_at demo_calendar (\<lambda>ns. ns) half_broken (Some ''key.json'') 0 (\<lambda>_. two_reports)) Map.empty
      \<lparr>gs_calls = [], gs_books = (\<lambda>_ _. None)\<rparr> = (r', st')
    \<and> gs_books st' ''sheet'' ''Top Items'' \<noteq> None \<and> gs_books st' ''other'' = (\<lambda>_. None)"
proof -
  let ?st = "\<lparr>gs_calls = [], gs_books = (\<lambda>_ _. None)\<rparr>"
  have rids: "report_restaurants two_reports = [2, 1]"
    by (simp add: report_restaurants_def two_reports_def demo_settings_def)
  have sheets: "report_sheet 1 two_reports = Some ''sheet''" "report_sheet 2 two_reports = Some ''broken''"
    by (simp_all add: report_sheet_def two_reports_def demo_settings_def)
  have lock: "fst (set_nx_ex map_redis REPORT_LOCK_KEY ''me'' 300 Map.empty)" by (simp add: map_redis_def)
  obtain r' st' where run: "sync_reports map_redis (\<lambda>_ m. m) ''me'' 300 two_reports
      (sync_at demo_calendar (\<lambda>ns. ns) half_broken (Some ''key.json'') 0 (\<lambda>_. two_reports)) Map.empty ?st = (r', st')"
    by fastforce
  have quiet: "gs_raises half_broken cs c = None" if "call_book c = None \<or> call_book c = Some ''sheet''" for cs c
    using that by (auto simp: half_broken_def)
  note result = report_job_fills_every_sheet [where ds = "\<lambda>_. two_reports", OF _ sheets(1) _ quiet refl _ run]
  have "gs_books st' ''sheet'' ''Top Items'' \<noteq> None \<and> gs_books st' ''other'' = gs_books ?st ''other''"
    using result lock by (simp add: rids sheets)
  with run show ?thesis by simp
qed

end
