(* ===== verification/Seed.thy ===== *)
theory Seed imports AdminTables AdminSettings begin

text \<open>
  \<^verbatim>\<open>qorder_api/seed.py\<close>: the demo tenant of a development database, with the inserts of the tables that
  no router writes (restaurants, settings, users). Non-ASCII texts are their UTF-8 bytes. \<open>gen e\<close> gives the
  keys in the order of the inserts, \<open>token\<close> the random QR tokens, \<open>salt\<close> the salts.
\<close>

section \<open>Rows that only the script inserts\<close>

definition insert_restaurant :: "Restaurant \<Rightarrow> database \<Rightarrow> database result" where
  "insert_restaurant r d =
     (case check
        [(r_id r \<notin> r_id ` set (restaurants d), IntegrityError ''restaurants_pkey''),
         (r_slug r \<notin> r_slug ` set (restaurants d), IntegrityError ''uq_restaurants_slug'')] of
        Some x \<Rightarrow> Inl x
      | None \<Rightarrow> Inr (d\<lparr>restaurants := restaurants d @ [r]\<rparr>))"

definition insert_settings :: "RestaurantSettings \<Rightarrow> database \<Rightarrow> database result" where
  "insert_settings s d =
     (case check
        [(rs_restaurant_id s \<notin> rs_restaurant_id ` set (restaurant_settings d),
            IntegrityError ''restaurant_settings_pkey''),
         (fk_restaurant (rs_restaurant_id s) d, IntegrityError ''restaurant_id_fkey'')] of
        Some x \<Rightarrow> Inl x
      | None \<Rightarrow> Inr (d\<lparr>restaurant_settings := restaurant_settings d @ [s]\<rparr>))"

definition insert_user :: "User \<Rightarrow> database \<Rightarrow> database result" where
  "insert_user u d =
     (case check
        [(u_id u \<notin> u_id ` set (users d), IntegrityError ''users_pkey''),
         (u_email u = None \<or> (u_restaurant_id u, u_email u) \<notin> (\<lambda>x. (u_restaurant_id x, u_email x)) ` set (users d),
            IntegrityError ''uq_users_restaurant_email''),
         (u_role u = ADMIN \<and> u_email u \<noteq> None \<and> u_password_hash u \<noteq> None
            \<or> u_role u = STAFF \<and> u_pin_hash u \<noteq> None, IntegrityError ''ck_users_role_credentials''),
         (fk_restaurant (u_restaurant_id u) d, IntegrityError ''restaurant_id_fkey'')] of
        Some x \<Rightarrow> Inl x
      | None \<Rightarrow> Inr (d\<lparr>users := users d @ [u]\<rparr>))"

fun insert_all :: "('a \<Rightarrow> database \<Rightarrow> database result) \<Rightarrow> 'a list \<Rightarrow> database \<Rightarrow> database result" where
  "insert_all ins [] d = Inr d"
| "insert_all ins (x # xs) d = (case ins x d of Inl e \<Rightarrow> Inl e | Inr d' \<Rightarrow> insert_all ins xs d')"

section \<open>The data\<close>

definition RESTAURANT_SLUG :: string where "RESTAURANT_SLUG = ''bia-hoi-demo''"
definition ADMIN_EMAIL :: string where "ADMIN_EMAIL = ''admin@qorder.local''"
definition ADMIN_PASSWORD :: string where "ADMIN_PASSWORD = ''admin1234''"
definition STAFF_PIN :: string where "STAFF_PIN = ''1234''"

definition hash_password :: "bcrypt_api \<Rightarrow> string \<Rightarrow> string \<Rightarrow> string" where
  "hash_password bc salt plain = hashpw bc plain salt"

definition seed_restaurant :: "env \<Rightarrow> Restaurant" where
  "seed_restaurant e = \<lparr>r_id = gen e 0, r_slug = RESTAURANT_SLUG,
     r_name = ''Bia H'' @ [CHR 0xC6, CHR 0xA1] @ ''i Demo'', r_phone = Some ''0900000000'',
     r_address = Some (''123 '' @ [CHR 0xC4, CHR 0x90, CHR 0xC6, CHR 0xB0, CHR 0xE1, CHR 0xBB, CHR 0x9D] @ ''ng Bia, H''
       @ [CHR 0xC3, CHR 0xA0] @ '' N'' @ [CHR 0xE1, CHR 0xBB, CHR 0x99] @ ''i''),
     r_is_active = True, r_created_at = t_db e, r_updated_at = t_db e\<rparr>"

definition seed_settings :: "env \<Rightarrow> RestaurantSettings" where
  "seed_settings e = \<lparr>rs_restaurant_id = gen e 0, rs_currency = ''VND'', rs_logo_url = None,
     rs_timezone = ''Asia/Ho_Chi_Minh'', rs_default_savory_minutes = 10, rs_default_light_minutes = 5,
     rs_session_timeout_hours = 6, rs_kitchen_screen_requires_pin = True, rs_staff_call_cooldown_seconds = 60,
     rs_report_sheet_id = None, rs_report_sync_cron = ''0 * * * *'',
     rs_bill_footer_note = Some (''C'' @ [CHR 0xE1, CHR 0xBA, CHR 0xA3] @ ''m '' @ [CHR 0xC6, CHR 0xA1] @ ''n qu''
       @ [CHR 0xC3, CHR 0xBD] @ '' kh'' @ [CHR 0xC3, CHR 0xA1] @ ''ch!''),
     rs_updated_at = t_db e\<rparr>"

definition seed_users :: "bcrypt_api \<Rightarrow> (nat \<Rightarrow> string) \<Rightarrow> env \<Rightarrow> User list" where
  "seed_users bc salt e =
     [\<lparr>u_id = gen e 1, u_restaurant_id = gen e 0, u_role = ADMIN, u_email = Some ADMIN_EMAIL,
        u_password_hash = Some (hash_password bc (salt 0) ADMIN_PASSWORD), u_pin_hash = None,
        u_display_name = Some (''Qu'' @ [CHR 0xE1, CHR 0xBA, CHR 0xA3] @ ''n tr'' @ [CHR 0xE1, CHR 0xBB, CHR 0x8B]),
        u_is_active = True, u_created_at = t_db e\<rparr>,
      \<lparr>u_id = gen e 2, u_restaurant_id = gen e 0, u_role = STAFF, u_email = None,
        u_password_hash = None, u_pin_hash = Some (hash_pin bc (salt 1) STAFF_PIN),
        u_display_name = Some (''Nh'' @ [CHR 0xC3, CHR 0xA2] @ ''n vi'' @ [CHR 0xC3, CHR 0xAA] @ ''n''),
        u_is_active = True, u_created_at = t_db e\<rparr>]"

definition seed_table :: "env \<Rightarrow> (nat \<Rightarrow> string) \<Rightarrow> nat \<Rightarrow> string \<Rightarrow> Table" where
  "seed_table e token k number = \<lparr>t_id = gen e (3 + k), t_restaurant_id = gen e 0, t_table_number = number,
     t_qr_token = token k, t_qr_image_url = None, t_is_active = True, t_created_at = t_db e\<rparr>"

definition seed_tables :: "env \<Rightarrow> (nat \<Rightarrow> string) \<Rightarrow> Table list" where
  "seed_tables e token = [seed_table e token 0 ''1'', seed_table e token 1 ''2'', seed_table e token 2 ''VIP-1'']"

definition seed_categories :: "env \<Rightarrow> MenuCategory list" where
  "seed_categories e =
     [\<lparr>mc_id = gen e 6, mc_restaurant_id = gen e 0,
        mc_name = [CHR 0xC4, CHR 0x90, CHR 0xE1, CHR 0xBB, CHR 0x93] @ '' nh'' @ [CHR 0xE1, CHR 0xBA, CHR 0xAF] @ ''m'',
        mc_sort_order = 1, mc_is_active = True, mc_created_at = t_db e\<rparr>,
      \<lparr>mc_id = gen e 7, mc_restaurant_id = gen e 0,
        mc_name = [CHR 0xC4, CHR 0x90, CHR 0xE1, CHR 0xBB, CHR 0x93] @ '' u'' @ [CHR 0xE1, CHR 0xBB, CHR 0x91] @ ''ng'',
        mc_sort_order = 2, mc_is_active = True, mc_created_at = t_db e\<rparr>]"

definition seed_item :: "env \<Rightarrow> nat \<Rightarrow> nat \<Rightarrow> string \<Rightarrow> string option \<Rightarrow> money \<Rightarrow> int \<Rightarrow> int \<Rightarrow> MenuItem" where
  "seed_item e k category name description price prep order =
     \<lparr>mi_id = gen e k, mi_restaurant_id = gen e 0, mi_category_id = Some (gen e category), mi_name = name,
      mi_description = description, mi_price = price, mi_prep_time_minutes = prep, mi_is_available = True,
      mi_is_active = True, mi_image_url = None, mi_image_large_url = None, mi_is_featured = False,
      mi_sort_order = order, mi_created_at = t_db e, mi_updated_at = t_db e\<rparr>"

definition seed_items :: "env \<Rightarrow> MenuItem list" where
  "seed_items e =
     [seed_item e 8 6 (''L'' @ [CHR 0xE1, CHR 0xBA, CHR 0xA1] @ ''c lu'' @ [CHR 0xE1, CHR 0xBB, CHR 0x99] @ ''c'')
        (Some ([CHR 0xC4, CHR 0x90, CHR 0xC4, CHR 0xA9] @ ''a l'' @ [CHR 0xE1, CHR 0xBA, CHR 0xA1] @ ''c lu''
           @ [CHR 0xE1, CHR 0xBB, CHR 0x99] @ ''c n'' @ [CHR 0xC3, CHR 0xB3] @ ''ng'')) 2000000 5 1,
      seed_item e 9 6 (''Nem chua r'' @ [CHR 0xC3, CHR 0xA1] @ ''n'')
        (Some (''Nem chua r'' @ [CHR 0xC3, CHR 0xA1] @ ''n gi'' @ [CHR 0xC3, CHR 0xB2] @ ''n'')) 4500000 10 2,
      seed_item e 10 7 (''Bia h'' @ [CHR 0xC6, CHR 0xA1] @ ''i (c'' @ [CHR 0xE1, CHR 0xBB, CHR 0x91] @ ''c)'')
        (Some (''Bia h'' @ [CHR 0xC6, CHR 0xA1] @ ''i t'' @ [CHR 0xC6, CHR 0xB0, CHR 0xC6, CHR 0xA1] @ ''i'')) 1000000 0 1,
      seed_item e 11 7 (''Tr'' @ [CHR 0xC3, CHR 0xA0] @ '' '' @ [CHR 0xC4, CHR 0x91, CHR 0xC3, CHR 0xA1])
        None 300000 0 2]"

section \<open>The script\<close>

text \<open>The QR images, one after the other, until an upload fails.\<close>

fun upload_images :: "string \<Rightarrow> (string \<Rightarrow> string) \<Rightarrow> s3_settings \<Rightarrow> s3_api \<Rightarrow> Table list \<Rightarrow> s3_state
    \<Rightarrow> (uuid \<times> string) list result \<times> s3_state" where
  "upload_images base_url render cfg api [] st = (Inr [], st)"
| "upload_images base_url render cfg api (t # ts) st =
     (case upload_file cfg api (''qr/'' @ uuid_str (t_id t) @ ''.png'')
             (render (base_url @ ''/'' @ RESTAURANT_SLUG @ ''/t/'' @ t_qr_token t)) ''image/png'' None st of
        (Inl x, st') \<Rightarrow> (Inl x, st')
      | (Inr url, st') \<Rightarrow>
          (case upload_images base_url render cfg api ts st' of
             (Inl x, st'') \<Rightarrow> (Inl x, st'')
           | (Inr urls, st'') \<Rightarrow> (Inr ((t_id t, url) # urls), st'')))"

fun set_urls :: "(uuid \<times> string) list \<Rightarrow> database \<Rightarrow> database" where
  "set_urls [] d = d"
| "set_urls ((i, url) # us) d =
     set_urls us (d\<lparr>tables := sql_update (\<lambda>t. t_id t = i) (\<lambda>t. t\<lparr>t_qr_image_url := Some url\<rparr>) (tables d)\<rparr>)"

text \<open>What is flushed before the uploads, and after them.\<close>

definition seed_tenant :: "bcrypt_api \<Rightarrow> (nat \<Rightarrow> string) \<Rightarrow> (nat \<Rightarrow> string) \<Rightarrow> env \<Rightarrow> database \<Rightarrow> database result" where
  "seed_tenant bc salt token e d =
     (case insert_restaurant (seed_restaurant e) d of
        Inl x \<Rightarrow> Inl x
      | Inr d \<Rightarrow> (case insert_settings (seed_settings e) d of
        Inl x \<Rightarrow> Inl x
      | Inr d \<Rightarrow> (case insert_all insert_user (seed_users bc salt e) d of
        Inl x \<Rightarrow> Inl x
      | Inr d \<Rightarrow> insert_all insert_table (seed_tables e token) d)))"

definition seed_menu :: "env \<Rightarrow> database \<Rightarrow> database result" where
  "seed_menu e d =
     (case insert_all insert_menu_category (seed_categories e) d of
        Inl x \<Rightarrow> Inl x
      | Inr d \<Rightarrow> insert_all insert_menu_item (seed_items e) d)"

definition seed :: "bcrypt_api \<Rightarrow> (nat \<Rightarrow> string) \<Rightarrow> (nat \<Rightarrow> string) \<Rightarrow> string \<Rightarrow> (string \<Rightarrow> string) \<Rightarrow> s3_settings \<Rightarrow> s3_api
    \<Rightarrow> env \<Rightarrow> database \<Rightarrow> s3_state \<Rightarrow> unit result \<times> database \<times> s3_state" where
  "seed bc salt token base_url render cfg api e d st =
     (if \<exists>r \<in> set (restaurants d). r_slug r = RESTAURANT_SLUG then (Inr (), d, st)
      else
        (let d1 = others e 3 d
         in case seed_tenant bc salt token e d1 of
              Inl x \<Rightarrow> (Inl x, d1, st)
            | Inr d2 \<Rightarrow>
                (case upload_images base_url render cfg api (seed_tables e token) st of
                   (Inl x, st') \<Rightarrow> (Inl x, d1, st')
                 | (Inr urls, st') \<Rightarrow>
                     (case seed_menu e (set_urls urls d2) of
                        Inl x \<Rightarrow> (Inl x, d1, st')
                      | Inr d3 \<Rightarrow> (Inr (), d3, st')))))"

section \<open>The invariant of the database\<close>

lemma case_sum_Inr:
  assumes "(case x of Inl e \<Rightarrow> Inl e | Inr y \<Rightarrow> f y) = Inr z"
  obtains y where "x = Inr y" and "f y = Inr z"
  using assms by (cases x) auto

lemma insert_Inr_rows:
  "insert_restaurant r d = Inr d' \<Longrightarrow> d' = d\<lparr>restaurants := restaurants d @ [r]\<rparr>
     \<and> r_id r \<notin> r_id ` set (restaurants d) \<and> r_slug r \<notin> r_slug ` set (restaurants d)"
  "insert_settings s d = Inr d' \<Longrightarrow> d' = d\<lparr>restaurant_settings := restaurant_settings d @ [s]\<rparr>
     \<and> rs_restaurant_id s \<notin> rs_restaurant_id ` set (restaurant_settings d)"
  "insert_user u d = Inr d' \<Longrightarrow> d' = d\<lparr>users := users d @ [u]\<rparr> \<and> u_id u \<notin> u_id ` set (users d)"
  unfolding insert_restaurant_def insert_settings_def insert_user_def
  by (simp_all del: check.simps split: option.splits)

lemma open_tables_seed_frame [simp]:
  "open_tables (d\<lparr>restaurants := a\<rparr>) = open_tables d" "open_tables (d\<lparr>users := b\<rparr>) = open_tables d"
  by (simp_all add: open_tables_def)

lemma db_inv_insert_restaurant: "db_inv d \<Longrightarrow> insert_restaurant r d = Inr d' \<Longrightarrow> db_inv d'"
  by (drule insert_Inr_rows(1)) (simp add: inv_defs of_defs)

lemma db_inv_insert_settings: "db_inv d \<Longrightarrow> insert_settings s d = Inr d' \<Longrightarrow> db_inv d'"
  by (drule insert_Inr_rows(2)) (simp add: inv_defs of_defs)

lemma db_inv_insert_user: "db_inv d \<Longrightarrow> insert_user u d = Inr d' \<Longrightarrow> db_inv d'"
  by (drule insert_Inr_rows(3)) (simp add: inv_defs of_defs)

lemma insert_all_keeps:
  assumes "\<And>x d d'. P d \<Longrightarrow> ins x d = Inr d' \<Longrightarrow> P d'" and "P d" and "insert_all ins xs d = Inr d'"
  shows "P d'"
  using assms(2,3)
proof (induction xs arbitrary: d)
  case (Cons x xs)
  then show ?case using assms(1) by (auto split: sum.splits)
qed simp

lemma db_inv_insert_all:
  "db_inv d \<Longrightarrow> insert_all insert_user us d = Inr d' \<Longrightarrow> db_inv d'"
  "db_inv d \<Longrightarrow> insert_all insert_table ts d = Inr d' \<Longrightarrow> db_inv d'"
  "db_inv d \<Longrightarrow> insert_all insert_menu_category cs d = Inr d' \<Longrightarrow> db_inv d'"
  "db_inv d \<Longrightarrow> insert_all insert_menu_item ms d = Inr d' \<Longrightarrow> db_inv d'"
  by (rule insert_all_keeps [where P = db_inv], erule (1) db_inv_insert_user db_inv_insert_table
      db_inv_insert_menu_category db_inv_insert_menu_item, assumption+)+

lemma db_inv_set_urls: "db_inv d \<Longrightarrow> db_inv (set_urls us d)"
proof (induction us d rule: set_urls.induct)
  case (2 i url us d)
  let ?f = "\<lambda>t. t\<lparr>t_qr_image_url := Some url\<rparr>"
  have "db_inv (d\<lparr>tables := sql_update (\<lambda>t. t_id t = i) ?f (tables d)\<rparr>)"
    using 2(2) by (simp add: inv_defs table_of_update unique_by_sql_update)
  from 2(1) [OF this] show ?case by simp
qed simp

lemma db_inv_seed:
  assumes inv: "db_inv d" and e: "good_env e"
  shows "db_inv (fst (snd (seed bc salt token base_url render cfg api e d st)))"
proof -
  have "db_inv d2" if "seed_tenant bc salt token e d1 = Inr d2" "db_inv d1" for d1 d2
    using that unfolding seed_tenant_def
    by (elim case_sum_Inr) (iprover intro: db_inv_insert_restaurant db_inv_insert_settings db_inv_insert_all)
  moreover have "db_inv d3" if "seed_menu e d2 = Inr d3" "db_inv d2" for d2 d3
    using that unfolding seed_menu_def
    by (elim case_sum_Inr) (iprover intro: db_inv_insert_all)
  ultimately show ?thesis
    using inv good_envD(1) [OF e inv, of 3] db_inv_set_urls
    by (auto simp: seed_def Let_def split: sum.splits prod.splits)
qed

section \<open>Properties\<close>

text \<open>What the script finds free: its keys, its tokens, and a restaurant without rows yet.\<close>

definition seed_fresh :: "env \<Rightarrow> (nat \<Rightarrow> string) \<Rightarrow> database \<Rightarrow> bool" where
  "seed_fresh e token d \<longleftrightarrow>
     inj_on (gen e) {..11} \<and> inj_on token {..2}
     \<and> (\<forall>k \<le> 11. gen e k \<notin> u_id ` set (users d) \<and> gen e k \<notin> t_id ` set (tables d)
          \<and> gen e k \<notin> mc_id ` set (menu_categories d) \<and> gen e k \<notin> mi_id ` set (menu_items d))
     \<and> (\<forall>k \<le> 2. token k \<notin> t_qr_token ` set (tables d))
     \<and> RESTAURANT_SLUG \<notin> r_slug ` set (restaurants d)
     \<and> gen e 0 \<notin> r_id ` set (restaurants d) \<union> rs_restaurant_id ` set (restaurant_settings d)
          \<union> u_restaurant_id ` set (users d) \<union> t_restaurant_id ` set (tables d)
          \<union> mc_restaurant_id ` set (menu_categories d) \<union> mi_restaurant_id ` set (menu_items d)"

lemma seed_freshD:
  assumes "seed_fresh e token d"
  shows "k \<le> 11 \<Longrightarrow> gen e k \<notin> u_id ` set (users d)" and "k \<le> 11 \<Longrightarrow> gen e k \<notin> t_id ` set (tables d)"
    and "k \<le> 11 \<Longrightarrow> gen e k \<notin> mc_id ` set (menu_categories d)" and "k \<le> 11 \<Longrightarrow> gen e k \<notin> mi_id ` set (menu_items d)"
    and "k \<le> 2 \<Longrightarrow> token k \<notin> t_qr_token ` set (tables d)" and "RESTAURANT_SLUG \<notin> r_slug ` set (restaurants d)"
    and "gen e 0 \<notin> r_id ` set (restaurants d)" and "gen e 0 \<notin> rs_restaurant_id ` set (restaurant_settings d)"
    and "gen e 0 \<notin> u_restaurant_id ` set (users d)" and "gen e 0 \<notin> t_restaurant_id ` set (tables d)"
    and "gen e 0 \<notin> mc_restaurant_id ` set (menu_categories d)" and "gen e 0 \<notin> mi_restaurant_id ` set (menu_items d)"
  using assms by (simp_all only: seed_fresh_def Un_iff de_Morgan_disj simp_thms)

lemma pair_not_image: "a \<notin> f ` A \<Longrightarrow> (a, b) \<notin> (\<lambda>x. (f x, g x)) ` A"
  by (auto simp: image_iff)

lemma seed_gens:
  assumes "seed_fresh e token d" and "i \<le> 11" and "j \<le> 11"
  shows "gen e i = gen e j \<longleftrightarrow> i = j"
  using assms by (auto simp: seed_fresh_def dest: inj_onD)

lemma seed_tokens:
  assumes "seed_fresh e token d" and "i \<le> 2" and "j \<le> 2"
  shows "token i = token j \<longleftrightarrow> i = j"
  using assms by (auto simp: seed_fresh_def dest: inj_onD)

text \<open>What the steps leave of the restaurants.\<close>

lemma insert_keeps_restaurants:
  "insert_user u d = Inr d' \<Longrightarrow> restaurants d' = restaurants d"
  "insert_table t d = Inr d' \<Longrightarrow> restaurants d' = restaurants d"
  "insert_menu_category c d = Inr d' \<Longrightarrow> restaurants d' = restaurants d"
  "insert_menu_item m d = Inr d' \<Longrightarrow> restaurants d' = restaurants d"
  unfolding insert_user_def insert_table_def insert_menu_category_def insert_menu_item_def
  by (auto simp del: check.simps check_None_iff split: option.splits)

lemma insert_all_same:
  assumes "\<And>x d d'. ins x d = Inr d' \<Longrightarrow> f d' = f d" and "insert_all ins xs d = Inr d'"
  shows "f d' = f d"
  using insert_all_keeps [of "\<lambda>x. f x = f d" ins d xs d'] assms by simp

lemma insert_all_restaurants:
  "insert_all insert_user us d = Inr d' \<Longrightarrow> restaurants d' = restaurants d"
  "insert_all insert_table ts d = Inr d' \<Longrightarrow> restaurants d' = restaurants d"
  "insert_all insert_menu_category cs d = Inr d' \<Longrightarrow> restaurants d' = restaurants d"
  "insert_all insert_menu_item ms d = Inr d' \<Longrightarrow> restaurants d' = restaurants d"
  by (rule insert_all_same [where f = restaurants], erule insert_keeps_restaurants, assumption)+

lemma seed_tenant_restaurants:
  assumes "seed_tenant bc salt token e d = Inr d'"
  shows "restaurants d' = restaurants d @ [seed_restaurant e]"
proof -
  from assms obtain d1 d2 d3 where "insert_restaurant (seed_restaurant e) d = Inr d1"
    "insert_settings (seed_settings e) d1 = Inr d2" "insert_all insert_user (seed_users bc salt e) d2 = Inr d3"
    "insert_all insert_table (seed_tables e token) d3 = Inr d'"
    unfolding seed_tenant_def by (elim case_sum_Inr)
  then show ?thesis
    using insert_Inr_rows(1) [of "seed_restaurant e" d d1] insert_Inr_rows(2) [of "seed_settings e" d1 d2]
      insert_all_restaurants(1) [of "seed_users bc salt e" d2 d3] insert_all_restaurants(2) [of "seed_tables e token" d3 d']
    by simp
qed

lemma seed_menu_restaurants:
  assumes "seed_menu e d = Inr d'"
  shows "restaurants d' = restaurants d"
proof -
  from assms obtain d1 where "insert_all insert_menu_category (seed_categories e) d = Inr d1"
    "insert_all insert_menu_item (seed_items e) d1 = Inr d'"
    unfolding seed_menu_def by (elim case_sum_Inr)
  then show ?thesis
    using insert_all_restaurants(3) [of "seed_categories e" d d1] insert_all_restaurants(4) [of "seed_items e" d1 d'] by simp
qed

text \<open>The rows before the uploads, all inserted.\<close>

lemma seed_tenant_rows:
  assumes f: "seed_fresh e token d"
  shows "seed_tenant bc salt token e d = Inr (d\<lparr>restaurants := restaurants d @ [seed_restaurant e],
    restaurant_settings := restaurant_settings d @ [seed_settings e], users := users d @ seed_users bc salt e,
    tables := tables d @ seed_tables e token\<rparr>)"
proof -
  note g = seed_gens [OF f] and tk = seed_tokens [OF f] and fr = seed_freshD [OF f]
  have r: "insert_restaurant (seed_restaurant e) d = Inr (d\<lparr>restaurants := restaurants d @ [seed_restaurant e]\<rparr>)"
    using fr(6,7) by (simp add: insert_restaurant_def seed_restaurant_def)
  let ?d1 = "d\<lparr>restaurants := restaurants d @ [seed_restaurant e]\<rparr>"
  have s: "insert_settings (seed_settings e) ?d1 = Inr (?d1\<lparr>restaurant_settings := restaurant_settings d @ [seed_settings e]\<rparr>)"
    using fr(8) by (simp add: insert_settings_def seed_restaurant_def seed_settings_def fk_defs)
  let ?d2 = "?d1\<lparr>restaurant_settings := restaurant_settings d @ [seed_settings e]\<rparr>"
  have u: "insert_all insert_user (seed_users bc salt e) ?d2 = Inr (?d2\<lparr>users := users d @ seed_users bc salt e\<rparr>)"
    using fr(1) [of 1] fr(1) [of 2] pair_not_image [OF fr(9), where g = u_email] g [of 1 2]
    by (simp add: seed_users_def insert_user_def fk_defs seed_restaurant_def)
  let ?d3 = "?d2\<lparr>users := users d @ seed_users bc salt e\<rparr>"
  have t: "insert_all insert_table (seed_tables e token) ?d3 = Inr (?d3\<lparr>tables := tables d @ seed_tables e token\<rparr>)"
    using fr(2) [of 3] fr(2) [of 4] fr(2) [of 5] fr(5) [of 0] fr(5) [of 1] fr(5) [of 2] pair_not_image [OF fr(10), where g = t_table_number]
      g [of 3 4] g [of 3 5] g [of 4 5] tk [of 0 1] tk [of 0 2] tk [of 1 2]
    by (simp add: seed_tables_def seed_table_def insert_table_def fk_defs seed_restaurant_def)
  from r s u t show ?thesis by (simp add: seed_tenant_def)
qed

lemma seed_menu_rows:
  assumes f: "seed_fresh e token d" and r: "gen e 0 \<in> r_id ` set (restaurants d')"
    and same: "menu_categories d' = menu_categories d" "menu_items d' = menu_items d"
  shows "seed_menu e d' = Inr (d'\<lparr>menu_categories := menu_categories d @ seed_categories e,
    menu_items := menu_items d @ seed_items e\<rparr>)"
proof -
  note g = seed_gens [OF f] and fr = seed_freshD [OF f]
  have c: "insert_all insert_menu_category (seed_categories e) d'
      = Inr (d'\<lparr>menu_categories := menu_categories d @ seed_categories e\<rparr>)"
    using fr(3) [of 6] fr(3) [of 7] r same g [of 6 7]
    by (simp add: seed_categories_def insert_menu_category_def fk_defs fits_int4_def)
  have "insert_all insert_menu_item (seed_items e) (d'\<lparr>menu_categories := menu_categories d @ seed_categories e\<rparr>)
      = Inr (d'\<lparr>menu_categories := menu_categories d @ seed_categories e, menu_items := menu_items d @ seed_items e\<rparr>)"
    using fr(4) [of 8] fr(4) [of 9] fr(4) [of 10] fr(4) [of 11] r same
      g [of 8 9] g [of 8 10] g [of 8 11] g [of 9 10] g [of 9 11] g [of 10 11]
    by (simp add: seed_items_def seed_item_def seed_categories_def insert_menu_item_def menu_item_checks_def
        fk_defs fk_category_def fits_int4_def fits_numeric_12_2_def)
  with c show ?thesis by (simp add: seed_menu_def)
qed

text \<open>Setting the URLs changes the images only.\<close>

lemma set_urls_frame [simp]:
  "restaurants (set_urls us d) = restaurants d" "restaurant_settings (set_urls us d) = restaurant_settings d"
  "users (set_urls us d) = users d" "menu_categories (set_urls us d) = menu_categories d"
  "menu_items (set_urls us d) = menu_items d"
  by (induction us d rule: set_urls.induct) simp_all

lemma set_urls_table:
  "t \<in> set (tables d) \<Longrightarrow> \<exists>t' \<in> set (tables (set_urls us d)). t_id t' = t_id t \<and> t_restaurant_id t' = t_restaurant_id t
     \<and> t_qr_token t' = t_qr_token t \<and> t_is_active t' = t_is_active t"
proof (induction us d arbitrary: t rule: set_urls.induct)
  case (2 i url us d)
  let ?f = "\<lambda>t. if t_id t = i then t\<lparr>t_qr_image_url := Some url\<rparr> else t"
  have "?f t \<in> set (sql_update (\<lambda>t. t_id t = i) (\<lambda>t. t\<lparr>t_qr_image_url := Some url\<rparr>) (tables d))"
    using 2(2) by (simp add: set_sql_update)
  with 2(1) [of "?f t"] show ?case by (auto split: if_splits)
qed auto

lemma upload_images_ok:
  assumes "bucket_ensured st" and "\<And>key. put_error api key = None"
  shows "\<exists>urls st'. upload_images base_url render cfg api ts st = (Inr urls, st')"
  using assms(1)
proof (induction ts arbitrary: st)
  case (Cons t ts)
  have ens: "ensure_bucket cfg api st = (Inr (), st)" using Cons.prems by (simp add: ensure_bucket_def)
  let ?st = "call (PutObject (s3_bucket cfg) (''qr/'' @ uuid_str (t_id t) @ ''.png'')
    (render (base_url @ ''/'' @ RESTAURANT_SLUG @ ''/t/'' @ t_qr_token t)) ''image/png'' None) st"
  have "bucket_ensured ?st" using Cons.prems by (simp add: call_def)
  from Cons.IH [OF this] obtain urls st' where "upload_images base_url render cfg api ts ?st = (Inr urls, st')" by blast
  then show ?case using ens assms(2) by (simp add: upload_file_def Let_def)
qed simp

text \<open>A run on a database without the tenant, with working libraries.\<close>

lemma seed_result:
  assumes f: "seed_fresh e token d" and q: "quiet_env e" and b: "bucket_ensured st" and p: "\<And>key. put_error api key = None"
  shows "\<exists>d' st'. seed bc salt token base_url render cfg api e d st = (Inr (), d', st')
    \<and> restaurants d' = restaurants d @ [seed_restaurant e] \<and> users d' = users d @ seed_users bc salt e
    \<and> restaurant_settings d' = restaurant_settings d @ [seed_settings e]
    \<and> menu_categories d' = menu_categories d @ seed_categories e \<and> menu_items d' = menu_items d @ seed_items e
    \<and> (\<forall>k \<le> 2. \<exists>t \<in> set (tables d'). t_qr_token t = token k \<and> t_is_active t \<and> t_restaurant_id t = gen e 0)"
proof -
  let ?d2 = "d\<lparr>restaurants := restaurants d @ [seed_restaurant e],
    restaurant_settings := restaurant_settings d @ [seed_settings e], users := users d @ seed_users bc salt e,
    tables := tables d @ seed_tables e token\<rparr>"
  obtain urls st' where up: "upload_images base_url render cfg api (seed_tables e token) st = (Inr urls, st')"
    using upload_images_ok [OF b p] by blast
  let ?d3 = "set_urls urls ?d2"
  have menu: "seed_menu e ?d3 = Inr (?d3\<lparr>menu_categories := menu_categories d @ seed_categories e,
      menu_items := menu_items d @ seed_items e\<rparr>)"
    by (rule seed_menu_rows [OF f]) (simp_all add: seed_restaurant_def)
  have none: "\<not> (\<exists>r \<in> set (restaurants d). r_slug r = RESTAURANT_SLUG)"
    using seed_freshD(6) [OF f] by force
  have run: "seed bc salt token base_url render cfg api e d st = (Inr (), ?d3\<lparr>menu_categories := menu_categories d @ seed_categories e,
      menu_items := menu_items d @ seed_items e\<rparr>, st')"
    using none q up menu seed_tenant_rows [OF f] by (simp add: seed_def quiet_env_def)
  have "\<exists>t \<in> set (tables ?d3). t_qr_token t = token k \<and> t_is_active t \<and> t_restaurant_id t = gen e 0" if "k \<le> 2" for k
  proof -
    have "k = 0 \<or> k = 1 \<or> k = 2" using that by linarith
    then obtain n where "seed_table e token k n \<in> set (tables ?d2)" by (auto simp: seed_tables_def)
    from set_urls_table [OF this] show ?thesis by (auto simp: seed_table_def)
  qed
  with run show ?thesis by simp
qed

text \<open>
  Seeding twice: The script keeps the invariant of the database, and a second run after a successful one
  changes nothing, neither the database nor the storage, whatever keys, tokens and libraries it has.
\<close>

theorem seed_is_idempotent:
  assumes "db_inv d" and "good_env e" and "seed bc salt token base_url render cfg api e d st = (Inr (), d', st')"
  shows "db_inv d' \<and> seed bc2 salt2 token2 base_url2 render2 cfg2 api2 e2 d' st2 = (Inr (), d', st2)"
proof -
  have "db_inv d'" using db_inv_seed [OF assms(1,2), of bc salt token base_url render cfg api st] assms(3) by simp
  moreover have "\<exists>r \<in> set (restaurants d'). r_slug r = RESTAURANT_SLUG"
  proof (cases "\<exists>r \<in> set (restaurants d). r_slug r = RESTAURANT_SLUG")
    case True
    with assms(3) show ?thesis by (auto simp: seed_def)
  next
    case False
    with assms(3) obtain d2 d3 urls where "seed_tenant bc salt token e (others e 3 d) = Inr d2"
      and "seed_menu e (set_urls urls d2) = Inr d3" and "d' = d3"
      by (auto simp: seed_def Let_def split: sum.splits prod.splits)
    moreover have "seed_restaurant e \<in> set (restaurants d2)"
      using calculation(1) seed_tenant_restaurants by fastforce
    ultimately have "seed_restaurant e \<in> set (restaurants d')"
      using seed_menu_restaurants by fastforce
    then show ?thesis by (force simp: seed_restaurant_def)
  qed
  ultimately show ?thesis by (simp add: seed_def)
qed

text \<open>
  C33 (the seeded tenant works). Run on a consistent database without the tenant, with new identifiers and tokens, while nothing
  else commits, with the bucket there and every upload accepted, and where no user of any restaurant has the
  administrator's e-mail yet, the script ends without an error and makes a restaurant whose staff and whose administrator can log
  in with the documented PIN and password (bcrypt accepts what it hashed), and each of whose three QR codes shows the menu of
  two categories with two items each. With the storage down or the address taken this is not claimed.
\<close>

theorem seeded_restaurant_works:
  assumes "db_inv d" and "seed_fresh e token d" and "quiet_env e" and "bucket_ensured st"
    and "\<And>key. put_error api key = None" and "\<And>p s. checkpw bc p (hashpw bc p s)"
    and "Some ADMIN_EMAIL \<notin> u_email ` set (users d)"
  shows "\<exists>d' st'. seed bc salt token base_url render cfg api e d st = (Inr (), d', st')
    \<and> staff_login jwt au (checkpw bc) now RESTAURANT_SLUG STAFF_PIN d'
        = Inr (create_access_token jwt au now (gen e 2) ''staff'' (gen e 0))
    \<and> admin_login jwt au (checkpw bc) now ADMIN_EMAIL ADMIN_PASSWORD d'
        = Inr (create_access_token jwt au now (gen e 1) ''admin'' (gen e 0))
    \<and> (\<forall>k \<le> 2. \<exists>page. resolve_qr (token k) d' = Inr page \<and> map (length \<circ> cmc_items) (qrr_menu page) = [2, 2])"
proof -
  note fr = seed_freshD [OF assms(2)] and g = seed_gens [OF assms(2)]
  obtain d' st' where run: "seed bc salt token base_url render cfg api e d st = (Inr (), d', st')"
    and rows: "restaurants d' = restaurants d @ [seed_restaurant e]" "users d' = users d @ seed_users bc salt e"
      "menu_categories d' = menu_categories d @ seed_categories e" "menu_items d' = menu_items d @ seed_items e"
    and tabs: "\<And>k. k \<le> 2 \<Longrightarrow> \<exists>t \<in> set (tables d'). t_qr_token t = token k \<and> t_is_active t \<and> t_restaurant_id t = gen e 0"
    using seed_result [OF assms(2-5), where bc = bc and salt = salt] by blast
  have inv: "db_inv d'"
    using db_inv_seed [OF assms(1), of e bc salt token base_url render cfg api st] run assms(3)
    by (simp add: quiet_env_def good_env_def)
  have none: "filter (\<lambda>r. r_slug r = RESTAURANT_SLUG) (restaurants d) = []"
    "filter (\<lambda>u. u_restaurant_id u = gen e 0 \<and> P u) (users d) = []"
    "filter (\<lambda>u. u_email u = Some ADMIN_EMAIL \<and> P u) (users d) = []"
    "filter (\<lambda>c. mc_restaurant_id c = gen e 0 \<and> Q c) (menu_categories d) = []"
    "filter (\<lambda>m. mi_restaurant_id m = gen e 0 \<and> R m) (menu_items d) = []" for P Q R
    using fr(6,9,11,12) assms(7) by (auto simp: filter_empty_conv image_iff)
  have "staff_login jwt au (checkpw bc) now RESTAURANT_SLUG STAFF_PIN d'
      = Inr (create_access_token jwt au now (gen e 2) ''staff'' (gen e 0))"
    using assms(6) by (simp add: staff_login_def restaurant_by_slug_def active_staff_def rows none
        seed_restaurant_def seed_users_def hash_pin_def)
  moreover have "admin_login jwt au (checkpw bc) now ADMIN_EMAIL ADMIN_PASSWORD d'
      = Inr (create_access_token jwt au now (gen e 1) ''admin'' (gen e 0))"
    using assms(6) by (simp add: admin_login_def rows none seed_users_def hash_password_def)
  moreover have "\<exists>page. resolve_qr (token k) d' = Inr page \<and> map (length \<circ> cmc_items) (qrr_menu page) = [2, 2]"
    if k: "k \<le> 2" for k
  proof -
    obtain t where t: "t \<in> set (tables d')" "t_qr_token t = token k" "t_is_active t" "t_restaurant_id t = gen e 0"
      using tabs [OF k] by blast
    have "resolve_table (token k) d' = Inr (t, seed_restaurant e)"
      using resolve_table_existing [OF inv t(1,3), of "seed_restaurant e"] t(2,4) rows(1)
      by (simp add: seed_restaurant_def)
    moreover have "map (length \<circ> cmc_items) (customer_menu (gen e 0) d') = [2, 2]"
      using g [of 6 7]
      by (simp add: customer_menu_def Let_def rows none seed_categories_def seed_items_def seed_item_def)
    ultimately show ?thesis by (simp add: resolve_qr_def seed_restaurant_def)
  qed
  ultimately show ?thesis using run by blast
qed

section \<open>Witnesses\<close>

definition demo_bcrypt :: bcrypt_api where
  "demo_bcrypt = \<lparr>hashpw = (\<lambda>p s. ''hash:'' @ p), checkpw = (\<lambda>p h. h = ''hash:'' @ p)\<rparr>"

definition demo_tokens :: "nat \<Rightarrow> string" where
  "demo_tokens k = replicate k CHR ''x''"

lemma demo_seed_fresh: "seed_fresh demo_env demo_tokens demo"
proof -
  have u: "unat (of_nat (100 + k) :: uuid) = 100 + k" if "k \<le> 11" for k
    using that by (simp add: unat_of_nat take_bit_nat_eq_self del: of_nat_add)
  have w: "(of_nat (100 + i) :: uuid) = of_nat (100 + j) \<longleftrightarrow> i = j" if "i \<le> 11" "j \<le> 11" for i j :: nat
    using u [OF that(1)] u [OF that(2)] by (metis add_left_cancel)
  have far: "(of_nat (100 + k) :: uuid) \<notin> {1, 2, 10, 11, 12, 20, 21, 22, 23, 30, 40, 41}" if "k \<le> 11" for k
    using u [OF that] by (auto simp del: of_nat_add)
  have "inj_on (gen demo_env) {..11}" by (rule inj_onI) (use w in \<open>simp add: demo_env_sel(4)\<close>)
  moreover have "inj_on demo_tokens {..2}" by (rule inj_onI) (metis demo_tokens_def length_replicate)
  moreover have "demo_tokens k \<notin> t_qr_token ` set (tables demo)" for k
    by (cases k) (simp_all add: demo_tokens_def demo_def demo_table_def)
  ultimately show ?thesis
    using far by (simp add: seed_fresh_def demo_def demo_rows demo_env_sel(4) RESTAURANT_SLUG_def)
qed

lemma demo_seed:
  "\<exists>d' st'. seed demo_bcrypt (\<lambda>_. []) demo_tokens ''http://q'' (\<lambda>url. url) demo_s3 demo_s3_api demo_env demo
     \<lparr>bucket_ensured = True, calls = []\<rparr> = (Inr (), d', st')"
  using seed_result [OF demo_seed_fresh, of "\<lparr>bucket_ensured = True, calls = []\<rparr>" demo_s3_api]
  by (fastforce simp: quiet_env_def demo_s3_api_def)

lemma seed_is_idempotent_witness:
  "\<exists>d' st'. seed demo_bcrypt (\<lambda>_. []) demo_tokens ''http://q'' (\<lambda>url. url) demo_s3 demo_s3_api demo_env demo
       \<lparr>bucket_ensured = True, calls = []\<rparr> = (Inr (), d', st')
     \<and> seed demo_bcrypt (\<lambda>_. []) demo_tokens ''http://q'' (\<lambda>url. url) demo_s3 demo_s3_api demo_env d' st' = (Inr (), d', st')"
proof -
  obtain d' st' where s: "seed demo_bcrypt (\<lambda>_. []) demo_tokens ''http://q'' (\<lambda>url. url) demo_s3 demo_s3_api demo_env demo
      \<lparr>bucket_ensured = True, calls = []\<rparr> = (Inr (), d', st')" using demo_seed by blast
  have "good_env demo_env" by (simp add: good_env_def del: demo_inv)
  from seed_is_idempotent [OF demo_inv this s] s show ?thesis by blast
qed

lemma seeded_restaurant_works_witness:
  "\<exists>d' st'. seed demo_bcrypt (\<lambda>_. []) demo_tokens ''http://q'' (\<lambda>url. url) demo_s3 demo_s3_api demo_env demo
       \<lparr>bucket_ensured = True, calls = []\<rparr> = (Inr (), d', st')
     \<and> (\<exists>tok. staff_login plain_jwt demo_auth (checkpw demo_bcrypt) 0 RESTAURANT_SLUG STAFF_PIN d' = Inr tok)"
proof -
  have "Some ADMIN_EMAIL \<notin> u_email ` set (users demo)" by (simp add: demo_def demo_user_def ADMIN_EMAIL_def)
  with seeded_restaurant_works [OF demo_inv demo_seed_fresh, of "\<lparr>bucket_ensured = True, calls = []\<rparr>" demo_s3_api
      demo_bcrypt "\<lambda>_. []" "''http://q''" "\<lambda>url. url" demo_s3 plain_jwt demo_auth 0]
  show ?thesis by (fastforce simp: quiet_env_def demo_s3_api_def demo_bcrypt_def)
qed

end
