(* ===== verification/Printing.thy ===== *)
theory Printing imports Decimals "HOL-Library.Sublist" begin

text \<open>
  \<^verbatim>\<open>qorder_api/printing/\<close>: the bill, its thermal receipt, its PDF and the choice between the two.
  \<^verbatim>\<open>python-escpos\<close>, \<^verbatim>\<open>weasyprint\<close> and the file system are parameters: what their import and their calls
  raise. Texts are UTF-8 bytes. Amounts are in hundredths, the scale of the columns they come from, so
  that a decimal prints with two places. An exception that leaves a function is \<open>Inl\<close> of its text.
\<close>

section \<open>Data\<close>

record datetime =
  dt_year :: nat
  dt_month :: nat
  dt_day :: nat
  dt_hour :: nat
  dt_minute :: nat
  dt_second :: nat

record BillItem =
  bi_name :: string
  bi_quantity :: int
  bi_unit_price :: money

record BillData =
  bd_restaurant_name :: string
  bd_table_label :: string
  bd_items :: "BillItem list"
  bd_total_amount :: money
  bd_currency :: string
  bd_closed_at :: datetime

datatype print_method = Thermal | Pdf | Failed

record BillResult =
  br_method :: print_method
  br_pdf_path :: "string option"
  br_error :: "string option"

definition failed :: "string \<Rightarrow> BillResult" where
  "failed msg = \<lparr>br_method = Failed, br_pdf_path = None, br_error = Some msg\<rparr>"

lemma failed_sel [simp]:
  "br_method (failed m) = Failed" "br_error (failed m) = Some m" "br_pdf_path (failed m) = None"
  by (simp_all add: failed_def)

definition NL :: string where "NL = [CHR 0x0A]"

section \<open>Texts\<close>

text \<open>\<^verbatim>\<open>int(amount)\<close> cuts towards zero; \<^verbatim>\<open>str(amount)\<close> has two places.\<close>

definition int_of_amount :: "money \<Rightarrow> int" where
  "int_of_amount a = (if a < 0 then - (- a div 100) else a div 100)"

definition str_of_amount :: "money \<Rightarrow> string" where
  "str_of_amount a =
     (let n = nat \<bar>a\<bar> in (if a < 0 then ''-'' else []) @ dec (n div 100) @ ''.'' @ two_digits (n mod 100))"

definition format_price :: "money \<Rightarrow> string \<Rightarrow> string" where
  "format_price amount currency =
     (if currency = ''VND''
      then map (\<lambda>c. if c = CHR '','' then CHR ''.'' else c)
             (int_with_commas (int_of_amount amount) @ [CHR 0xC4, CHR 0x91])
      else str_of_amount amount @ '' '' @ currency)"

definition format_int :: "int \<Rightarrow> string" where
  "format_int i = (if i < 0 then CHR ''-'' # dec (nat (- i)) else dec (nat i))"

definition stamp :: "datetime \<Rightarrow> string" where
  "stamp t = two_digits (dt_day t) @ ''/'' @ two_digits (dt_month t) @ ''/'' @ dec (dt_year t) @ '' ''
     @ two_digits (dt_hour t) @ '':'' @ two_digits (dt_minute t)"

definition file_stamp :: "datetime \<Rightarrow> string" where
  "file_stamp t = dec (dt_year t) @ two_digits (dt_month t) @ two_digits (dt_day t) @ ''_''
     @ two_digits (dt_hour t) @ two_digits (dt_minute t) @ two_digits (dt_second t)"

text \<open>\<^verbatim>\<open>repr\<close> of a text of printable characters.\<close>

definition py_repr :: "string \<Rightarrow> string" where
  "py_repr s =
     (let q = (if CHR 0x27 \<in> set s \<and> CHR 0x22 \<notin> set s then CHR 0x22 else CHR 0x27)
      in [q] @ concat (map (\<lambda>c. if c = q \<or> c = CHR 0x5C then [CHR 0x5C, c] else [c]) s) @ [q])"

fun py_opt :: "string option \<Rightarrow> string" where
  "py_opt None = ''None''"
| "py_opt (Some s) = s"

section \<open>The thermal printer\<close>

datatype align = Left | Center | Right

text \<open>\<^verbatim>\<open>printer.set(align, bold, double_height, double_width)\<close>, with the two doubles together, or neither.\<close>

datatype printer_cmd = SetStyle align bool "bool option" | PrintText string | Cut

datatype import_result = Imported | NotInstalled | ImportRaises string

record escpos_lib =
  escpos_import :: import_result
  connect_network :: "string \<Rightarrow> int \<Rightarrow> string option"
  connect_usb :: "int \<Rightarrow> int \<Rightarrow> string option"
  printer_raises :: "printer_cmd list \<Rightarrow> printer_cmd \<Rightarrow> string option"

definition rule_line :: string where
  "rule_line = replicate 32 CHR ''-'' @ NL"

definition item_lines :: "string \<Rightarrow> BillItem \<Rightarrow> printer_cmd list" where
  "item_lines currency item =
     [PrintText (bi_name item @ NL),
      PrintText (''  '' @ format_int (bi_quantity item) @ '' x '' @ format_price (bi_unit_price item) currency
        @ '' = '' @ format_price (bi_unit_price item * bi_quantity item) currency @ NL)]"

definition receipt :: "BillData \<Rightarrow> printer_cmd list" where
  "receipt bill =
     [SetStyle Center True (Some True), PrintText (bd_restaurant_name bill @ NL),
      SetStyle Center False (Some False), PrintText (''Ban: '' @ bd_table_label bill @ NL),
      PrintText rule_line, SetStyle Left False None]
     @ concat (map (item_lines (bd_currency bill)) (bd_items bill))
     @ [PrintText rule_line, SetStyle Right True None,
        PrintText (''TONG: '' @ format_price (bd_total_amount bill) (bd_currency bill) @ NL),
        SetStyle Center False None, PrintText (stamp (bd_closed_at bill) @ NL), PrintText NL, Cut]"

text \<open>The commands are sent one by one, until one of them raises.\<close>

fun send :: "(printer_cmd list \<Rightarrow> printer_cmd \<Rightarrow> string option) \<Rightarrow> printer_cmd list \<Rightarrow> printer_cmd list
    \<Rightarrow> string option \<times> printer_cmd list" where
  "send raises sent [] = (None, sent)"
| "send raises sent (c # cs) =
     (case raises sent c of Some msg \<Rightarrow> (Some msg, sent) | None \<Rightarrow> send raises (sent @ [c]) cs)"

definition thermal_error :: "string \<Rightarrow> BillResult" where
  "thermal_error msg = failed (''Thermal printing error: '' @ msg)"

definition print_receipt :: "escpos_lib \<Rightarrow> BillData \<Rightarrow> string option
    \<Rightarrow> (string + BillResult) \<times> printer_cmd list" where
  "print_receipt lib bill connection_error =
     (case connection_error of
        Some msg \<Rightarrow> (Inr (thermal_error msg), [])
      | None \<Rightarrow>
          (case send (printer_raises lib) [] (receipt bill) of
             (Some msg, sent) \<Rightarrow> (Inr (thermal_error msg), sent)
           | (None, sent) \<Rightarrow> (Inr \<lparr>br_method = Thermal, br_pdf_path = None, br_error = None\<rparr>, sent)))"

definition print_thermal :: "escpos_lib \<Rightarrow> BillData \<Rightarrow> string \<Rightarrow> string option \<Rightarrow> int
    \<Rightarrow> (string + BillResult) \<times> printer_cmd list" where
  "print_thermal lib bill printer_type printer_ip printer_port =
     (if printer_type = ''none''
         then (Inr (failed (''No thermal printer configured (printer_type='' @ [CHR 0x27] @ ''none'' @ [CHR 0x27] @ '')'')), [])
         else case escpos_import lib of
           ImportRaises msg \<Rightarrow> (Inl msg, [])
         | NotInstalled \<Rightarrow> (Inr (failed (''python-escpos is not installed. Install with: pip install ''
             @ [CHR 0x27] @ ''qorder-api[printing]'' @ [CHR 0x27])), [])
         | Imported \<Rightarrow>
             if printer_type = ''network'' then
               (case printer_ip of
                  None \<Rightarrow> (Inr (failed ''printer_ip is required for network printer''), [])
                | Some ip \<Rightarrow>
                    if ip = [] then (Inr (failed ''printer_ip is required for network printer''), [])
                    else print_receipt lib bill (connect_network lib ip printer_port))
             else if printer_type = ''usb'' then print_receipt lib bill (connect_usb lib 0x0416 0x5011)
             else (Inr (failed (''Unknown printer_type: '' @ py_repr printer_type)), []))"

section \<open>The PDF\<close>

record pdf_lib =
  weasyprint_import :: import_result
  mkdir_raises :: "string \<Rightarrow> string option"
  write_pdf_raises :: "string \<Rightarrow> string \<Rightarrow> string option"

text \<open>\<^verbatim>\<open>str.format\<close> on a template: its texts, with the doubled braces undone, and its fields.\<close>

datatype piece = Txt string | Field string

definition fill :: "piece list \<Rightarrow> (string \<Rightarrow> string) \<Rightarrow> string" where
  "fill ps field = concat (map (\<lambda>p. case p of Txt s \<Rightarrow> s | Field f \<Rightarrow> field f) ps)"

definition BILL_HTML_TEMPLATE :: "piece list" where
  \<open>BILL_HTML_TEMPLATE =
   [Txt (''<!DOCTYPE html>'' @ NL
      @ ''<html lang="vi">'' @ NL
      @ ''<head>'' @ NL
      @ ''<meta charset="utf-8">'' @ NL
      @ ''<style>'' @ NL
      @ ''  body { font-family: 'Arial', sans-serif; width: 72mm; margin: 0 auto; padding: 8px; font-size: 12px; }'' @ NL
      @ ''  .center { text-align: center; }'' @ NL
      @ ''  .right { text-align: right; }'' @ NL
      @ ''  h1 { font-size: 16px; margin: 4px 0; }'' @ NL
      @ ''  .table-label { font-size: 14px; margin-bottom: 8px; }'' @ NL
      @ ''  hr { border: none; border-top: 1px dashed #000; margin: 6px 0; }'' @ NL
      @ ''  table { width: 100%; border-collapse: collapse; }'' @ NL
      @ ''  table td { padding: 2px 0; vertical-align: top; }'' @ NL
      @ ''  .item-name { font-weight: bold; }'' @ NL
      @ ''  .total { font-size: 14px; font-weight: bold; }'' @ NL
      @ ''  .timestamp { margin-top: 8px; font-size: 11px; color: #555; }'' @ NL
      @ ''</style>'' @ NL
      @ ''</head>'' @ NL
      @ ''<body>'' @ NL
      @ ''  <div class="center">'' @ NL
      @ ''    <h1>''),
    Field ''restaurant_name'',
    Txt (''</h1>'' @ NL
      @ ''    <div class="table-label">B'' @ [CHR 0xC3, CHR 0xA0] @ ''n: ''),
    Field ''table_label'',
    Txt (''</div>'' @ NL
      @ ''  </div>'' @ NL
      @ ''  <hr>'' @ NL
      @ ''  <table>'' @ NL
      @ ''    ''),
    Field ''items_rows'',
    Txt (NL
      @ ''  </table>'' @ NL
      @ ''  <hr>'' @ NL
      @ ''  <div class="right total">T'' @ [CHR 0xE1, CHR 0xBB, CHR 0x94] @ ''NG: ''),
    Field ''total'',
    Txt (''</div>'' @ NL
      @ ''  <div class="center timestamp">''),
    Field ''closed_at'',
    Txt (''</div>'' @ NL
      @ ''</body>'' @ NL
      @ ''</html>'' @ NL)]\<close>

definition item_row :: "string \<Rightarrow> BillItem \<Rightarrow> string" where
  \<open>item_row currency item =
     ''<tr><td class="item-name">'' @ bi_name item @ ''</td>''
     @ ''<td>'' @ format_int (bi_quantity item) @ '' x '' @ format_price (bi_unit_price item) currency @ ''</td>''
     @ ''<td class="right">'' @ format_price (bi_unit_price item * bi_quantity item) currency @ ''</td></tr>'' @ NL\<close>

definition page_field :: "BillData \<Rightarrow> string \<Rightarrow> string" where
  "page_field bill f =
     (if f = ''restaurant_name'' then bd_restaurant_name bill
      else if f = ''table_label'' then bd_table_label bill
      else if f = ''items_rows'' then concat (map (item_row (bd_currency bill)) (bd_items bill))
      else if f = ''total'' then format_price (bd_total_amount bill) (bd_currency bill)
      else stamp (bd_closed_at bill))"

definition render_html :: "BillData \<Rightarrow> string" where
  "render_html bill = fill BILL_HTML_TEMPLATE (page_field bill)"

text \<open>\<^verbatim>\<open>os.path.join\<close> with a second part that is not absolute.\<close>

definition path_join :: "string \<Rightarrow> string \<Rightarrow> string" where
  "path_join dir file = (if dir = [] \<or> last dir = CHR ''/'' then dir @ file else dir @ ''/'' @ file)"

definition bill_filename :: "BillData \<Rightarrow> string" where
  "bill_filename bill =
     ''bill_'' @ map (\<lambda>c. if c = CHR '' '' then CHR ''_'' else c) (bd_table_label bill) @ ''_''
     @ file_stamp (bd_closed_at bill) @ ''.pdf''"

definition print_pdf :: "pdf_lib \<Rightarrow> BillData \<Rightarrow> string \<Rightarrow> (string + BillResult) \<times> (string \<times> string) list" where
  "print_pdf lib bill output_dir =
     (case weasyprint_import lib of
        ImportRaises msg \<Rightarrow> (Inl msg, [])
      | NotInstalled \<Rightarrow> (Inr (failed (''weasyprint is not installed. Install with: pip install ''
          @ [CHR 0x27] @ ''qorder-api[printing]'' @ [CHR 0x27])), [])
      | Imported \<Rightarrow>
          (case mkdir_raises lib output_dir of
             Some msg \<Rightarrow> (Inr (failed (''PDF generation error: '' @ msg)), [])
           | None \<Rightarrow>
               (let pdf_path = path_join output_dir (bill_filename bill);
                    html_content = render_html bill
                in case write_pdf_raises lib pdf_path html_content of
                     Some msg \<Rightarrow> (Inr (failed (''PDF generation error: '' @ msg)), [])
                   | None \<Rightarrow> (Inr \<lparr>br_method = Pdf, br_pdf_path = Some pdf_path, br_error = None\<rparr>,
                       [(pdf_path, html_content)]))))"

section \<open>The service\<close>

record PrintingService =
  ps_printer_type :: string
  ps_printer_ip :: "string option"
  ps_printer_port :: int
  ps_pdf_output_dir :: string

text \<open>The result, the commands the printer took and the files written.\<close>

definition print_bill :: "escpos_lib \<Rightarrow> pdf_lib \<Rightarrow> PrintingService \<Rightarrow> BillData
    \<Rightarrow> (string + BillResult) \<times> printer_cmd list \<times> (string \<times> string) list" where
  "print_bill escpos weasyprint sv bill =
     (case print_thermal escpos bill (ps_printer_type sv) (ps_printer_ip sv) (ps_printer_port sv) of
        (Inl msg, sent) \<Rightarrow> (Inl msg, sent, [])
      | (Inr thermal_result, sent) \<Rightarrow>
          if br_method thermal_result = Thermal then (Inr thermal_result, sent, [])
          else (case print_pdf weasyprint bill (ps_pdf_output_dir sv) of
             (Inl msg, files) \<Rightarrow> (Inl msg, sent, files)
           | (Inr pdf_result, files) \<Rightarrow>
               if br_method pdf_result = Pdf then (Inr pdf_result, sent, files)
               else (Inr (failed (''Thermal: '' @ py_opt (br_error thermal_result) @ ''; PDF: ''
                       @ py_opt (br_error pdf_result))), sent, files)))"

section \<open>Facts\<close>

text \<open>What the printer took is the receipt, or the part of it before the command that raised.\<close>

lemma send_cases:
  "send raises sent cs = (None, sent @ cs)
   \<or> (\<exists>done c rest msg. cs = done @ c # rest \<and> send raises sent cs = (Some msg, sent @ done)
        \<and> raises (sent @ done) c = Some msg)"
proof (induction cs arbitrary: sent)
  case (Cons c cs)
  show ?case
  proof (cases "raises sent c")
    case None
    with Cons.IH [of "sent @ [c]"] show ?thesis
      by simp (metis append_Cons)
  next
    case (Some msg)
    then have "c # cs = [] @ c # cs \<and> send raises sent (c # cs) = (Some msg, sent @ [])
      \<and> raises (sent @ []) c = Some msg" by simp
    then show ?thesis by blast
  qed
qed simp

definition thermal_outcome :: "escpos_lib \<Rightarrow> BillData \<Rightarrow> string \<Rightarrow> (string + BillResult) \<times> printer_cmd list \<Rightarrow> bool" where
  "thermal_outcome lib bill printer_type out \<longleftrightarrow>
     (case out of
        (Inl msg, sent) \<Rightarrow> printer_type \<noteq> ''none'' \<and> escpos_import lib = ImportRaises msg \<and> sent = []
      | (Inr r, sent) \<Rightarrow> (printer_type = ''none'' \<or> escpos_import lib \<in> {Imported, NotInstalled})
          \<and> (if br_method r = Thermal then sent = receipt bill \<and> br_error r = None
             else strict_prefix sent (receipt bill) \<and> (\<exists>msg. r = failed msg)))"

lemma receipt_not_Nil: "strict_prefix [] (receipt bill)"
  by (simp add: receipt_def strict_prefix_def)

lemma print_thermal_outcome:
  "thermal_outcome lib bill printer_type (print_thermal lib bill printer_type printer_ip printer_port)"
proof -
  define T where "T = thermal_outcome lib bill printer_type"
  have bad: "T (Inr (failed msg), [])" if "printer_type = ''none'' \<or> escpos_import lib \<in> {Imported, NotInstalled}" for msg
    using that by (auto simp: T_def thermal_outcome_def receipt_not_Nil)
  have run: "T (print_receipt lib bill connection)" if "escpos_import lib = Imported" for connection
    using that send_cases [of "printer_raises lib" "[]" "receipt bill"] bad
    by (auto simp: T_def print_receipt_def thermal_outcome_def thermal_error_def strict_prefix_def split: option.split)
  have raised: "printer_type \<noteq> ''none'' \<Longrightarrow> escpos_import lib = ImportRaises msg \<Longrightarrow> T (Inl msg, [])" for msg
    by (simp add: T_def thermal_outcome_def)
  have "T (print_thermal lib bill printer_type printer_ip printer_port)"
    unfolding print_thermal_def
    by (cases "printer_type = ''none''"; cases "escpos_import lib")
      (simp_all add: bad run raised split: option.split)
  then show ?thesis by (simp add: T_def)
qed

lemma print_pdf_cases:
  obtains msg where "weasyprint_import lib = ImportRaises msg" and "print_pdf lib bill dir = (Inl msg, [])"
  | msg where "weasyprint_import lib \<in> {Imported, NotInstalled}" and "print_pdf lib bill dir = (Inr (failed msg), [])"
  | "weasyprint_import lib = Imported"
    and "print_pdf lib bill dir = (Inr \<lparr>br_method = Pdf, br_pdf_path = Some (path_join dir (bill_filename bill)),
      br_error = None\<rparr>, [(path_join dir (bill_filename bill), render_html bill)])"
  by (cases "weasyprint_import lib"; cases "mkdir_raises lib dir";
      cases "write_pdf_raises lib (path_join dir (bill_filename bill)) (render_html bill)")
    (simp_all add: print_pdf_def Let_def)

section \<open>Properties\<close>

text \<open>
  C29 (printing a bill). Exactly when the import of escpos is tried and raises something else than ImportError, or the
  printer did not take the whole receipt and the import of weasyprint does, \<^verbatim>\<open>print_bill\<close> raises that exception, although its
  documentation says that it never does, and no file is written. Otherwise there is a result: thermal, when the printer took
  the whole receipt and no file is written; pdf, when the printer stopped before the end of the receipt and one file
  holds the rendered bill at the path of the answer; or failed, with no file and a message made of the two errors, the
  one of the printer and the one of the PDF.
\<close>

theorem print_bill_outcome:
  "case print_bill escpos weasyprint sv bill of
     (Inl msg, sent, files) \<Rightarrow> files = []
       \<and> (ps_printer_type sv \<noteq> ''none'' \<and> escpos_import escpos = ImportRaises msg \<and> sent = []
          \<or> strict_prefix sent (receipt bill) \<and> weasyprint_import weasyprint = ImportRaises msg)
   | (Inr r, sent, files) \<Rightarrow>
       (ps_printer_type sv = ''none'' \<or> escpos_import escpos \<in> {Imported, NotInstalled})
       \<and> (case br_method r of
          Thermal \<Rightarrow> sent = receipt bill \<and> files = [] \<and> br_error r = None
        | Pdf \<Rightarrow> strict_prefix sent (receipt bill) \<and> weasyprint_import weasyprint = Imported
            \<and> files = [(path_join (ps_pdf_output_dir sv) (bill_filename bill), render_html bill)]
            \<and> br_pdf_path r = Some (path_join (ps_pdf_output_dir sv) (bill_filename bill))
        | Failed \<Rightarrow> strict_prefix sent (receipt bill) \<and> files = []
            \<and> weasyprint_import weasyprint \<in> {Imported, NotInstalled}
            \<and> (\<exists>a b. fst (print_thermal escpos bill (ps_printer_type sv) (ps_printer_ip sv) (ps_printer_port sv))
                  = Inr (failed a)
                \<and> fst (print_pdf weasyprint bill (ps_pdf_output_dir sv)) = Inr (failed b)
                \<and> r = failed (''Thermal: '' @ a @ ''; PDF: '' @ b)))"
proof -
  obtain res sent where t: "print_thermal escpos bill (ps_printer_type sv) (ps_printer_ip sv) (ps_printer_port sv)
    = (res, sent)" by fastforce
  note out = print_thermal_outcome [of escpos bill "ps_printer_type sv" "ps_printer_ip sv" "ps_printer_port sv",
      unfolded t thermal_outcome_def prod.case]
  show ?thesis
  proof (cases res)
    case (Inl msg)
    with t out show ?thesis by (simp add: print_bill_def)
  next
    case (Inr r)
    show ?thesis
    proof (cases "br_method r = Thermal")
      case True
      with Inr t out show ?thesis by (simp add: print_bill_def)
    next
      case False
      with Inr out obtain a where "r = failed a" by auto
      with False Inr t out show ?thesis
        by (cases rule: print_pdf_cases [of weasyprint bill "ps_pdf_output_dir sv"])
          (auto simp: print_bill_def)
    qed
  qed
qed

text \<open>Without a printer, a failing import of weasyprint reaches the caller.\<close>

lemma print_bill_raises:
  assumes "ps_printer_type sv = ''none''" and "weasyprint_import weasyprint = ImportRaises msg"
  shows "print_bill escpos weasyprint sv bill = (Inl msg, [], [])"
  using assms by (simp add: print_bill_def print_thermal_def print_pdf_def Let_def)

text \<open>
  Prices on the bill: From the text of a price in dong, grouped with dots and followed by the sign of the
  currency, the digits read back the price in whole dong; the fraction is cut off, not rounded.
\<close>

theorem vnd_price_roundtrip:
  assumes "0 \<le> a"
  shows "parse_digits 0 (filter (\<lambda>c. digit_value c \<noteq> None) (format_price a ''VND'')) = Some (nat (a div 100))"
proof -
  have "filter (\<lambda>c. digit_value c \<noteq> None) (map (\<lambda>c. if c = CHR '','' then CHR ''.'' else c) cs)
    = filter (\<lambda>c. digit_value c \<noteq> None) cs" for cs
    by (induction cs) auto
  moreover have "digit_value CHR 0xC4 = None" "digit_value CHR 0x91 = None" by (simp_all add: digit_value_def)
  moreover have "\<not> a div 100 < 0" using assms by (simp add: pos_imp_zdiv_neg_iff)
  ultimately show ?thesis
    using assms read_with_commas [of "nat (a div 100)"]
    by (simp add: format_price_def int_of_amount_def int_with_commas_def)
qed

lemma vnd_price_roundtrip_witness:
  "parse_digits 0 (filter (\<lambda>c. digit_value c \<noteq> None) (format_price 4500050 ''VND'')) = Some 45000"
  using vnd_price_roundtrip [of 4500050] by simp

text \<open>The file of a bill depends on the label of the table and the second of the closing only, with blanks as
underscores: a bill of another restaurant may overwrite it.\<close>

lemma bills_share_a_file:
  assumes "bd_table_label b' = bd_table_label b" and "bd_closed_at b' = bd_closed_at b"
  shows "bill_filename b' = bill_filename b"
    and "bill_filename (b\<lparr>bd_table_label := ''VIP 1''\<rparr>) = bill_filename (b\<lparr>bd_table_label := ''VIP_1''\<rparr>)"
  using assms by (simp_all add: bill_filename_def)

text \<open>A slash in the label leaves the directory that was made.\<close>

lemma slash_leaves_the_directory:
  "CHR ''/'' \<in> set (bd_table_label b) \<Longrightarrow> CHR ''/'' \<in> set (bill_filename b)"
  by (force simp: bill_filename_def)

text \<open>The names are put into the page as they are.\<close>

lemma fill_field: "Field f \<in> set ps \<Longrightarrow> sublist (field f) (fill ps field)"
  by (auto simp: fill_def dest!: split_list)

lemma html_holds_raw_names:
  assumes "item \<in> set (bd_items bill)"
  shows "sublist (bi_name item) (render_html bill)"
proof -
  obtain xs ys where items: "bd_items bill = xs @ item # ys" using assms by (meson split_list)
  have "sublist (bi_name item) (item_row c item)" for c
    unfolding item_row_def by (rule sublist_appendI)
  then have "sublist (bi_name item) (concat (map (item_row (bd_currency bill)) (bd_items bill)))"
    unfolding items map_append list.map concat_append concat.simps
    by (rule sublist_order.order_trans [OF _ sublist_appendI])
  moreover have "Field ''items_rows'' \<in> set BILL_HTML_TEMPLATE"
    unfolding BILL_HTML_TEMPLATE_def by (simp only: list.set insert_iff piece.inject refl simp_thms)
  note fill_field [OF this, of "page_field bill", folded render_html_def]
  ultimately show ?thesis
    by (simp add: page_field_def)
qed

end
