(* ===== verification/Migrations.thy ===== *)
theory Migrations imports Enums Main begin

text \<open>
  \<^verbatim>\<open>migrations/versions/\<close>: the three revisions as lists of schema operations, run on a catalogue of the
  database by \<open>run\<close>, with the refusals of PostgreSQL (a table that exists, a foreign key to no table, a type
  that is in use). Beside them the tables that \<^verbatim>\<open>qorder_api/models/\<close> declares. A default is the value it
  stands for: the models write it as a literal, the revisions as an expression of the same value.
\<close>

section \<open>Schemas\<close>

datatype coltype = TUuid | TString | TText | TBoolean | TInteger | TNumeric nat nat | TTimestamptz | TEnum string

datatype col_default = NoDefault | DNow | DRandomUuid | DValue string

datatype on_delete = CASCADE | SET_NULL | RESTRICT

record column =
  col_name :: string
  col_type :: coltype
  col_nullable :: bool
  col_default :: col_default
  col_primary :: bool
  col_fk :: "(string \<times> on_delete) option"

datatype table_constraint = Unique "string list" string | Check string string

record index_def =
  ix_name :: string
  ix_table :: string
  ix_columns :: "string list"
  ix_unique :: bool
  ix_where :: "string option"

record table_def =
  td_columns :: "column list"
  td_constraints :: "table_constraint list"

record catalog =
  extensions :: "string list"
  enum_types :: "(string \<times> string list) list"
  table_defs :: "(string \<times> table_def) list"
  indexes :: "index_def list"

definition empty_catalog :: catalog where
  "empty_catalog = \<lparr>extensions = [], enum_types = [], table_defs = [], indexes = []\<rparr>"

section \<open>Operations\<close>

datatype ddl =
    CreateExtensionIfNotExists string
  | CreateEnumCheckFirst string "string list"
  | DropEnumCheckFirst string
  | CreateTable string "column list" "table_constraint list"
  | DropTable string
  | CreateIndex index_def
  | DropIndex string string
  | AddColumn string column
  | DropColumn string string

fun uses_enum :: "string \<Rightarrow> column \<Rightarrow> bool" where
  "uses_enum n c = (col_type c = TEnum n)"

definition type_exists :: "catalog \<Rightarrow> column \<Rightarrow> bool" where
  "type_exists cat c = (case col_type c of TEnum n \<Rightarrow> n \<in> fst ` set (enum_types cat) | _ \<Rightarrow> True)"

definition target_exists :: "catalog \<Rightarrow> string \<Rightarrow> column \<Rightarrow> bool" where
  "target_exists cat self c = (case col_fk c of None \<Rightarrow> True | Some (t, _) \<Rightarrow> t = self \<or> t \<in> fst ` set (table_defs cat))"

definition references :: "string \<Rightarrow> column \<Rightarrow> bool" where
  "references t c = (case col_fk c of None \<Rightarrow> False | Some (t', _) \<Rightarrow> t' = t)"

definition table_names :: "catalog \<Rightarrow> string set" where
  "table_names cat = fst ` set (table_defs cat)"

definition columns_of :: "catalog \<Rightarrow> string \<Rightarrow> column list" where
  "columns_of cat t = concat (map (td_columns \<circ> snd) (filter (\<lambda>p. fst p = t) (table_defs cat)))"

definition map_table :: "string \<Rightarrow> (column list \<Rightarrow> column list) \<Rightarrow> catalog \<Rightarrow> catalog" where
  "map_table t f cat = cat\<lparr>table_defs := map (\<lambda>(n, td). (n, if n = t then td\<lparr>td_columns := f (td_columns td)\<rparr> else td))
     (table_defs cat)\<rparr>"

text \<open>A dropped table or column takes its indexes with it.\<close>

fun exec :: "ddl \<Rightarrow> catalog \<Rightarrow> string + catalog" where
  "exec (CreateExtensionIfNotExists x) cat =
     (if x \<in> set (extensions cat) then Inr cat else Inr (cat\<lparr>extensions := extensions cat @ [x]\<rparr>))"
| "exec (CreateEnumCheckFirst n vs) cat =
     (if n \<in> fst ` set (enum_types cat) then Inr cat else Inr (cat\<lparr>enum_types := enum_types cat @ [(n, vs)]\<rparr>))"
| "exec (DropEnumCheckFirst n) cat =
     (if n \<notin> fst ` set (enum_types cat) then Inr cat
      else if \<exists>p \<in> set (table_defs cat). \<exists>c \<in> set (td_columns (snd p)). uses_enum n c then Inl ''DependentObjectsStillExist''
      else Inr (cat\<lparr>enum_types := filter (\<lambda>e. fst e \<noteq> n) (enum_types cat)\<rparr>))"
| "exec (CreateTable t cols cs) cat =
     (if t \<in> table_names cat then Inl ''DuplicateTable''
      else if \<not> distinct (map col_name cols) then Inl ''DuplicateColumn''
      else if \<not> (\<forall>c \<in> set cols. type_exists cat c) then Inl ''UndefinedObject''
      else if \<not> (\<forall>c \<in> set cols. target_exists cat t c) then Inl ''UndefinedTable''
      else Inr (cat\<lparr>table_defs := table_defs cat @ [(t, \<lparr>td_columns = cols, td_constraints = cs\<rparr>)]\<rparr>))"
| "exec (DropTable t) cat =
     (if t \<notin> table_names cat then Inl ''UndefinedTable''
      else if \<exists>p \<in> set (table_defs cat). fst p \<noteq> t \<and> (\<exists>c \<in> set (td_columns (snd p)). references t c)
      then Inl ''DependentObjectsStillExist''
      else Inr (cat\<lparr>table_defs := filter (\<lambda>p. fst p \<noteq> t) (table_defs cat),
             indexes := filter (\<lambda>i. ix_table i \<noteq> t) (indexes cat)\<rparr>))"
| "exec (CreateIndex i) cat =
     (if ix_table i \<notin> table_names cat then Inl ''UndefinedTable''
      else if ix_name i \<in> ix_name ` set (indexes cat) then Inl ''DuplicateTable''
      else if \<not> set (ix_columns i) \<subseteq> col_name ` set (columns_of cat (ix_table i)) then Inl ''UndefinedColumn''
      else Inr (cat\<lparr>indexes := indexes cat @ [i]\<rparr>))"
| "exec (DropIndex n t) cat =
     (if n \<notin> ix_name ` set (indexes cat) then Inl ''UndefinedObject''
      else Inr (cat\<lparr>indexes := filter (\<lambda>i. ix_name i \<noteq> n) (indexes cat)\<rparr>))"
| "exec (AddColumn t c) cat =
     (if t \<notin> table_names cat then Inl ''UndefinedTable''
      else if col_name c \<in> col_name ` set (columns_of cat t) then Inl ''DuplicateColumn''
      else if \<not> type_exists cat c then Inl ''UndefinedObject''
      else if \<not> target_exists cat t c then Inl ''UndefinedTable''
      else Inr (map_table t (\<lambda>cs. cs @ [c]) cat))"
| "exec (DropColumn t n) cat =
     (if t \<notin> table_names cat then Inl ''UndefinedTable''
      else if n \<notin> col_name ` set (columns_of cat t) then Inl ''UndefinedColumn''
      else Inr ((map_table t (filter (\<lambda>c. col_name c \<noteq> n)) cat)
             \<lparr>indexes := filter (\<lambda>i. \<not> (ix_table i = t \<and> n \<in> set (ix_columns i))) (indexes cat)\<rparr>))"

text \<open>The operations of one direction of a revision are one transaction.\<close>

fun run :: "ddl list \<Rightarrow> catalog \<Rightarrow> string + catalog" where
  "run [] cat = Inr cat"
| "run (x # xs) cat = (case exec x cat of Inl err \<Rightarrow> Inl err | Inr cat' \<Rightarrow> run xs cat')"

section \<open>Columns\<close>

definition col :: "string \<Rightarrow> coltype \<Rightarrow> bool \<Rightarrow> col_default \<Rightarrow> column" where
  "col n t nullable dflt = \<lparr>col_name = n, col_type = t, col_nullable = nullable, col_default = dflt,
     col_primary = False, col_fk = None\<rparr>"

definition fk :: "string \<Rightarrow> string \<Rightarrow> bool \<Rightarrow> on_delete \<Rightarrow> column" where
  "fk n target nullable ondelete = \<lparr>col_name = n, col_type = TUuid, col_nullable = nullable, col_default = NoDefault,
     col_primary = False, col_fk = Some (target, ondelete)\<rparr>"

definition uuid_pk :: column where
  "uuid_pk = \<lparr>col_name = ''id'', col_type = TUuid, col_nullable = False, col_default = DRandomUuid,
     col_primary = True, col_fk = None\<rparr>"

definition tstz :: "string \<Rightarrow> bool \<Rightarrow> bool \<Rightarrow> column" where
  "tstz n nullable default_now = col n TTimestamptz nullable (if default_now then DNow else NoDefault)"

definition settings_pk :: column where
  "settings_pk = \<lparr>col_name = ''restaurant_id'', col_type = TUuid, col_nullable = False, col_default = NoDefault,
     col_primary = True, col_fk = Some (''restaurants'', CASCADE)\<rparr>"

definition plain_index :: "string \<Rightarrow> string \<Rightarrow> string list \<Rightarrow> index_def" where
  "plain_index n t cols = \<lparr>ix_name = n, ix_table = t, ix_columns = cols, ix_unique = False, ix_where = None\<rparr>"

definition quoted :: "string \<Rightarrow> string" where
  "quoted x = [CHR 0x27] @ x @ [CHR 0x27]"

definition open_session_index :: index_def where
  "open_session_index = \<lparr>ix_name = ''uq_one_open_session_per_table'', ix_table = ''table_sessions'',
     ix_columns = [''table_id''], ix_unique = True, ix_where = Some (''status = '' @ quoted ''open'')\<rparr>"

definition role_check :: string where
  "role_check = ''(role = '' @ quoted ''admin'' @ '' AND email IS NOT NULL AND password_hash IS NOT NULL)''
     @ '' OR (role = '' @ quoted ''staff'' @ '' AND pin_hash IS NOT NULL)''"

section \<open>The revisions\<close>

definition ALL_ENUMS :: "(string \<times> string list) list" where
  "ALL_ENUMS =
     [(''order_item_status'', [''pending'', ''cooking'', ''ready'', ''served'', ''cancelled'']),
      (''session_status'', [''open'', ''closed'', ''abandoned'']),
      (''user_role'', [''staff'', ''admin'']),
      (''cancelled_by'', [''customer'', ''staff'', ''system'']),
      (''staff_call_status'', [''pending'', ''acknowledged''])]"

definition create_types :: "ddl list" where
  "create_types = CreateExtensionIfNotExists ''pgcrypto'' # map (\<lambda>(n, vs). CreateEnumCheckFirst n vs) ALL_ENUMS"

definition create_tenant_tables :: "ddl list" where
  "create_tenant_tables =
     [CreateTable ''restaurants''
        [uuid_pk, col ''slug'' TString False NoDefault, col ''name'' TString False NoDefault,
         col ''phone'' TString True NoDefault, col ''address'' TText True NoDefault,
         col ''is_active'' TBoolean False (DValue ''true''), tstz ''created_at'' False True,
         tstz ''updated_at'' False True]
        [Unique [''slug''] ''uq_restaurants_slug''],
      CreateTable ''restaurant_settings''
        [settings_pk, col ''currency'' TString False (DValue ''VND''), col ''logo_url'' TString True NoDefault,
         col ''timezone'' TString False (DValue ''Asia/Ho_Chi_Minh''),
         col ''default_savory_minutes'' TInteger False (DValue ''10''),
         col ''default_light_minutes'' TInteger False (DValue ''5''),
         col ''session_timeout_hours'' TInteger False (DValue ''6''),
         col ''kitchen_screen_requires_pin'' TBoolean False (DValue ''true''),
         col ''staff_call_cooldown_seconds'' TInteger False (DValue ''60''),
         col ''report_sheet_id'' TString True NoDefault,
         col ''report_sync_cron'' TString False (DValue ''0 * * * *''),
         col ''bill_footer_note'' TText True NoDefault, tstz ''updated_at'' False True]
        [],
      CreateTable ''users''
        [uuid_pk, fk ''restaurant_id'' ''restaurants'' False CASCADE,
         col ''role'' (TEnum ''user_role'') False NoDefault, col ''email'' TString True NoDefault,
         col ''password_hash'' TString True NoDefault, col ''pin_hash'' TString True NoDefault,
         col ''display_name'' TString True NoDefault, col ''is_active'' TBoolean False (DValue ''true''),
         tstz ''created_at'' False True]
        [Unique [''restaurant_id'', ''email''] ''uq_users_restaurant_email'',
         Check role_check ''ck_users_role_credentials''],
      CreateTable ''tables''
        [uuid_pk, fk ''restaurant_id'' ''restaurants'' False CASCADE,
         col ''table_number'' TString False NoDefault, col ''qr_token'' TString False NoDefault,
         col ''is_active'' TBoolean False (DValue ''true''), tstz ''created_at'' False True]
        [Unique [''qr_token''] ''uq_tables_qr_token'',
         Unique [''restaurant_id'', ''table_number''] ''uq_tables_restaurant_number''],
      CreateTable ''menu_categories''
        [uuid_pk, fk ''restaurant_id'' ''restaurants'' False CASCADE, col ''name'' TString False NoDefault,
         col ''sort_order'' TInteger False (DValue ''0''), col ''is_active'' TBoolean False (DValue ''true''),
         tstz ''created_at'' False True]
        [],
      CreateTable ''menu_items''
        [uuid_pk, fk ''restaurant_id'' ''restaurants'' False CASCADE,
         fk ''category_id'' ''menu_categories'' True SET_NULL, col ''name'' TString False NoDefault,
         col ''description'' TText True NoDefault, col ''price'' (TNumeric 12 2) False NoDefault,
         col ''prep_time_minutes'' TInteger False NoDefault,
         col ''is_available'' TBoolean False (DValue ''true''),
         col ''is_active'' TBoolean False (DValue ''true''), col ''image_url'' TString True NoDefault,
         col ''sort_order'' TInteger False (DValue ''0''), tstz ''created_at'' False True,
         tstz ''updated_at'' False True]
        [Check ''prep_time_minutes >= 0'' ''ck_menu_items_prep_time_nonneg'']]"

definition create_session_tables :: "ddl list" where
  "create_session_tables =
     [CreateTable ''table_sessions''
        [uuid_pk, fk ''restaurant_id'' ''restaurants'' False CASCADE, fk ''table_id'' ''tables'' False CASCADE,
         col ''status'' (TEnum ''session_status'') False (DValue ''open''),
         fk ''opened_by'' ''users'' True SET_NULL, tstz ''opened_at'' False True,
         tstz ''last_activity_at'' False True, tstz ''closed_at'' True False, tstz ''abandoned_at'' True False,
         col ''total_amount'' (TNumeric 12 2) True NoDefault]
        [],
      CreateIndex open_session_index,
      CreateIndex (plain_index ''ix_table_sessions_table_status'' ''table_sessions'' [''table_id'', ''status'']),
      CreateIndex (plain_index ''ix_table_sessions_status_activity'' ''table_sessions'' [''status'', ''last_activity_at'']),
      CreateTable ''orders''
        [uuid_pk, fk ''restaurant_id'' ''restaurants'' False CASCADE,
         fk ''table_session_id'' ''table_sessions'' False CASCADE, col ''note'' TText True NoDefault,
         tstz ''created_at'' False True]
        [],
      CreateTable ''order_items''
        [uuid_pk, fk ''restaurant_id'' ''restaurants'' False CASCADE, fk ''order_id'' ''orders'' False CASCADE,
         fk ''menu_item_id'' ''menu_items'' False RESTRICT, col ''name_snapshot'' TString False NoDefault,
         col ''price_snapshot'' (TNumeric 12 2) False NoDefault,
         col ''prep_time_snapshot'' TInteger False NoDefault, col ''quantity'' TInteger False NoDefault,
         col ''note'' TText True NoDefault,
         col ''status'' (TEnum ''order_item_status'') False (DValue ''pending''),
         tstz ''requested_at'' False True, fk ''served_by'' ''users'' True SET_NULL,
         tstz ''served_at'' True False, col ''cancelled_by'' (TEnum ''cancelled_by'') True NoDefault,
         tstz ''cancelled_at'' True False, col ''cancel_reason'' TString True NoDefault]
        [Check ''prep_time_snapshot >= 0'' ''ck_order_items_prep_time_nonneg'',
         Check ''quantity > 0'' ''ck_order_items_quantity_positive''],
      CreateIndex (plain_index ''ix_order_items_order'' ''order_items'' [''order_id'']),
      CreateIndex (plain_index ''ix_order_items_restaurant_status'' ''order_items'' [''restaurant_id'', ''status'']),
      CreateTable ''staff_calls''
        [uuid_pk, fk ''restaurant_id'' ''restaurants'' False CASCADE, fk ''table_id'' ''tables'' False CASCADE,
         fk ''table_session_id'' ''table_sessions'' False CASCADE,
         col ''status'' (TEnum ''staff_call_status'') False (DValue ''pending''),
         tstz ''created_at'' False True, tstz ''acknowledged_at'' True False,
         fk ''acknowledged_by'' ''users'' True SET_NULL]
        []]"

definition upgrade_0001 :: "ddl list" where
  "upgrade_0001 = create_types @ create_tenant_tables @ create_session_tables"

definition downgrade_0001 :: "ddl list" where
  "downgrade_0001 =
     [DropTable ''staff_calls'', DropIndex ''ix_order_items_restaurant_status'' ''order_items'',
      DropIndex ''ix_order_items_order'' ''order_items'', DropTable ''order_items'', DropTable ''orders'',
      DropIndex ''ix_table_sessions_status_activity'' ''table_sessions'',
      DropIndex ''ix_table_sessions_table_status'' ''table_sessions'',
      DropIndex ''uq_one_open_session_per_table'' ''table_sessions'', DropTable ''table_sessions'',
      DropTable ''menu_items'', DropTable ''menu_categories'', DropTable ''tables'', DropTable ''users'',
      DropTable ''restaurant_settings'', DropTable ''restaurants'']
     @ map (\<lambda>(n, _). DropEnumCheckFirst n) (rev ALL_ENUMS)"

definition upgrade_0002 :: "ddl list" where
  "upgrade_0002 = [AddColumn ''tables'' (col ''qr_image_url'' TString True NoDefault)]"

definition downgrade_0002 :: "ddl list" where
  "downgrade_0002 = [DropColumn ''tables'' ''qr_image_url'']"

definition featured_index :: index_def where
  "featured_index = plain_index ''ix_menu_items_restaurant_featured'' ''menu_items'' [''restaurant_id'', ''is_featured'']"

definition upgrade_0003 :: "ddl list" where
  "upgrade_0003 =
     [AddColumn ''menu_items'' (col ''image_large_url'' TString True NoDefault),
      AddColumn ''menu_items'' (col ''is_featured'' TBoolean False (DValue ''false'')),
      CreateIndex featured_index]"

definition downgrade_0003 :: "ddl list" where
  "downgrade_0003 =
     [DropIndex ''ix_menu_items_restaurant_featured'' ''menu_items'',
      DropColumn ''menu_items'' ''is_featured'', DropColumn ''menu_items'' ''image_large_url'']"

record revision =
  rev_id :: string
  rev_down :: "string option"
  rev_upgrade :: "ddl list"
  rev_downgrade :: "ddl list"

definition revisions :: "revision list" where
  "revisions =
     [\<lparr>rev_id = ''0001_initial'', rev_down = None, rev_upgrade = upgrade_0001, rev_downgrade = downgrade_0001\<rparr>,
      \<lparr>rev_id = ''0002_add_qr_image_url'', rev_down = Some ''0001_initial'',
        rev_upgrade = upgrade_0002, rev_downgrade = downgrade_0002\<rparr>,
      \<lparr>rev_id = ''0003_menu_image_featured'', rev_down = Some ''0002_add_qr_image_url'',
        rev_upgrade = upgrade_0003, rev_downgrade = downgrade_0003\<rparr>]"

text \<open>\<^verbatim>\<open>alembic upgrade head\<close> runs the revisions from the one without a predecessor on.\<close>

fun path_from :: "nat \<Rightarrow> string option \<Rightarrow> revision list" where
  "path_from 0 cur = []"
| "path_from (Suc n) cur =
     (case filter (\<lambda>r. rev_down r = cur) revisions of
        [] \<Rightarrow> []
      | r # _ \<Rightarrow> r # path_from n (Some (rev_id r)))"

definition upgrade_head :: "ddl list" where
  "upgrade_head = concat (map rev_upgrade (path_from (length revisions) None))"

definition downgrade_base :: "ddl list" where
  "downgrade_base = concat (map rev_downgrade (rev (path_from (length revisions) None)))"

section \<open>The tables of the models\<close>

text \<open>
  What \<^verbatim>\<open>qorder_api/models/\<close> declares, transcribed from there: the factories of \<^verbatim>\<open>_columns.py\<close>, the constraints and the
  indexes have definitions of their own and share none with the revisions.
\<close>

definition mapped_column :: "string \<Rightarrow> coltype \<Rightarrow> bool \<Rightarrow> col_default \<Rightarrow> column" where
  "mapped_column n t nullable server_default = \<lparr>col_name = n, col_type = t, col_nullable = nullable,
     col_default = server_default, col_primary = False, col_fk = None\<rparr>"

definition model_uuid_pk :: "string \<Rightarrow> column" where
  "model_uuid_pk n = \<lparr>col_name = n, col_type = TUuid, col_nullable = False, col_default = DRandomUuid,
     col_primary = True, col_fk = None\<rparr>"

definition uuid_fk :: "string \<Rightarrow> string \<Rightarrow> bool \<Rightarrow> on_delete \<Rightarrow> column" where
  "uuid_fk n target nullable ondelete = \<lparr>col_name = n, col_type = TUuid, col_nullable = nullable,
     col_default = NoDefault, col_primary = False, col_fk = Some (target, ondelete)\<rparr>"

definition created_at_column :: "string \<Rightarrow> column" where
  "created_at_column n = mapped_column n TTimestamptz False DNow"

definition updated_at_column :: "string \<Rightarrow> column" where
  "updated_at_column n = mapped_column n TTimestamptz False DNow"

definition ts_column :: "string \<Rightarrow> bool \<Rightarrow> bool \<Rightarrow> column" where
  "ts_column n nullable default_now = mapped_column n TTimestamptz nullable (if default_now then DNow else NoDefault)"

primrec session_status_value :: "SessionStatus \<Rightarrow> string" where
  "session_status_value OPEN = ''open''"
| "session_status_value CLOSED = ''closed''"
| "session_status_value ABANDONED = ''abandoned''"

primrec cancelled_by_value :: "CancelledBy \<Rightarrow> string" where
  "cancelled_by_value BY_CUSTOMER = ''customer''"
| "cancelled_by_value BY_STAFF = ''staff''"
| "cancelled_by_value BY_SYSTEM = ''system''"

definition restaurants_model :: "string \<times> table_def" where
  "restaurants_model = (''restaurants'', \<lparr>td_columns =
       [model_uuid_pk ''id'', mapped_column ''slug'' TString False NoDefault, mapped_column ''name'' TString False NoDefault,
        mapped_column ''phone'' TString True NoDefault, mapped_column ''address'' TText True NoDefault,
        mapped_column ''is_active'' TBoolean False (DValue ''true''), created_at_column ''created_at'',
        updated_at_column ''updated_at''],
     td_constraints = [Unique [''slug''] ''uq_restaurants_slug'']\<rparr>)"

definition restaurant_settings_model :: "string \<times> table_def" where
  "restaurant_settings_model = (''restaurant_settings'', \<lparr>td_columns =
       [\<lparr>col_name = ''restaurant_id'', col_type = TUuid, col_nullable = False, col_default = NoDefault,
         col_primary = True, col_fk = Some (''restaurants'', CASCADE)\<rparr>, mapped_column ''currency'' TString False (DValue ''VND''), mapped_column ''logo_url'' TString True NoDefault,
        mapped_column ''timezone'' TString False (DValue ''Asia/Ho_Chi_Minh''),
        mapped_column ''default_savory_minutes'' TInteger False (DValue ''10''),
        mapped_column ''default_light_minutes'' TInteger False (DValue ''5''),
        mapped_column ''session_timeout_hours'' TInteger False (DValue ''6''),
        mapped_column ''kitchen_screen_requires_pin'' TBoolean False (DValue ''true''),
        mapped_column ''staff_call_cooldown_seconds'' TInteger False (DValue ''60''),
        mapped_column ''report_sheet_id'' TString True NoDefault,
        mapped_column ''report_sync_cron'' TString False (DValue ''0 * * * *''),
        mapped_column ''bill_footer_note'' TText True NoDefault, updated_at_column ''updated_at''],
     td_constraints = []\<rparr>)"

definition model_role_check :: string where
  "model_role_check = ''(role = '' @ [CHR 0x27] @ ''admin'' @ [CHR 0x27] @ '' AND email IS NOT NULL AND password_hash IS NOT NULL)''
     @ '' OR (role = '' @ [CHR 0x27] @ ''staff'' @ [CHR 0x27] @ '' AND pin_hash IS NOT NULL)''"

definition users_model :: "string \<times> table_def" where
  "users_model = (''users'', \<lparr>td_columns =
       [model_uuid_pk ''id'', uuid_fk ''restaurant_id'' ''restaurants'' False CASCADE,
        mapped_column ''role'' (TEnum ''user_role'') False NoDefault, mapped_column ''email'' TString True NoDefault,
        mapped_column ''password_hash'' TString True NoDefault, mapped_column ''pin_hash'' TString True NoDefault,
        mapped_column ''display_name'' TString True NoDefault, mapped_column ''is_active'' TBoolean False (DValue ''true''),
        created_at_column ''created_at''],
     td_constraints = [Unique [''restaurant_id'', ''email''] ''uq_users_restaurant_email'',
        Check model_role_check ''ck_users_role_credentials'']\<rparr>)"

definition tables_model :: "string \<times> table_def" where
  "tables_model = (''tables'', \<lparr>td_columns =
       [model_uuid_pk ''id'', uuid_fk ''restaurant_id'' ''restaurants'' False CASCADE,
        mapped_column ''table_number'' TString False NoDefault, mapped_column ''qr_token'' TString False NoDefault,
        mapped_column ''qr_image_url'' TString True NoDefault, mapped_column ''is_active'' TBoolean False (DValue ''true''),
        created_at_column ''created_at''],
     td_constraints = [Unique [''qr_token''] ''uq_tables_qr_token'',
        Unique [''restaurant_id'', ''table_number''] ''uq_tables_restaurant_number'']\<rparr>)"

definition menu_categories_model :: "string \<times> table_def" where
  "menu_categories_model = (''menu_categories'', \<lparr>td_columns =
       [model_uuid_pk ''id'', uuid_fk ''restaurant_id'' ''restaurants'' False CASCADE, mapped_column ''name'' TString False NoDefault,
        mapped_column ''sort_order'' TInteger False (DValue ''0''), mapped_column ''is_active'' TBoolean False (DValue ''true''),
        created_at_column ''created_at''],
     td_constraints = []\<rparr>)"

definition menu_items_model :: "string \<times> table_def" where
  "menu_items_model = (''menu_items'', \<lparr>td_columns =
       [model_uuid_pk ''id'', uuid_fk ''restaurant_id'' ''restaurants'' False CASCADE,
        uuid_fk ''category_id'' ''menu_categories'' True SET_NULL, mapped_column ''name'' TString False NoDefault,
        mapped_column ''description'' TText True NoDefault, mapped_column ''price'' (TNumeric 12 2) False NoDefault,
        mapped_column ''prep_time_minutes'' TInteger False NoDefault,
        mapped_column ''is_available'' TBoolean False (DValue ''true''),
        mapped_column ''is_active'' TBoolean False (DValue ''true''), mapped_column ''image_url'' TString True NoDefault,
        mapped_column ''image_large_url'' TString True NoDefault, mapped_column ''is_featured'' TBoolean False (DValue ''false''),
        mapped_column ''sort_order'' TInteger False (DValue ''0''), created_at_column ''created_at'',
        updated_at_column ''updated_at''],
     td_constraints = [Check ''prep_time_minutes >= 0'' ''ck_menu_items_prep_time_nonneg'']\<rparr>)"

definition table_sessions_model :: "string \<times> table_def" where
  "table_sessions_model = (''table_sessions'', \<lparr>td_columns =
       [model_uuid_pk ''id'', uuid_fk ''restaurant_id'' ''restaurants'' False CASCADE, uuid_fk ''table_id'' ''tables'' False CASCADE,
        mapped_column ''status'' (TEnum ''session_status'') False (DValue (session_status_value OPEN)),
        uuid_fk ''opened_by'' ''users'' True SET_NULL, ts_column ''opened_at'' False True,
        ts_column ''last_activity_at'' False True, ts_column ''closed_at'' True False, ts_column ''abandoned_at'' True False,
        mapped_column ''total_amount'' (TNumeric 12 2) True NoDefault],
     td_constraints = []\<rparr>)"

definition orders_model :: "string \<times> table_def" where
  "orders_model = (''orders'', \<lparr>td_columns =
       [model_uuid_pk ''id'', uuid_fk ''restaurant_id'' ''restaurants'' False CASCADE,
        uuid_fk ''table_session_id'' ''table_sessions'' False CASCADE, mapped_column ''note'' TText True NoDefault,
        created_at_column ''created_at''],
     td_constraints = []\<rparr>)"

definition order_items_model :: "string \<times> table_def" where
  "order_items_model = (''order_items'', \<lparr>td_columns =
       [model_uuid_pk ''id'', uuid_fk ''restaurant_id'' ''restaurants'' False CASCADE, uuid_fk ''order_id'' ''orders'' False CASCADE,
        uuid_fk ''menu_item_id'' ''menu_items'' False RESTRICT, mapped_column ''name_snapshot'' TString False NoDefault,
        mapped_column ''price_snapshot'' (TNumeric 12 2) False NoDefault,
        mapped_column ''prep_time_snapshot'' TInteger False NoDefault, mapped_column ''quantity'' TInteger False NoDefault,
        mapped_column ''note'' TText True NoDefault,
        mapped_column ''status'' (TEnum ''order_item_status'') False (DValue (item_status_value PENDING)),
        ts_column ''requested_at'' False True, uuid_fk ''served_by'' ''users'' True SET_NULL,
        ts_column ''served_at'' True False, mapped_column ''cancelled_by'' (TEnum ''cancelled_by'') True NoDefault,
        ts_column ''cancelled_at'' True False, mapped_column ''cancel_reason'' TString True NoDefault],
     td_constraints = [Check ''prep_time_snapshot >= 0'' ''ck_order_items_prep_time_nonneg'',
        Check ''quantity > 0'' ''ck_order_items_quantity_positive'']\<rparr>)"

definition staff_calls_model :: "string \<times> table_def" where
  "staff_calls_model = (''staff_calls'', \<lparr>td_columns =
       [model_uuid_pk ''id'', uuid_fk ''restaurant_id'' ''restaurants'' False CASCADE, uuid_fk ''table_id'' ''tables'' False CASCADE,
        uuid_fk ''table_session_id'' ''table_sessions'' False CASCADE,
        mapped_column ''status'' (TEnum ''staff_call_status'') False (DValue (call_status_value CALL_PENDING)), created_at_column ''created_at'',
        ts_column ''acknowledged_at'' True False, uuid_fk ''acknowledged_by'' ''users'' True SET_NULL],
     td_constraints = []\<rparr>)"

definition model_enums :: "(string \<times> string list) list" where
  "model_enums =
     [(''order_item_status'', map item_status_value [PENDING, COOKING, READY, SERVED, CANCELLED]),
      (''session_status'', map session_status_value [OPEN, CLOSED, ABANDONED]),
      (''user_role'', map role_value [STAFF, ADMIN]),
      (''cancelled_by'', map cancelled_by_value [BY_CUSTOMER, BY_STAFF, BY_SYSTEM]),
      (''staff_call_status'', map call_status_value [CALL_PENDING, CALL_ACKNOWLEDGED])]"

definition model_tables :: "(string \<times> table_def) list" where
  "model_tables =
     [restaurants_model, restaurant_settings_model, users_model, tables_model, menu_categories_model,
      menu_items_model, table_sessions_model, orders_model, order_items_model, staff_calls_model]"

definition model_index :: "string \<Rightarrow> string \<Rightarrow> string list \<Rightarrow> index_def" where
  "model_index n t cols = \<lparr>ix_name = n, ix_table = t, ix_columns = cols, ix_unique = False, ix_where = None\<rparr>"

definition model_indexes :: "index_def list" where
  "model_indexes =
     [\<lparr>ix_name = ''uq_one_open_session_per_table'', ix_table = ''table_sessions'', ix_columns = [''table_id''],
        ix_unique = True, ix_where = Some (''status = '' @ [CHR 0x27] @ ''open'' @ [CHR 0x27])\<rparr>,
      model_index ''ix_table_sessions_table_status'' ''table_sessions'' [''table_id'', ''status''],
      model_index ''ix_table_sessions_status_activity'' ''table_sessions'' [''status'', ''last_activity_at''],
      model_index ''ix_order_items_order'' ''order_items'' [''order_id''],
      model_index ''ix_order_items_restaurant_status'' ''order_items'' [''restaurant_id'', ''status'']]"

section \<open>The integrity of a catalogue\<close>

text \<open>Names are unique, indexes are on columns that exist, types and targets of columns exist.\<close>

definition catalog_ok :: "catalog \<Rightarrow> bool" where
  "catalog_ok cat \<longleftrightarrow> distinct (map fst (table_defs cat)) \<and> distinct (map ix_name (indexes cat))
     \<and> distinct (map fst (enum_types cat))
     \<and> (\<forall>p \<in> set (table_defs cat). distinct (map col_name (td_columns (snd p))))
     \<and> (\<forall>i \<in> set (indexes cat). ix_table i \<in> table_names cat
          \<and> set (ix_columns i) \<subseteq> col_name ` set (columns_of cat (ix_table i)))
     \<and> (\<forall>p \<in> set (table_defs cat). \<forall>c \<in> set (td_columns (snd p)).
          type_exists cat c \<and> target_exists cat (fst p) c)"

lemma run_append:
  "run (xs @ ys) cat = (case run xs cat of Inl err \<Rightarrow> Inl err | Inr cat' \<Rightarrow> run ys cat')"
  by (induction xs arbitrary: cat) (simp_all split: sum.split)

lemma map_table_names [simp]:
  "map fst (table_defs (map_table t f cat)) = map fst (table_defs cat)"
  "table_names (map_table t f cat) = table_names cat"
  by (auto simp: map_table_def table_names_def comp_def case_prod_beta image_image)

lemma map_table_rest [simp]:
  "indexes (map_table t f cat) = indexes cat" "enum_types (map_table t f cat) = enum_types cat"
  by (simp_all add: map_table_def)

lemma no_entry: "k \<notin> fst ` set xs \<Longrightarrow> filter (\<lambda>p. fst p = k) xs = []"
  by (induction xs) auto

lemma columns_of_map_table:
  assumes "distinct (map fst (table_defs cat))"
  shows "columns_of (map_table t f cat) t' = (if t' = t \<and> t \<in> table_names cat then f (columns_of cat t') else columns_of cat t')"
proof -
  have "concat (map (td_columns \<circ> snd) (filter (\<lambda>p. fst p = t')
        (map (\<lambda>(n, td). (n, if n = t then td\<lparr>td_columns := f (td_columns td)\<rparr> else td)) tds)))
      = (let cs = concat (map (td_columns \<circ> snd) (filter (\<lambda>p. fst p = t') tds))
         in if t' = t \<and> t \<in> fst ` set tds then f cs else cs)"
    if "distinct (map fst tds)" for tds :: "(string \<times> table_def) list"
    using that
  proof (induction tds)
    case (Cons p tds)
    have "filter (\<lambda>q. fst q = fst p) tds = []" using Cons.prems by (simp add: no_entry)
    moreover have "filter (\<lambda>q. fst q = fst p) (map (\<lambda>(n, td). (n, if n = t then td\<lparr>td_columns := f (td_columns td)\<rparr> else td)) tds) = []"
      using Cons.prems by (intro no_entry) (auto simp: image_image case_prod_beta)
    moreover have "fst p \<noteq> t' \<Longrightarrow> t' = t \<Longrightarrow> (t \<in> fst ` set (p # tds)) = (t \<in> fst ` set tds)" by auto
    ultimately show ?case using Cons by (cases p; cases "fst p = t'"; cases "t' = t") (simp_all add: Let_def)
  qed simp
  from this [OF assms] show ?thesis by (simp add: columns_of_def map_table_def table_names_def Let_def)
qed

lemma exists_iff:
  "type_exists cat c \<longleftrightarrow> (\<forall>n. col_type c = TEnum n \<longrightarrow> n \<in> fst ` set (enum_types cat))"
  "target_exists cat s c \<longleftrightarrow> (\<forall>t a. col_fk c = Some (t, a) \<longrightarrow> t = s \<or> t \<in> table_names cat)"
  by (auto simp: type_exists_def target_exists_def table_names_def split: coltype.splits option.splits)

lemma type_exists_cong: "enum_types cat' = enum_types cat \<Longrightarrow> type_exists cat' c = type_exists cat c"
  by (simp add: exists_iff)

lemma target_exists_cong: "table_names cat' = table_names cat \<Longrightarrow> target_exists cat' s c = target_exists cat s c"
  by (simp add: exists_iff)

lemma map_table_columns:
  "p \<in> set (table_defs (map_table t f cat)) \<Longrightarrow> c \<in> set (td_columns (snd p)) \<Longrightarrow>
     \<exists>q \<in> set (table_defs cat). fst q = fst p \<and> (c \<in> set (td_columns (snd q)) \<or> fst p = t \<and> c \<in> set (f (td_columns (snd q))))"
  unfolding map_table_def by (clarsimp split: if_splits) (metis fst_conv snd_conv)+

lemma columns_of_append:
  "t \<notin> table_names cat \<Longrightarrow> columns_of (cat\<lparr>table_defs := table_defs cat @ [(t, td)]\<rparr>) t'
     = (if t' = t then td_columns td else columns_of cat t')"
  by (simp add: columns_of_def table_names_def no_entry)

lemma columns_of_filter:
  "columns_of (cat\<lparr>table_defs := filter (\<lambda>p. fst p \<noteq> t) (table_defs cat)\<rparr>) t'
     = (if t' = t then [] else columns_of cat t')"
proof -
  have "filter (\<lambda>p. fst p = t') (filter (\<lambda>p. fst p \<noteq> t) tds) = (if t' = t then [] else filter (\<lambda>p. fst p = t') tds)"
    for tds :: "(string \<times> table_def) list"
    by (induction tds) auto
  then show ?thesis by (simp add: columns_of_def)
qed

section \<open>Every operation keeps the catalogue sound\<close>

lemma catalog_okI:
  assumes "distinct (map fst (table_defs cat))" and "distinct (map ix_name (indexes cat))"
    and "distinct (map fst (enum_types cat))"
    and "\<And>p. p \<in> set (table_defs cat) \<Longrightarrow> distinct (map col_name (td_columns (snd p)))"
    and "\<And>i. i \<in> set (indexes cat) \<Longrightarrow> ix_table i \<in> table_names cat
          \<and> set (ix_columns i) \<subseteq> col_name ` set (columns_of cat (ix_table i))"
    and "\<And>p c. p \<in> set (table_defs cat) \<Longrightarrow> c \<in> set (td_columns (snd p)) \<Longrightarrow>
          type_exists cat c \<and> target_exists cat (fst p) c"
  shows "catalog_ok cat"
  using assms unfolding catalog_ok_def by blast

lemma catalog_okD:
  assumes "catalog_ok cat"
  shows "distinct (map fst (table_defs cat))" and "distinct (map ix_name (indexes cat))"
    and "distinct (map fst (enum_types cat))"
    and "p \<in> set (table_defs cat) \<Longrightarrow> distinct (map col_name (td_columns (snd p)))"
    and "i \<in> set (indexes cat) \<Longrightarrow> ix_table i \<in> table_names cat"
    and "i \<in> set (indexes cat) \<Longrightarrow> set (ix_columns i) \<subseteq> col_name ` set (columns_of cat (ix_table i))"
    and "p \<in> set (table_defs cat) \<Longrightarrow> c \<in> set (td_columns (snd p)) \<Longrightarrow> type_exists cat c"
    and "p \<in> set (table_defs cat) \<Longrightarrow> c \<in> set (td_columns (snd p)) \<Longrightarrow> target_exists cat (fst p) c"
  using assms unfolding catalog_ok_def by blast+

lemma update_rest [simp]:
  "columns_of (cat\<lparr>indexes := ixs\<rparr>) = columns_of cat" "table_names (cat\<lparr>indexes := ixs\<rparr>) = table_names cat"
  "columns_of (cat\<lparr>enum_types := es\<rparr>) = columns_of cat" "table_names (cat\<lparr>enum_types := es\<rparr>) = table_names cat"
  "columns_of (cat\<lparr>extensions := xs\<rparr>) = columns_of cat" "table_names (cat\<lparr>extensions := xs\<rparr>) = table_names cat"
  "type_exists (cat\<lparr>indexes := ixs\<rparr>) = type_exists cat" "type_exists (cat\<lparr>extensions := xs\<rparr>) = type_exists cat"
  "target_exists (cat\<lparr>indexes := ixs\<rparr>) = target_exists cat" "target_exists (cat\<lparr>enum_types := es\<rparr>) = target_exists cat"
  "target_exists (cat\<lparr>extensions := xs\<rparr>) = target_exists cat"
  by (auto simp: columns_of_def table_names_def fun_eq_iff exists_iff)

lemma columns_of_entry:
  assumes "distinct (map fst (table_defs cat))" and "p \<in> set (table_defs cat)"
  shows "columns_of cat (fst p) = td_columns (snd p)"
proof -
  have "filter (\<lambda>q. fst q = fst p) tds = [p]" if "distinct (map fst tds)" "p \<in> set tds" for tds
    using that by (induction tds) (auto simp: no_entry rev_image_eqI)
  from this [OF assms] show ?thesis by (simp add: columns_of_def)
qed

lemma create_extension_keeps: "catalog_ok cat \<Longrightarrow> catalog_ok (cat\<lparr>extensions := xs\<rparr>)"
  by (simp add: catalog_ok_def)

lemma create_type_keeps:
  assumes ok: "catalog_ok cat" and n: "n \<notin> fst ` set (enum_types cat)"
  shows "catalog_ok (cat\<lparr>enum_types := enum_types cat @ [(n, vs)]\<rparr>)"
  using ok n by (simp add: catalog_ok_def exists_iff(1))

lemma drop_type_keeps:
  assumes ok: "catalog_ok cat"
    and unused: "\<not> (\<exists>p \<in> set (table_defs cat). \<exists>c \<in> set (td_columns (snd p)). uses_enum n c)"
  shows "catalog_ok (cat\<lparr>enum_types := filter (\<lambda>e. fst e \<noteq> n) (enum_types cat)\<rparr>)"
proof (rule catalog_okI)
  fix p c assume p: "p \<in> set (table_defs (cat\<lparr>enum_types := filter (\<lambda>e. fst e \<noteq> n) (enum_types cat)\<rparr>))"
    and c: "c \<in> set (td_columns (snd p))"
  have "col_type c \<noteq> TEnum n" using unused p c by auto
  moreover have "type_exists cat c" "target_exists cat (fst p) c" using catalog_okD(7,8) [OF ok, of p c] p c by auto
  ultimately show "type_exists (cat\<lparr>enum_types := filter (\<lambda>e. fst e \<noteq> n) (enum_types cat)\<rparr>) c
      \<and> target_exists (cat\<lparr>enum_types := filter (\<lambda>e. fst e \<noteq> n) (enum_types cat)\<rparr>) (fst p) c"
    by (auto simp: exists_iff(1))
qed (use catalog_okD [OF ok] in \<open>simp_all add: distinct_map_filter\<close>)

lemma create_table_keeps:
  assumes ok: "catalog_ok cat" and t: "t \<notin> table_names cat" and d: "distinct (map col_name cols)"
    and cols: "\<forall>c \<in> set cols. type_exists cat c" "\<forall>c \<in> set cols. target_exists cat t c"
  shows "catalog_ok (cat\<lparr>table_defs := table_defs cat @ [(t, \<lparr>td_columns = cols, td_constraints = cs\<rparr>)]\<rparr>)" (is "catalog_ok ?new")
proof (rule catalog_okI)
  fix i assume "i \<in> set (indexes ?new)"
  then have i: "ix_table i \<in> table_names cat"
    and "set (ix_columns i) \<subseteq> col_name ` set (columns_of cat (ix_table i))"
    using catalog_okD(5,6) [OF ok] by auto
  moreover have "ix_table i \<noteq> t" using i t by auto
  ultimately show "ix_table i \<in> table_names ?new \<and> set (ix_columns i) \<subseteq> col_name ` set (columns_of ?new (ix_table i))"
    using t by (simp add: columns_of_append) (simp add: table_names_def)
next
  fix p c assume "p \<in> set (table_defs ?new)" and "c \<in> set (td_columns (snd p))"
  then have "type_exists cat c \<and> target_exists cat (fst p) c" using catalog_okD(7,8) [OF ok, of p c] cols by auto
  then show "type_exists ?new c \<and> target_exists ?new (fst p) c" by (auto simp: exists_iff table_names_def)
qed (use catalog_okD [OF ok] t d in \<open>auto simp: table_names_def\<close>)

lemma drop_table_keeps:
  assumes ok: "catalog_ok cat"
    and unreferenced: "\<not> (\<exists>p \<in> set (table_defs cat). fst p \<noteq> t \<and> (\<exists>c \<in> set (td_columns (snd p)). references t c))"
  shows "catalog_ok (cat\<lparr>table_defs := filter (\<lambda>p. fst p \<noteq> t) (table_defs cat),
             indexes := filter (\<lambda>i. ix_table i \<noteq> t) (indexes cat)\<rparr>)" (is "catalog_ok ?new")
proof (rule catalog_okI)
  fix i assume "i \<in> set (indexes ?new)"
  then have "ix_table i \<in> table_names cat" "set (ix_columns i) \<subseteq> col_name ` set (columns_of cat (ix_table i))" "ix_table i \<noteq> t"
    using catalog_okD(5,6) [OF ok] by auto
  then show "ix_table i \<in> table_names ?new \<and> set (ix_columns i) \<subseteq> col_name ` set (columns_of ?new (ix_table i))"
    by (simp add: columns_of_filter) (auto simp: table_names_def)
next
  fix p c assume p: "p \<in> set (table_defs ?new)" and c: "c \<in> set (td_columns (snd p))"
  have "type_exists cat c" "target_exists cat (fst p) c" using catalog_okD(7,8) [OF ok, of p c] p c by auto
  moreover have "\<not> references t c" using unreferenced p c by auto
  ultimately show "type_exists ?new c \<and> target_exists ?new (fst p) c"
    by (auto simp: exists_iff table_names_def references_def)
qed (use catalog_okD [OF ok] in \<open>auto simp: distinct_map_filter\<close>)

lemma create_index_keeps:
  assumes ok: "catalog_ok cat" and "ix_table i \<in> table_names cat" and "ix_name i \<notin> ix_name ` set (indexes cat)"
    and "set (ix_columns i) \<subseteq> col_name ` set (columns_of cat (ix_table i))"
  shows "catalog_ok (cat\<lparr>indexes := indexes cat @ [i]\<rparr>)"
  using catalog_okD [OF ok] assms(2-)
  by (intro catalog_okI) (simp_all, elim disjE, simp_all)

lemma drop_index_keeps:
  assumes ok: "catalog_ok cat"
  shows "catalog_ok (cat\<lparr>indexes := filter (\<lambda>i. ix_name i \<noteq> n) (indexes cat)\<rparr>)"
  using catalog_okD [OF ok]
  by (intro catalog_okI) (simp_all add: distinct_map_filter)

lemma add_column_keeps:
  assumes ok: "catalog_ok cat" and t: "t \<in> table_names cat" and new: "col_name c \<notin> col_name ` set (columns_of cat t)"
    and c: "type_exists cat c" "target_exists cat t c"
  shows "catalog_ok (map_table t (\<lambda>cs. cs @ [c]) cat)" (is "catalog_ok ?new")
proof (rule catalog_okI)
  fix p assume "p \<in> set (table_defs ?new)"
  then obtain q where q: "q \<in> set (table_defs cat)" "fst p = fst q"
    "td_columns (snd p) = (if fst q = t then td_columns (snd q) @ [c] else td_columns (snd q))"
    by (auto simp: map_table_def split: if_splits)
  show "distinct (map col_name (td_columns (snd p)))"
    using q new catalog_okD(4) [OF ok q(1)] columns_of_entry [OF catalog_okD(1) [OF ok] q(1)] by auto
next
  fix i assume "i \<in> set (indexes ?new)"
  then show "ix_table i \<in> table_names ?new \<and> set (ix_columns i) \<subseteq> col_name ` set (columns_of ?new (ix_table i))"
    using catalog_okD(5,6) [OF ok, of i] by (auto simp: columns_of_map_table [OF catalog_okD(1) [OF ok]])
next
  fix p d assume "p \<in> set (table_defs ?new)" and "d \<in> set (td_columns (snd p))"
  from map_table_columns [OF this] have "type_exists cat d \<and> target_exists cat (fst p) d"
    using catalog_okD(7,8) [OF ok] c by (force simp del: map_table_names)
  then show "type_exists ?new d \<and> target_exists ?new (fst p) d" by (simp add: exists_iff)
qed (use catalog_okD [OF ok] in simp_all)

lemma drop_column_keeps:
  assumes ok: "catalog_ok cat"
  shows "catalog_ok ((map_table t (filter (\<lambda>c. col_name c \<noteq> n)) cat)
             \<lparr>indexes := filter (\<lambda>i. \<not> (ix_table i = t \<and> n \<in> set (ix_columns i))) (indexes cat)\<rparr>)" (is "catalog_ok ?new")
proof (rule catalog_okI)
  fix p assume "p \<in> set (table_defs ?new)"
  then obtain q where "q \<in> set (table_defs cat)"
    and "td_columns (snd p) = td_columns (snd q) \<or> td_columns (snd p) = filter (\<lambda>c. col_name c \<noteq> n) (td_columns (snd q))"
    by (auto simp: map_table_def split: if_splits)
  then show "distinct (map col_name (td_columns (snd p)))"
    using catalog_okD(4) [OF ok, of q] by (auto simp: distinct_map_filter)
next
  fix i assume i: "i \<in> set (indexes ?new)"
  have cols: "columns_of ?new (ix_table i) = columns_of (map_table t (filter (\<lambda>c. col_name c \<noteq> n)) cat) (ix_table i)"
    and names: "table_names ?new = table_names cat"
    by simp_all
  show "ix_table i \<in> table_names ?new \<and> set (ix_columns i) \<subseteq> col_name ` set (columns_of ?new (ix_table i))"
    using i catalog_okD(5,6) [OF ok, of i]
    by (auto simp: cols names columns_of_map_table [OF catalog_okD(1) [OF ok]])
next
  fix p d assume "p \<in> set (table_defs ?new)" and d: "d \<in> set (td_columns (snd p))"
  then have "p \<in> set (table_defs (map_table t (filter (\<lambda>c. col_name c \<noteq> n)) cat))" by simp
  from map_table_columns [OF this d] have "type_exists cat d \<and> target_exists cat (fst p) d"
    using catalog_okD(7,8) [OF ok] by (force simp del: map_table_names)
  moreover have "table_names ?new = table_names cat" by simp
  ultimately show "type_exists ?new d \<and> target_exists ?new (fst p) d" by (simp add: exists_iff)
qed (use catalog_okD [OF ok] in \<open>simp_all add: distinct_map_filter\<close>)

lemma exec_keeps_catalog_ok:
  assumes ok: "catalog_ok cat" and ran: "exec x cat = Inr cat'"
  shows "catalog_ok cat'"
  using assms
  by (cases x) (auto split: if_splits
      intro: create_extension_keeps create_type_keeps drop_type_keeps create_table_keeps drop_table_keeps
        create_index_keeps drop_index_keeps add_column_keeps drop_column_keeps [simplified])

lemma run_keeps_catalog_ok: "catalog_ok cat \<Longrightarrow> run xs cat = Inr cat' \<Longrightarrow> catalog_ok cat'"
  by (induction xs arbitrary: cat) (auto split: sum.splits dest: exec_keeps_catalog_ok)

lemma empty_catalog_ok: "catalog_ok empty_catalog"
  by (simp add: catalog_ok_def empty_catalog_def)

section \<open>What the revisions undo\<close>

lemma filter_new: "f x \<notin> f ` set xs \<Longrightarrow> filter (\<lambda>y. f y \<noteq> f x) xs = xs"
  by (induction xs) auto

lemma map_table_inverse:
  assumes "\<And>n td. (n, td) \<in> set (table_defs cat) \<Longrightarrow> n = t \<Longrightarrow> g (f (td_columns td)) = td_columns td"
  shows "map_table t g (map_table t f cat) = cat"
proof -
  have "map ((\<lambda>(n, td). (n, if n = t then td\<lparr>td_columns := g (td_columns td)\<rparr> else td))
      \<circ> (\<lambda>(n, td). (n, if n = t then td\<lparr>td_columns := f (td_columns td)\<rparr> else td))) (table_defs cat) = table_defs cat"
    by (rule map_idI) (auto simp: assms)
  then show ?thesis by (simp add: map_table_def)
qed

lemma drop_undoes_add:
  assumes ok: "catalog_ok cat" and ran: "exec (AddColumn t c) cat = Inr cat'"
  shows "exec (DropColumn t (col_name c)) cat' = Inr cat"
proof -
  have t: "t \<in> table_names cat" and new: "col_name c \<notin> col_name ` set (columns_of cat t)"
    and cat': "cat' = map_table t (\<lambda>cs. cs @ [c]) cat"
    using ran by (auto split: if_splits)
  have cols: "columns_of cat' t = columns_of cat t @ [c]"
    using t by (simp add: cat' columns_of_map_table [OF catalog_okD(1) [OF ok]])
  have "map_table t (filter (\<lambda>d. col_name d \<noteq> col_name c)) cat' = cat"
    unfolding cat'
  proof (rule map_table_inverse)
    fix n td assume "(n, td) \<in> set (table_defs cat)" and "n = t"
    then have "td_columns td = columns_of cat t"
      using columns_of_entry [OF catalog_okD(1) [OF ok], of "(n, td)"] by simp
    then show "filter (\<lambda>d. col_name d \<noteq> col_name c) (td_columns td @ [c]) = td_columns td"
      using new by (simp add: filter_new)
  qed
  moreover have "filter (\<lambda>i. \<not> (ix_table i = t \<and> col_name c \<in> set (ix_columns i))) (indexes cat) = indexes cat"
    using catalog_okD(6) [OF ok] new by (force simp: filter_id_conv)
  ultimately show ?thesis using t cols by (simp add: cat')
qed

lemma drop_undoes_create_index:
  "exec (CreateIndex i) cat = Inr cat' \<Longrightarrow> exec (DropIndex (ix_name i) t) cat' = Inr cat"
  by (auto simp: filter_new split: if_splits)

text \<open>
  C35 (later revisions). A later revision is undone by its downgrade: on any sound catalogue where the upgrade of
  the second or the third revision runs through, its downgrade runs through and gives the catalogue back,
  indexes included.
\<close>

theorem later_revisions_are_undone:
  assumes "r \<in> set (tl revisions)" and "catalog_ok cat" and "run (rev_upgrade r) cat = Inr cat'"
  shows "run (rev_downgrade r) cat' = Inr cat"
proof -
  consider "rev_upgrade r = upgrade_0002" "rev_downgrade r = downgrade_0002"
    | "rev_upgrade r = upgrade_0003" "rev_downgrade r = downgrade_0003"
    using assms(1) by (auto simp: revisions_def)
  then show ?thesis
  proof cases
    case 1
    then have "exec (AddColumn ''tables'' (col ''qr_image_url'' TString True NoDefault)) cat = Inr cat'"
      using assms(3) by (simp add: upgrade_0002_def del: exec.simps split: sum.splits)
    from drop_undoes_add [OF assms(2) this] show ?thesis using 1 by (simp add: downgrade_0002_def col_def del: exec.simps)
  next
    case 2
    then obtain a b where a: "exec (AddColumn ''menu_items'' (col ''image_large_url'' TString True NoDefault)) cat = Inr a"
      and b: "exec (AddColumn ''menu_items'' (col ''is_featured'' TBoolean False (DValue ''false''))) a = Inr b"
      and c: "exec (CreateIndex featured_index) b = Inr cat'"
      using assms(3) by (auto simp: upgrade_0003_def simp del: exec.simps split: sum.splits)
    from drop_undoes_add [OF assms(2) a] drop_undoes_add [OF exec_keeps_catalog_ok [OF assms(2) a] b]
      drop_undoes_create_index [OF c]
    show ?thesis using 2
      by (simp add: downgrade_0003_def col_def featured_index_def plain_index_def del: exec.simps)
  qed
qed

theorem later_revisions_are_undone_witness:
  "\<exists>cat cat'. run (upgrade_0001 @ upgrade_0002) empty_catalog = Inr cat \<and> run upgrade_0003 cat = Inr cat'
     \<and> run downgrade_0003 cat' = Inr cat"
proof -
  have "\<not> isl (run (upgrade_0001 @ upgrade_0002) empty_catalog)" by code_simp
  then obtain cat where cat: "run (upgrade_0001 @ upgrade_0002) empty_catalog = Inr cat" by (metis sumE sum.disc(1))
  have "\<not> isl (run ((upgrade_0001 @ upgrade_0002) @ upgrade_0003) empty_catalog)" by code_simp
  then obtain cat' where cat': "run upgrade_0003 cat = Inr cat'"
    using cat by (metis run_append sum.case(2) sumE sum.disc(1))
  have "catalog_ok cat" using run_keeps_catalog_ok [OF empty_catalog_ok cat] .
  from later_revisions_are_undone [of "revisions ! 2", OF _ this] cat' have "run downgrade_0003 cat' = Inr cat"
    by (simp add: revisions_def)
  then show ?thesis using cat cat' by blast
qed

section \<open>What the revisions build\<close>

text \<open>A table is the table of a model when it has its columns, in whatever order, and its constraints.\<close>

definition same_table :: "string \<times> table_def \<Rightarrow> string \<times> table_def \<Rightarrow> bool" where
  "same_table p q \<longleftrightarrow> fst p = fst q \<and> length (td_columns (snd p)) = length (td_columns (snd q))
     \<and> list_all (\<lambda>c. c \<in> set (td_columns (snd q))) (td_columns (snd p))
     \<and> list_all (\<lambda>c. c \<in> set (td_columns (snd p))) (td_columns (snd q))
     \<and> td_constraints (snd p) = td_constraints (snd q)"

text \<open>Running beside other objects: the catalogue \<open>own\<close> next to what was in the database before.\<close>

definition beside :: "catalog \<Rightarrow> catalog \<Rightarrow> catalog" where
  "beside base own =
     \<lparr>extensions = extensions base @ filter (\<lambda>x. x \<notin> set (extensions base)) (extensions own),
      enum_types = enum_types base @ enum_types own, table_defs = table_defs base @ table_defs own,
      indexes = indexes base @ indexes own\<rparr>"

text \<open>An operation that only adds, under names of its own.\<close>

fun adds_apart :: "catalog \<Rightarrow> ddl \<Rightarrow> bool" where
  "adds_apart base (CreateExtensionIfNotExists x) = True"
| "adds_apart base (CreateEnumCheckFirst n vs) = (n \<notin> fst ` set (enum_types base))"
| "adds_apart base (CreateTable t cols cs) = (t \<notin> table_names base)"
| "adds_apart base (CreateIndex i) = (ix_table i \<notin> table_names base \<and> ix_name i \<notin> ix_name ` set (indexes base))"
| "adds_apart base (AddColumn t c) = (t \<notin> table_names base)"
| "adds_apart base _ = False"

lemma beside_names [simp]:
  "table_names (beside base own) = table_names base \<union> table_names own"
  "enum_types (beside base own) = enum_types base @ enum_types own"
  "table_defs (beside base own) = table_defs base @ table_defs own"
  "indexes (beside base own) = indexes base @ indexes own"
  by (auto simp: beside_def table_names_def)

lemma beside_empty [simp]: "beside base empty_catalog = base"
  by (cases base) (simp add: beside_def empty_catalog_def)

lemma columns_of_beside: "t \<notin> table_names base \<Longrightarrow> columns_of (beside base own) t = columns_of own t"
  by (simp add: columns_of_def table_names_def no_entry)

lemma exists_beside:
  "type_exists own c \<Longrightarrow> type_exists (beside base own) c"
  "target_exists own t c \<Longrightarrow> target_exists (beside base own) t c"
  unfolding exists_iff by auto

lemma map_table_beside:
  assumes "t \<notin> table_names base"
  shows "map_table t f (beside base own) = beside base (map_table t f own)"
proof -
  have "map (\<lambda>(n, td). (n, if n = t then td\<lparr>td_columns := f (td_columns td)\<rparr> else td)) (table_defs base) = table_defs base"
    using assms by (intro map_idI) (force simp: table_names_def)
  then show ?thesis by (simp add: map_table_def beside_def)
qed

lemma exec_beside:
  assumes "exec x own = Inr own'" and "adds_apart base x"
  shows "exec x (beside base own) = Inr (beside base own')"
proof (cases x)
  case (CreateExtensionIfNotExists e)
  with assms(1) show ?thesis by (auto simp: beside_def split: if_splits)
next
  case (AddColumn t c)
  with assms show ?thesis
    by (auto simp: columns_of_beside exists_beside map_table_beside split: if_splits)
next
  case (CreateEnumCheckFirst n vs)
  with assms show ?thesis by (auto simp: beside_def split: if_splits)
next
  case (CreateTable t cols cs)
  with assms have "own' = own\<lparr>table_defs := table_defs own @ [(t, \<lparr>td_columns = cols, td_constraints = cs\<rparr>)]\<rparr>"
    and ok: "t \<notin> table_names base" "t \<notin> table_names own" "distinct (map col_name cols)"
      "\<forall>c \<in> set cols. type_exists own c" "\<forall>c \<in> set cols. target_exists own t c"
    by (auto split: if_splits)
  moreover from ok have "\<forall>c \<in> set cols. type_exists (beside base own) c"
    "\<forall>c \<in> set cols. target_exists (beside base own) t c"
    by (simp_all add: exists_beside)
  ultimately show ?thesis using CreateTable by (simp add: beside_def table_names_def image_Un)
next
  case (CreateIndex i)
  with assms have "own' = own\<lparr>indexes := indexes own @ [i]\<rparr>" and "ix_table i \<notin> table_names base"
    and "ix_name i \<notin> ix_name ` set (indexes base)" and "ix_table i \<in> table_names own"
    and "ix_name i \<notin> ix_name ` set (indexes own)" and "set (ix_columns i) \<subseteq> col_name ` set (columns_of own (ix_table i))"
    by (auto split: if_splits)
  moreover from this have "columns_of (beside base own) (ix_table i) = columns_of own (ix_table i)"
    by (simp add: columns_of_beside)
  ultimately show ?thesis using CreateIndex by (simp add: image_Un) (simp add: beside_def)
qed (use assms in simp_all)

lemma run_beside:
  "run xs own = Inr own' \<Longrightarrow> list_all (adds_apart base) xs \<Longrightarrow> run xs (beside base own) = Inr (beside base own')"
proof (induction xs arbitrary: own)
  case (Cons x xs)
  then obtain own1 where "exec x own = Inr own1" "run xs own1 = Inr own'" by (auto split: sum.splits)
  with Cons exec_beside [of x own own1 base] show ?case by simp
qed simp

text \<open>The names the revisions use are those of the models, and the revisions only add.\<close>

fun adds_named :: "string list \<Rightarrow> string list \<Rightarrow> string list \<Rightarrow> ddl \<Rightarrow> bool" where
  "adds_named es ts is (CreateExtensionIfNotExists x) = True"
| "adds_named es ts is (CreateEnumCheckFirst n vs) = (n \<in> set es)"
| "adds_named es ts is (CreateTable t cols cs) = (t \<in> set ts)"
| "adds_named es ts is (CreateIndex i) = (ix_table i \<in> set ts \<and> ix_name i \<in> set is)"
| "adds_named es ts is (AddColumn t c) = (t \<in> set ts)"
| "adds_named es ts is _ = False"

lemma adds_named_apart:
  assumes "adds_named es ts is x" and "set es \<inter> fst ` set (enum_types base) = {}" and "set ts \<inter> table_names base = {}"
    and "set is \<inter> ix_name ` set (indexes base) = {}"
  shows "adds_apart base x"
  using assms by (cases x) auto

lemma upgrade_head_names:
  "list_all (adds_named (map fst model_enums) (map fst model_tables) (map ix_name (model_indexes @ [featured_index]))) upgrade_head"
  by code_simp

lemma upgrade_head_empty:
  "case run upgrade_head empty_catalog of
      Inl _ \<Rightarrow> False
    | Inr cat \<Rightarrow> extensions cat = [''pgcrypto''] \<and> list_all2 same_table (table_defs cat) model_tables
        \<and> enum_types cat = model_enums \<and> indexes cat = model_indexes @ [featured_index]"
  by code_simp

text \<open>
  C34 (schema). What the revisions build is what the models declare. On any sound catalogue that has no type, table or
  index of the name of one of theirs, \<^verbatim>\<open>alembic upgrade head\<close> runs through, leaves everything that was there as it is and adds
  pgcrypto unless it is there, the ten tables of the models, each with its columns and constraints, the five types with the
  values of the enumerations, and the indexes of the models with, beyond them, the one on the featured dishes, which no model
  declares; the result is sound again.
\<close>

theorem migrations_build_the_models:
  assumes "catalog_ok base" and "fst ` set model_enums \<inter> fst ` set (enum_types base) = {}"
    and "fst ` set model_tables \<inter> table_names base = {}"
    and "ix_name ` set (model_indexes @ [featured_index]) \<inter> ix_name ` set (indexes base) = {}"
  shows "\<exists>cat tds. run upgrade_head base = Inr cat \<and> catalog_ok cat
    \<and> extensions cat = extensions base @ (if ''pgcrypto'' \<in> set (extensions base) then [] else [''pgcrypto''])
    \<and> enum_types cat = enum_types base @ model_enums
    \<and> table_defs cat = table_defs base @ tds \<and> list_all2 same_table tds model_tables
    \<and> indexes cat = indexes base @ model_indexes @ [featured_index] \<and> featured_index \<notin> set model_indexes"
proof -
  from upgrade_head_empty obtain own where own: "run upgrade_head empty_catalog = Inr own" "extensions own = [''pgcrypto'']"
    "list_all2 same_table (table_defs own) model_tables" "enum_types own = model_enums"
    "indexes own = model_indexes @ [featured_index]"
    by (cases "run upgrade_head empty_catalog") simp_all
  have "list_all (adds_apart base) upgrade_head"
    using list.pred_mono_strong [OF upgrade_head_names adds_named_apart] assms(2-4) by (simp only: list.set_map)
  from run_beside [OF own(1) this] have r: "run upgrade_head base = Inr (beside base own)"
    by simp
  moreover have "featured_index \<notin> set model_indexes" by code_simp
  ultimately show ?thesis
    using own(2-5) run_keeps_catalog_ok [OF assms(1) r]
    by (intro exI [of _ "beside base own"] exI [of _ "table_defs own"]) (simp add: beside_def)
qed

lemma migrations_build_the_models_witness:
  "\<exists>cat. run upgrade_head (empty_catalog\<lparr>extensions := [''pgcrypto''],
        table_defs := [(''alembic_version'', \<lparr>td_columns = [col ''version_num'' TString False NoDefault], td_constraints = []\<rparr>)]\<rparr>)
      = Inr cat \<and> extensions cat = [''pgcrypto''] \<and> length (indexes cat) = 6 \<and> ''alembic_version'' \<in> table_names cat"
proof -
  let ?base = "empty_catalog\<lparr>extensions := [''pgcrypto''],
        table_defs := [(''alembic_version'', \<lparr>td_columns = [col ''version_num'' TString False NoDefault], td_constraints = []\<rparr>)]\<rparr>"
  have "catalog_ok ?base"
    by (simp add: catalog_ok_def empty_catalog_def exists_iff col_def)
  moreover have "fst ` set model_enums \<inter> fst ` set (enum_types ?base) = {}" "fst ` set model_tables \<inter> table_names ?base = {}"
    "ix_name ` set (model_indexes @ [featured_index]) \<inter> ix_name ` set (indexes ?base) = {}"
    by code_simp+
  moreover have "length model_indexes = 5" by (simp add: model_indexes_def)
  ultimately show ?thesis
    using migrations_build_the_models [of ?base] by (fastforce simp: empty_catalog_def table_names_def)
qed

lemma downgrade_undoes_upgrade:
  "run (upgrade_head @ downgrade_base) empty_catalog = Inr (empty_catalog\<lparr>extensions := [''pgcrypto'']\<rparr>)"
  by code_simp

end
