(* ===== verification/MigrationEnv.thy ===== *)
theory MigrationEnv imports Deployment Migrations begin

text \<open>
  \<^verbatim>\<open>migrations/env.py\<close>: how Alembic gets the address of the database, and in which mode it runs the revisions of
  \<^verbatim>\<open>Migrations\<close>. The address goes through Python's \<^verbatim>\<open>ConfigParser\<close>, which takes percent signs in a value for
  interpolation. Alembic's choice of the revisions to run and the connection are parameters.
\<close>

section \<open>ConfigParser\<close>

text \<open>\<^verbatim>\<open>%(name)s\<close> at the head of a text: the name and what follows, when the text goes on like that after its percent sign.\<close>

definition key_reference :: "string \<Rightarrow> (string \<times> string) option" where
  "key_reference cs =
     (case cs of
        CHR ''('' # ds \<Rightarrow>
          (let name = takeWhile (\<lambda>c. c \<noteq> CHR '')'') ds; rest = dropWhile (\<lambda>c. c \<noteq> CHR '')'') ds
           in if name \<noteq> [] \<and> take 2 rest = '')s'' then Some (name, drop 2 rest) else None)
      | _ \<Rightarrow> None)"

lemma key_reference_shorter: "key_reference cs = Some (name, rest) \<Longrightarrow> length rest < length cs"
  by (auto simp: key_reference_def Let_def split: list.splits char.splits bool.splits if_splits
      intro!: le_imp_less_Suc order_trans [OF diff_le_self] length_dropWhile_le)

text \<open>\<^verbatim>\<open>value.replace('%%', '')\<close> and the removal of the references, as \<^verbatim>\<open>set\<close> checks a value.\<close>

fun drop_escaped :: "string \<Rightarrow> string" where
  "drop_escaped (c # c' # cs) = (if c = CHR ''%'' \<and> c' = CHR ''%'' then drop_escaped cs else c # drop_escaped (c' # cs))"
| "drop_escaped cs = cs"

function drop_references :: "string \<Rightarrow> string" where
  "drop_references [] = []"
| "drop_references (c # cs) =
     (case (if c = CHR ''%'' then key_reference cs else None) of
        Some (_, rest) \<Rightarrow> drop_references rest
      | None \<Rightarrow> c # drop_references cs)"
  by pat_completeness auto
termination
  by (relation "measure length") (auto dest: key_reference_shorter split: if_splits)

definition set_option_raises :: "string \<Rightarrow> bool" where
  "set_option_raises v \<longleftrightarrow> CHR ''%'' \<in> set (drop_references (drop_escaped v))"

text \<open>Reading a value: a doubled percent sign is one, a reference is the value of its option, which may be missing.\<close>

function interpolate :: "(string \<Rightarrow> string option) \<Rightarrow> string \<Rightarrow> string option" where
  "interpolate opt [] = Some []"
| "interpolate opt (c # cs) =
     (if c \<noteq> CHR ''%'' then map_option (Cons c) (interpolate opt cs)
      else if take 1 cs = ''%'' then map_option (Cons c) (interpolate opt (drop 1 cs))
      else (case key_reference cs of
          None \<Rightarrow> None
        | Some (name, rest) \<Rightarrow>
            (case opt name of None \<Rightarrow> None | Some v \<Rightarrow> map_option (append v) (interpolate opt rest))))"
  by pat_completeness auto
termination
  by (relation "measure (length \<circ> snd)") (auto dest: key_reference_shorter)

section \<open>The environment\<close>

record alembic =
  offline_mode :: bool
  ini_option :: "string \<Rightarrow> string option"
  offline_revisions :: "ddl list"
  pending_revisions :: "catalog \<Rightarrow> ddl list"
  connect_raises :: "string \<Rightarrow> string option"

text \<open>The schemas behind the addresses of databases.\<close>

type_synonym servers = "string \<Rightarrow> catalog"

definition interpolation_error :: string where
  "interpolation_error = ''invalid interpolation''"

definition run_migrations_offline :: "alembic \<Rightarrow> string \<Rightarrow> start_error + ddl list" where
  "run_migrations_offline al stored =
     (case interpolate (ini_option al) stored of
        None \<Rightarrow> Inl (LibraryError interpolation_error)
      | Some url \<Rightarrow> Inr (offline_revisions al))"

text \<open>In a transaction: a refused operation leaves the schema as it was.\<close>

definition do_run_migrations :: "alembic \<Rightarrow> catalog \<Rightarrow> string option \<times> catalog" where
  "do_run_migrations al cat =
     (case run (pending_revisions al cat) cat of Inl msg \<Rightarrow> (Some msg, cat) | Inr cat' \<Rightarrow> (None, cat'))"

definition run_async_migrations :: "alembic \<Rightarrow> string \<Rightarrow> servers \<Rightarrow> (start_error + ddl list) \<times> servers" where
  "run_async_migrations al stored srv =
     (case interpolate (ini_option al) stored of
        None \<Rightarrow> (Inl (LibraryError interpolation_error), srv)
      | Some url \<Rightarrow>
          (case connect_raises al url of
             Some msg \<Rightarrow> (Inl (LibraryError msg), srv)
           | None \<Rightarrow>
               (case do_run_migrations al (srv url) of
                  (Some msg, _) \<Rightarrow> (Inl (LibraryError msg), srv)
                | (None, cat) \<Rightarrow> (Inr [], srv(url := cat)))))"

text \<open>The module: the import of the models creates the engine, the address is put into the configuration, then one of the modes.\<close>

definition env_py :: "'s libraries \<Rightarrow> alembic \<Rightarrow> environ \<Rightarrow> servers \<Rightarrow> 's process
    \<Rightarrow> ((start_error + ddl list) \<times> servers) \<times> 's process" where
  "env_py lib al env srv p =
     (case import_db lib env p of
        (Inl x, p) \<Rightarrow> ((Inl x, srv), p)
      | (Inr _, p) \<Rightarrow>
          (case get_settings lib env p of
             (Inl x, p) \<Rightarrow> ((Inl x, srv), p)
           | (Inr settings, p) \<Rightarrow>
               (if set_option_raises (st_database_url settings) then ((Inl (LibraryError interpolation_error), srv), p)
                else if offline_mode al then ((run_migrations_offline al (st_database_url settings), srv), p)
                else (run_async_migrations al (st_database_url settings) srv, p))))"

section \<open>Facts\<close>

lemma interpolate_plain: "CHR ''%'' \<notin> set v \<Longrightarrow> interpolate opt v = Some v"
  by (induction v) auto

lemma drop_escaped_plain: "CHR ''%'' \<notin> set a \<Longrightarrow> drop_escaped (a @ v) = a @ drop_escaped v"
proof (induction a)
  case (Cons c a)
  then show ?case by (cases "a @ v") auto
qed simp

lemma drop_references_plain: "CHR ''%'' \<notin> set a \<Longrightarrow> drop_references (a @ v) = a @ drop_references v"
  by (induction a) auto

lemma plain_accepted: "CHR ''%'' \<notin> set v \<Longrightarrow> \<not> set_option_raises v"
  using drop_escaped_plain [of v "[]"] drop_references_plain [of v "[]"] by (simp add: set_option_raises_def)

text \<open>A percent sign before anything but another one or a parenthesis.\<close>

lemma encoded_refused:
  assumes "CHR ''%'' \<notin> set a" and "h \<noteq> CHR ''%''" and "h \<noteq> CHR ''(''"
  shows "set_option_raises (a @ CHR ''%'' # h # b)"
proof -
  obtain w where w: "drop_escaped (h # b) = h # w" using assms(2) by (cases b) auto
  have "key_reference (h # w) = None" using assms(3) by (simp add: key_reference_def split: char.split bool.split)
  then show ?thesis
    using assms(2) w by (simp add: set_option_raises_def drop_escaped_plain [OF assms(1)] drop_references_plain [OF assms(1)])
qed

section \<open>Properties\<close>

lemma import_main_started:
  assumes "import_main lib env fresh_process = (Inr app, p)"
  shows "\<exists>s. load_settings (lib_pydantic lib) env = Inr s \<and> create_engine_raises lib (st_database_url s) = None
    \<and> settings_cache p = Some s \<and> engine p = Some (st_database_url s, st_debug s)"
  using assms
  by (auto simp: import_main_def import_db_def with_settings_def get_settings_def unless_raised_def fresh_process_def
      split: sum.splits option.splits prod.splits)

lemma env_py_started:
  assumes "load_settings (lib_pydantic lib) env = Inr s" and "create_engine_raises lib (st_database_url s) = None"
  shows "fst (env_py lib al env srv fresh_process) =
    (if set_option_raises (st_database_url s) then (Inl (LibraryError interpolation_error), srv)
     else if offline_mode al then (run_migrations_offline al (st_database_url s), srv)
     else run_async_migrations al (st_database_url s) srv)"
  using assms
  by (simp add: env_py_def import_db_def with_settings_def get_settings_def unless_raised_def fresh_process_def)

text \<open>
  C39 (address of the migrations). Where the application starts, the migrations work on the database of its engine and on
  no other, all revisions or none, provided the address has no percent sign and Alembic is not run offline. With a percent-encoded character in it, as
  a password with special characters needs, the application starts and the migrations do not: the address is
  refused before a connection is made, and no schema is changed.
\<close>

theorem migrations_reach_the_database_of_the_engine:
  assumes "import_main lib env fresh_process = (Inr app, p)"
  shows "\<exists>url. map_option fst (engine p) = Some url
    \<and> (CHR ''%'' \<notin> set url \<and> \<not> offline_mode al \<longrightarrow> fst (env_py lib al env srv fresh_process) =
        (case connect_raises al url of
           Some msg \<Rightarrow> (Inl (LibraryError msg), srv)
         | None \<Rightarrow> (case run (pending_revisions al (srv url)) (srv url) of
             Inl msg \<Rightarrow> (Inl (LibraryError msg), srv)
           | Inr cat \<Rightarrow> (Inr [], srv(url := cat)))))
    \<and> (\<forall>a h b. url = a @ CHR ''%'' # h # b \<and> CHR ''%'' \<notin> set a \<and> h \<notin> {CHR ''%'', CHR ''(''} \<longrightarrow>
        fst (env_py lib al env srv fresh_process) = (Inl (LibraryError interpolation_error), srv))"
proof -
  from import_main_started [OF assms] obtain s where
    s: "load_settings (lib_pydantic lib) env = Inr s" "create_engine_raises lib (st_database_url s) = None"
      "engine p = Some (st_database_url s, st_debug s)" by blast
  note eq = env_py_started [OF s(1,2), of al srv]
  have "fst (env_py lib al env srv fresh_process) = run_async_migrations al (st_database_url s) srv"
    if "CHR ''%'' \<notin> set (st_database_url s)" "\<not> offline_mode al"
    unfolding eq using plain_accepted [OF that(1)] that(2) by simp
  moreover have "set_option_raises (st_database_url s)"
    if "st_database_url s = a @ CHR ''%'' # h # b" "CHR ''%'' \<notin> set a" "h \<notin> {CHR ''%'', CHR ''(''}" for a h b
    using encoded_refused [OF that(2)] that(1,3) by simp
  ultimately show ?thesis
    unfolding s(3) eq
    by (intro exI [of _ "st_database_url s"])
      (auto simp: run_async_migrations_def do_run_migrations_def interpolate_plain split: option.split sum.split)
qed

section \<open>Witnesses\<close>

definition demo_alembic :: alembic where
  "demo_alembic = \<lparr>offline_mode = False, ini_option = Map.empty, offline_revisions = [],
     pending_revisions = (\<lambda>cat. if table_defs cat = [] then upgrade_head else []), connect_raises = (\<lambda>_. None)\<rparr>"

lemma migrations_reach_the_database_of_the_engine_witness:
  "fst (env_py demo_lib demo_alembic [''database_url'' \<mapsto> ''postgresql+asyncpg://q:p%40ss@db/q'']
      (\<lambda>_. empty_catalog) fresh_process) = (Inl (LibraryError interpolation_error), \<lambda>_. empty_catalog)"
proof -
  let ?env = "[''database_url'' \<mapsto> ''postgresql+asyncpg://q:p%40ss@db/q'']"
  have "fst (import_main demo_lib ?env fresh_process) = Inr \<lparr>app_title = ''QOrder API'', app_version = ''0.1.0'', app_debug = False\<rparr>"
    by code_simp
  then have started: "import_main demo_lib ?env fresh_process
    = (Inr \<lparr>app_title = ''QOrder API'', app_version = ''0.1.0'', app_debug = False\<rparr>, snd (import_main demo_lib ?env fresh_process))"
    by (simp add: prod_eq_iff)
  have url: "map_option fst (engine (snd (import_main demo_lib ?env fresh_process))) = Some ''postgresql+asyncpg://q:p%40ss@db/q''"
    by code_simp
  have split: "''postgresql+asyncpg://q:p%40ss@db/q'' = ''postgresql+asyncpg://q:p'' @ CHR ''%'' # CHR ''4'' # ''0ss@db/q''"
    and plain: "CHR ''%'' \<notin> set ''postgresql+asyncpg://q:p''" by simp_all
  from migrations_reach_the_database_of_the_engine [OF started, of demo_alembic "\<lambda>_. empty_catalog"] show ?thesis
    unfolding url option.inject by (elim exE conjE) (use split plain in blast)
qed

end
