(* ===== verification/Spec2Isabelle.thy ===== *)
theory Spec2Isabelle imports Overdue Settlement Lifecycle Events Images ReportJob Seed MigrationEnv begin

text \<open>
  QOrder is the backend of a QR ordering system for restaurants: a FastAPI application over
  PostgreSQL and Redis (\<^verbatim>\<open>src/qorder_api/\<close>). A guest scans the code of a table, which opens a table
  session, and orders from the menu; the kitchen moves each ordered item through its states; the
  staff checks the session out, which fixes its bill; a scheduler abandons sessions that nobody
  uses any more. All state is in the database. Redis carries events, locks and tickets.

  \<^bold>\<open>The parts and their theories.\<close>

  \<^item> \<^verbatim>\<open>Prelude\<close>: times in microseconds, amounts in hundredths, the exceptions of the program as a
    datatype, results as sums, and the SQL statements it uses on lists of rows (\<open>sql_update\<close>,
    \<open>sql_returning\<close>, \<open>scalar_one_or_none\<close>) with their lemmas.
  \<^item> \<^verbatim>\<open>Enums\<close>, \<^verbatim>\<open>Models\<close> (\<^verbatim>\<open>models/\<close>): the enumerations, one record per table, the database as a record
    of row lists, insertions with the constraints of the tables, and the invariant \<open>db_inv\<close>:
    unique keys, at most one open session per table, rows that stay within their restaurant, and
    columns that fit the status of their row.
  \<^item> \<^verbatim>\<open>Contracts\<close>: the contract of a compare-and-swap (\<open>status_cas\<close>) and of two of them on the same
    row (\<open>cas_race\<close>), interpreted by \<^verbatim>\<open>ItemState\<close>, \<^verbatim>\<open>Sessions\<close> and \<^verbatim>\<open>Scheduler\<close> on the operations
    of the program.
  \<^item> \<^verbatim>\<open>ItemState\<close>, \<^verbatim>\<open>PyFloat\<close>, \<^verbatim>\<open>Overdue\<close> (\<^verbatim>\<open>services/item_state_service.py\<close>): the state machine of an
    ordered item and the overdue level, computed in float64 arithmetic.
  \<^item> \<^verbatim>\<open>Realtime\<close> (\<^verbatim>\<open>realtime/\<close>): channels and the publisher, with the environment \<open>env\<close> of a request
    and the \<open>world\<close> (database and published messages) that the handlers transform.
  \<^item> \<^verbatim>\<open>StaffCalls\<close>, \<^verbatim>\<open>Sessions\<close> (\<^verbatim>\<open>services/\<close>): calls of the staff with their cooldown; opening,
    checkout and restore of sessions. \<^verbatim>\<open>Settlement\<close>: the checkout statement by statement, with what others commit
    in between.
  \<^item> \<^verbatim>\<open>Scheduler\<close> (\<^verbatim>\<open>scheduler/\<close>): the sweep of stale sessions, the distributed locks, the report loop.
  \<^item> \<^verbatim>\<open>Schemas\<close>, \<^verbatim>\<open>Customer\<close> (\<^verbatim>\<open>schemas/\<close>, \<^verbatim>\<open>api/customer_router.py\<close>): the handlers of the guest's pages
    and the bodies and answers of the routes.
  \<^item> \<^verbatim>\<open>Auth\<close> (\<^verbatim>\<open>auth/\<close>, \<^verbatim>\<open>api/auth_router.py\<close>, \<^verbatim>\<open>ws/gateway.py\<close>): tokens, guards, logins, tickets and the
    decision of each socket.
  \<^item> \<^verbatim>\<open>Kitchen\<close>, \<^verbatim>\<open>StaffTables\<close> (\<^verbatim>\<open>api/kitchen_router.py\<close>, \<^verbatim>\<open>api/staff_table_router.py\<close>): the routes of the
    staff, with their answers and events.
  \<^item> \<^verbatim>\<open>AdminRows\<close>, \<^verbatim>\<open>AdminTables\<close>, \<^verbatim>\<open>AdminSettings\<close>, \<^verbatim>\<open>AdminMenu\<close> (\<^verbatim>\<open>api/admin_*_router.py\<close>, \<^verbatim>\<open>schemas/table.py\<close>,
    \<^verbatim>\<open>schemas/menu.py\<close>): PATCH bodies and row writes, tables with their QR codes, settings and the staff's
    PIN, the menu with its photos. \<^verbatim>\<open>Storage\<close> (\<^verbatim>\<open>storage.py\<close>) is the object storage they use, \<^verbatim>\<open>Decimals\<close> the
    decimal texts of numbers.
  \<^item> \<^verbatim>\<open>Evolution\<close>, \<^verbatim>\<open>History\<close>: what all writes have in common, as the interface \<open>row_writes\<close> with two
    interpretations: history is kept, other restaurants are left alone.
  \<^item> \<^verbatim>\<open>System\<close> (\<^verbatim>\<open>main.py\<close>): all endpoints as one handler behind the guards they are mounted with, and the
    state machine of requests and sweeps that interleave.
  \<^item> \<^verbatim>\<open>Lifecycle\<close>: histories of the items, any requests in any order.
  \<^item> \<^verbatim>\<open>Gateway\<close> (\<^verbatim>\<open>ws/gateway.py\<close>): the life of the sockets, their forwarding task and the Pub/Sub between
    publisher and socket, as events in any order; \<^verbatim>\<open>Events\<close>: from the requests of \<^verbatim>\<open>System\<close> to those sockets.
  \<^item> \<^verbatim>\<open>Images\<close> (\<^verbatim>\<open>images.py\<close>): the pipeline from an uploaded photo to its two variants.
  \<^item> \<^verbatim>\<open>Printing\<close> (\<^verbatim>\<open>printing/\<close>): the receipt command by command, the page of the PDF and the fallback.
  \<^item> \<^verbatim>\<open>Reports\<close> (\<^verbatim>\<open>reporting/\<close>): the aggregates and their transfer to a spreadsheet, call by call; \<^verbatim>\<open>ReportJob\<close>: the
    hourly job, the lock and the loop of \<^verbatim>\<open>Scheduler\<close> around them.
  \<^item> \<^verbatim>\<open>Deployment\<close> (\<^verbatim>\<open>config.py\<close>, \<^verbatim>\<open>db.py\<close>, \<^verbatim>\<open>redis.py\<close>, the start of \<^verbatim>\<open>main.py\<close> and of the scheduler): the process
    around the application, its settings and what is built from them.
  \<^item> \<^verbatim>\<open>Seed\<close> (\<^verbatim>\<open>seed.py\<close>): the demo tenant in one transaction.
  \<^item> \<^verbatim>\<open>Migrations\<close> (\<^verbatim>\<open>migrations/versions/\<close>): the revisions as operations on a catalogue, and the tables
    that \<^verbatim>\<open>models/\<close> declares; \<^verbatim>\<open>MigrationEnv\<close> (\<^verbatim>\<open>migrations/env.py\<close>): the address and the modes they are run with.
  \<^item> \<^verbatim>\<open>Demo\<close>: one concrete database that satisfies the invariant, used by the witnesses.

  \<^bold>\<open>Correspondence.\<close> A definition has the name of the function it models; a WHERE clause is a
  predicate on rows (\<open>..._where\<close>), a SET clause a function on rows (\<open>..._set\<close>), an event a payload
  (\<open>..._payload\<close>). A service returns its result and the database after its commit, or the exception
  that it raises; a handler maps a world to an answer or an exception and a world. A statement of
  the database is atomic, a transaction is not: where the code reads, decides and writes, the
  environment's \<open>others k\<close> is what other connections commit in the gap between (0: a lookup and the
  insertion after it; 1: a rollback and the next read; 2: a commit and the refresh; 3: a check and the write; 4, 5 and
  so on: before each of the refreshes of a new order and its items). The statements of a checkout, and of the second path of
  a restore, are taken together: the first one locks the row of the session, which every other
  transaction that orders, calls or changes an item for the session writes too. \<^verbatim>\<open>Settlement\<close> has them one by one and shows that the
  result is the same whatever commits in between, as long as the row and the items of the session are left alone. The statements that
  one transaction runs after its first write in the other services (an item and its session's activity, an order and its items) are
  taken together as well; others see them at the commit only. Texts are lists of bytes, in UTF-8; limits on their length count characters
  (\<open>characters\<close>). A ticket is stored with the time it has left (\<open>ticket_laws\<close>).

  \<^bold>\<open>What the theorems show.\<close> Each operation has its behaviour on every branch and keeps \<open>db_inv\<close>. Of the
  components: items follow their state machine and their work ends (\<^verbatim>\<open>ItemState\<close>, \<^verbatim>\<open>Lifecycle\<close>); one session per
  table, bills, sweeps and restores (\<^verbatim>\<open>Sessions\<close>, \<^verbatim>\<open>Scheduler\<close>); orders are snapshots and all or nothing
  (\<^verbatim>\<open>Customer\<close>); tokens and tickets open what they should (\<^verbatim>\<open>Auth\<close>); new tables, codes, dishes and photos reach
  the guests (\<^verbatim>\<open>Admin...\<close>). Of the whole: history is kept, restaurants are isolated, no authority means no change
  (\<^verbatim>\<open>System\<close>), a socket is sent what is published on its channel since it subscribed, in order and without gaps, for as
  long as sending works (\<^verbatim>\<open>Gateway\<close>), and nothing of another restaurant (\<^verbatim>\<open>Events\<close>). Around it: printing and reporting
  fail only in the ways described, one restaurant's failure leaves the reports of the others alone, a process has one
  configuration, photos have the sizes promised, the seeded tenant works, and the migrations build the models beside whatever is in the
  database of the application. Several theorems describe behaviour the code has and does not intend; their text says so (an undo after a checkout, an order into a session that is being closed, answers from stale objects).

  \<^bold>\<open>Bounds.\<close> \<^verbatim>\<open>NUMERIC(12, 2)\<close> and \<^verbatim>\<open>INTEGER\<close> columns are integers with their ranges checked where
  the program can leave them (\<open>fits_numeric_12_2\<close>, \<open>fits_int4\<close>), timestamps have their smallest value
  where the program subtracts from them. Floats are rationals rounded to 53 bits. All loops of the
  program run over finite lists of rows, so there is no fuel; only \<open>path_from\<close> (\<^verbatim>\<open>Migrations\<close>) has a counter, the
  number of revisions, which no path without a repeated revision exceeds.

  \<^bold>\<open>Not modelled.\<close> The libraries (jose, Redis, bcrypt, S3, Pillow, APScheduler, pydantic-settings, Alembic, gspread,
  python-escpos, weasyprint, qrcode) are parameters with their documented laws as hypotheses, and every call of Pillow, gspread, the
  printer and S3 may raise. Locks of rows are not modelled as such. Tests and the check scripts beside them are not part
  of the program.
\<close>

end
